theory Spec2Isabelle
  imports Complex_Main
begin

section \<open>Host values: strings and numbers\<close>

text \<open>
  A JavaScript string is a sequence of UTF-16 code units; \<open>str\<close> embeds the ASCII
  literals of the source.  Text that the page shows is kept as a list of pieces: literal
  text, and the results of the host's number and value formatting, which the model
  does not compute (\<open>Number.prototype.toLocaleString('en-IN')\<close>, \<open>Number::toString\<close>,
  the string conversion of an arbitrary value).
\<close>

type_synonym jsstring = "nat list"

definition str :: "string \<Rightarrow> jsstring" where
  "str s = map of_char s"

text \<open>
  A JavaScript number: the IEEE 754 binary64 values.  \<open>Fin q\<close> is the finite value
  whose exact mathematical value is \<open>q\<close> (\<open>Fin 0\<close> is \<open>+0\<close>), \<open>NegZero\<close> is \<open>-0\<close>.
\<close>

datatype jsnum = NaN | PInf | NInf | NegZero | Fin rat

datatype json =
    JNull
  | JBool bool
  | JNum jsnum
  | JStr jsstring
  | JArr "json list"
  | JObj "(jsstring \<times> json) list"

datatype piece =
    Txt jsstring
  | NumStr jsnum
  | LocaleStr jsnum
  | ValStr "json option"

type_synonym jstext = "piece list"

definition rupee :: jsstring where
  "rupee = [0x20B9]"

subsection \<open>Rounding an exact value to binary64\<close>

text \<open>\<open>bits n\<close> is the number of binary digits of a positive integer \<open>n\<close>.\<close>

function bits :: "int \<Rightarrow> int" where
  "bits n = (if n \<le> 0 then 0 else 1 + bits (n div 2))"
  by pat_completeness auto
termination
  by (relation "measure nat") auto

declare bits.simps [simp del]

text \<open>\<open>ilog2 a\<close> is the integer \<open>e\<close> with \<open>2^e \<le> a < 2^(e+1)\<close>, for \<open>0 < a\<close>.\<close>

definition ilog2 :: "rat \<Rightarrow> int" where
  "ilog2 a = (if 1 \<le> a then bits \<lfloor>a\<rfloor> - 1 else - bits (\<lceil>1 / a\<rceil> - 1))"

definition pow2 :: "int \<Rightarrow> rat" where
  "pow2 e = (if 0 \<le> e then 2 ^ nat e else 1 / 2 ^ nat (- e))"

definition round_half_even :: "rat \<Rightarrow> int" where
  "round_half_even r =
     (let f = \<lfloor>r\<rfloor>; d = r - of_int f
      in if d < 1 / 2 then f
         else if 1 / 2 < d then f + 1
         else if even f then f else f + 1)"

text \<open>
  Round to nearest, ties to even, with 53 significant bits; the exponent is clamped at
  \<open>-1022\<close> (subnormal values), and a result of \<open>2^1024\<close> or more is an infinity.
\<close>

definition to_double :: "rat \<Rightarrow> jsnum" where
  "to_double q =
     (if q = 0 then Fin 0
      else
        let a = \<bar>q\<bar>; e = max (ilog2 a) (- 1022)
        in if 1024 \<le> e then (if q < 0 then NInf else PInf)
           else
             let u = pow2 (e - 52); n = round_half_even (a / u)
             in if e = 1023 \<and> n = 9007199254740992 then (if q < 0 then NInf else PInf)
                else if n = 0 then (if q < 0 then NegZero else Fin 0)
                else Fin (if q < 0 then - (of_int n * u) else of_int n * u))"

subsection \<open>Comparison and division\<close>

fun is_neg :: "jsnum \<Rightarrow> bool" where
  "is_neg NInf = True"
| "is_neg NegZero = True"
| "is_neg (Fin q) = (q < 0)"
| "is_neg _ = False"

fun is_zero :: "jsnum \<Rightarrow> bool" where
  "is_zero NegZero = True"
| "is_zero (Fin q) = (q = 0)"
| "is_zero _ = False"

fun is_inf :: "jsnum \<Rightarrow> bool" where
  "is_inf PInf = True"
| "is_inf NInf = True"
| "is_inf _ = False"

fun isFinite :: "jsnum \<Rightarrow> bool" where
  "isFinite NegZero = True"
| "isFinite (Fin q) = True"
| "isFinite _ = False"

fun mag :: "jsnum \<Rightarrow> rat" where
  "mag (Fin q) = q"
| "mag _ = 0"

text \<open>\<open>js_le a b\<close> is \<open>a <= b\<close>: false as soon as one side is \<open>NaN\<close>.\<close>

fun js_le :: "jsnum \<Rightarrow> jsnum \<Rightarrow> bool" where
  "js_le NaN _ = False"
| "js_le _ NaN = False"
| "js_le NInf _ = True"
| "js_le _ PInf = True"
| "js_le PInf _ = False"
| "js_le _ NInf = False"
| "js_le a b = (mag a \<le> mag b)"

definition js_ge :: "jsnum \<Rightarrow> jsnum \<Rightarrow> bool" where
  "js_ge a b = js_le b a"

definition js_lt :: "jsnum \<Rightarrow> jsnum \<Rightarrow> bool" where
  "js_lt a b = (a \<noteq> NaN \<and> b \<noteq> NaN \<and> \<not> js_le b a)"

definition js_div :: "jsnum \<Rightarrow> jsnum \<Rightarrow> jsnum" where
  "js_div a b =
     (let s = (is_neg a \<noteq> is_neg b)
      in if a = NaN \<or> b = NaN then NaN
         else if is_inf a then (if is_inf b then NaN else if s then NInf else PInf)
         else if is_inf b then (if s then NegZero else Fin 0)
         else if is_zero b then (if is_zero a then NaN else if s then NInf else PInf)
         else if is_zero a then (if s then NegZero else Fin 0)
         else to_double (mag a / mag b))"

subsection \<open>\<open>Number.prototype.toFixed\<close>\<close>

function digits_of :: "int \<Rightarrow> jsstring" where
  "digits_of n =
     (if n < 10 then [48 + nat n] else digits_of (n div 10) @ [48 + nat (n mod 10)])"
  by pat_completeness auto
termination
  by (relation "measure nat") auto

declare digits_of.simps [simp del]

text \<open>
  The digits of \<open>toFixed(f)\<close> for a value \<open>0 \<le> a < 10^21\<close>: the integer \<open>n\<close> with
  \<open>n / 10^f\<close> closest to \<open>a\<close> (the larger one on a tie), written with at least \<open>f + 1\<close>
  digits and a point before the last \<open>f\<close>.
\<close>

definition fixed_digits :: "nat \<Rightarrow> rat \<Rightarrow> jsstring" where
  "fixed_digits f a =
     (let n = \<lfloor>a * 10 ^ f + 1 / 2\<rfloor>;
          m = digits_of n;
          m' = (if length m \<le> f then replicate (f + 1 - length m) 48 @ m else m);
          k = length m'
      in if f = 0 then m' else take (k - f) m' @ [46] @ drop (k - f) m')"

definition toFixed :: "nat \<Rightarrow> jsnum \<Rightarrow> piece" where
  "toFixed f x =
     (case x of
        NaN \<Rightarrow> Txt (str ''NaN'')
      | PInf \<Rightarrow> Txt (str ''Infinity'')
      | NInf \<Rightarrow> Txt (str ''-Infinity'')
      | NegZero \<Rightarrow> Txt (fixed_digits f 0)
      | Fin q \<Rightarrow>
          if 10 ^ 21 \<le> \<bar>q\<bar> then NumStr x
          else Txt ((if q < 0 then str ''-'' else []) @ fixed_digits f \<bar>q\<bar>))"

text \<open>
  What "rendered with exactly two decimal places" means for a piece of text: an optional
  minus sign, one or more digits, a point, two digits.
\<close>

definition is_digit :: "nat \<Rightarrow> bool" where
  "is_digit c = (48 \<le> c \<and> c \<le> 57)"

definition two_decimals :: "piece \<Rightarrow> bool" where
  "two_decimals p =
     (case p of
        Txt s \<Rightarrow>
          (let b = (if take 1 s = [45] then drop 1 s else s); k = length b
           in 4 \<le> k \<and> list_all is_digit (take (k - 3) b) \<and> b ! (k - 3) = 46 \<and>
              list_all is_digit (drop (k - 2) b))
      | _ \<Rightarrow> False)"

text \<open>The values for which \<open>toFixed\<close> writes fixed-point digits: finite, below \<open>10^21\<close>.\<close>

definition fixed_range :: "jsnum \<Rightarrow> bool" where
  "fixed_range x = (isFinite x \<and> \<bar>mag x\<bar> < 10 ^ 21)"

section \<open>Utilities of the script\<close>

text \<open>
  \<^verbatim>\<open>function formatNumber(num) {
    if (num >= 10000000) return `R${(num / 10000000).toFixed(2)} Cr`;
    if (num >= 100000) return `R${(num / 100000).toFixed(2)} L`;
    return `R${Number(num).toLocaleString('en-IN')}`;
  }\<close>
  (\<open>R\<close> stands for the rupee sign U+20B9.)
\<close>

definition formatNumber :: "jsnum \<Rightarrow> jstext" where
  "formatNumber num =
     (if js_ge num (Fin 10000000) then
        [Txt rupee, toFixed 2 (js_div num (Fin 10000000)), Txt (str '' Cr'')]
      else if js_ge num (Fin 100000) then
        [Txt rupee, toFixed 2 (js_div num (Fin 100000)), Txt (str '' L'')]
      else [Txt rupee, LocaleStr num])"

section \<open>Host functions on strings and values\<close>

text \<open>
  Exceptions of the host and of the script.  \<open>FetchFailed\<close> is the rejection of
  \<open>fetch\<close>; \<open>Error m\<close> is \<open>new Error(m)\<close>.
\<close>

datatype exn = SyntaxError | TypeError | URIError | FetchFailed | Error piece

subsection \<open>\<open>trim\<close>, case mapping, \<open>encodeURIComponent\<close>\<close>

text \<open>The code units that \<open>String.prototype.trim\<close> strips: WhiteSpace and LineTerminator.\<close>

definition is_ws :: "nat \<Rightarrow> bool" where
  "is_ws c = (c = 9 \<or> c = 10 \<or> c = 11 \<or> c = 12 \<or> c = 13 \<or> c = 32 \<or> c = 160 \<or>
     c = 0x1680 \<or> (0x2000 \<le> c \<and> c \<le> 0x200A) \<or> c = 0x2028 \<or> c = 0x2029 \<or>
     c = 0x202F \<or> c = 0x205F \<or> c = 0x3000 \<or> c = 0xFEFF)"

definition js_trim :: "jsstring \<Rightarrow> jsstring" where
  "js_trim s = rev (dropWhile is_ws (rev (dropWhile is_ws s)))"

text \<open>
  \<open>toUpperCase\<close> and \<open>toLowerCase\<close> on the ASCII letters; other code units are left as
  they are (the Unicode case mapping of the host is outside the model; ticker symbols
  and rating labels are ASCII).
\<close>

definition toUpperCase :: "jsstring \<Rightarrow> jsstring" where
  "toUpperCase s = map (\<lambda>c. if 97 \<le> c \<and> c \<le> 122 then c - 32 else c) s"

definition toLowerCase :: "jsstring \<Rightarrow> jsstring" where
  "toLowerCase s = map (\<lambda>c. if 65 \<le> c \<and> c \<le> 90 then c + 32 else c) s"

text \<open>
  \<open>encodeURIComponent\<close> throws \<open>URIError\<close> exactly on a string with a lone surrogate;
  \<open>uri_ok\<close> says that it does not.
\<close>

fun uri_ok :: "jsstring \<Rightarrow> bool" where
  "uri_ok [] = True"
| "uri_ok (c # cs) =
     (if 0xD800 \<le> c \<and> c \<le> 0xDBFF then
        (case cs of [] \<Rightarrow> False | d # r \<Rightarrow> 0xDC00 \<le> d \<and> d \<le> 0xDFFF \<and> uri_ok r)
      else if 0xDC00 \<le> c \<and> c \<le> 0xDFFF then False
      else uri_ok cs)"

subsection \<open>Decimal literals\<close>

definition digits_val :: "jsstring \<Rightarrow> int" where
  "digits_val ds = foldl (\<lambda>a c. 10 * a + (int c - 48)) 0 ds"

definition scale10 :: "int \<Rightarrow> int \<Rightarrow> rat" where
  "scale10 m e = (if 0 \<le> e then of_int m * 10 ^ nat e else of_int m / 10 ^ nat (- e))"

text \<open>The double of a sign and a magnitude \<open>0 \<le> a\<close>; a negative zero keeps its sign.\<close>

definition signed_double :: "bool \<Rightarrow> rat \<Rightarrow> jsnum" where
  "signed_double neg a =
     (if neg then (if a = 0 then NegZero else to_double (- a)) else to_double a)"

text \<open>
  An optional exponent part \<open>e[+-]digits\<close>: the exponent (0 when there is none) and the
  rest; \<open>None\<close> when an \<open>e\<close> is not followed by digits.
\<close>

definition scan_exp :: "jsstring \<Rightarrow> (int \<times> jsstring) option" where
  "scan_exp s =
     (case s of
        [] \<Rightarrow> Some (0, [])
      | c # r \<Rightarrow>
          if c = 101 \<or> c = 69 then
            (let (neg, r1) =
                   (case r of
                      [] \<Rightarrow> (False, [])
                    | d # r' \<Rightarrow>
                        if d = 45 then (True, r') else if d = 43 then (False, r') else (False, r));
                 ds = takeWhile is_digit r1
             in if ds = [] then None
                else Some (if neg then - digits_val ds else digits_val ds, dropWhile is_digit r1))
          else Some (0, s))"

subsection \<open>\<open>JSON.parse\<close>\<close>

text \<open>
  A recursive-descent parser of the JSON grammar (ECMA-404), as \<open>JSON.parse\<close> reads a
  text: a syntax error is the exception \<open>SyntaxError\<close>.  Numbers are rounded to binary64.
  The members of an object are kept in the order of the text; a later member of the same
  name wins (see \<open>field\<close>).  The recursion is on a fuel that every call decrements.
  A call chain spends two units where it enters an array or an object, which takes at
  least one character of the text, and one unit per element or member it passes, which
  takes at least two; \<open>JSON_parse\<close> starts with twice the length of the text and two
  more, so the fuel does not run out before the text does.
\<close>

fun skip_ws :: "jsstring \<Rightarrow> jsstring" where
  "skip_ws [] = []"
| "skip_ws (c # cs) = (if c = 32 \<or> c = 9 \<or> c = 10 \<or> c = 13 then skip_ws cs else c # cs)"

definition hex_val :: "nat \<Rightarrow> nat option" where
  "hex_val c =
     (if 48 \<le> c \<and> c \<le> 57 then Some (c - 48)
      else if 65 \<le> c \<and> c \<le> 70 then Some (c - 55)
      else if 97 \<le> c \<and> c \<le> 102 then Some (c - 87)
      else None)"

definition unescape :: "nat \<Rightarrow> nat option" where
  "unescape e =
     (if e = 34 \<or> e = 92 \<or> e = 47 then Some e
      else if e = 98 then Some 8
      else if e = 102 then Some 12
      else if e = 110 then Some 10
      else if e = 114 then Some 13
      else if e = 116 then Some 9
      else None)"

text \<open>The characters of a string after its opening quote, up to the closing one.\<close>

fun parse_string_chars :: "jsstring \<Rightarrow> jsstring \<Rightarrow> (jsstring \<times> jsstring) option" where
  "parse_string_chars acc [] = None"
| "parse_string_chars acc (c # cs) =
     (if c = 34 then Some (rev acc, cs)
      else if c = 92 then
        (case cs of
           [] \<Rightarrow> None
         | e # r \<Rightarrow>
             if e = 117 then
               (case r of
                  h1 # h2 # h3 # h4 # r' \<Rightarrow>
                    (case (hex_val h1, hex_val h2, hex_val h3, hex_val h4) of
                       (Some a, Some b, Some c', Some d) \<Rightarrow>
                         parse_string_chars ((((a * 16 + b) * 16 + c') * 16 + d) # acc) r'
                     | _ \<Rightarrow> None)
                | _ \<Rightarrow> None)
             else
               (case unescape e of
                  None \<Rightarrow> None
                | Some u \<Rightarrow> parse_string_chars (u # acc) r))
      else if c < 32 then None
      else parse_string_chars (c # acc) cs)"

definition parse_number :: "jsstring \<Rightarrow> (jsnum \<times> jsstring) option" where
  "parse_number s =
     (let (neg, s1) = (case s of [] \<Rightarrow> (False, s) | c # r \<Rightarrow> if c = 45 then (True, r) else (False, s));
          i = takeWhile is_digit s1;
          r1 = dropWhile is_digit s1
      in if i = [] \<or> (1 < length i \<and> hd i = 48) then None
         else
           (case (case r1 of
                    [] \<Rightarrow> Some ([], [])
                  | c # r \<Rightarrow>
                      if c = 46 then
                        (let f = takeWhile is_digit r
                         in if f = [] then None else Some (f, dropWhile is_digit r))
                      else Some ([], r1)) of
              None \<Rightarrow> None
            | Some (f, r2) \<Rightarrow>
                (case scan_exp r2 of
                   None \<Rightarrow> None
                 | Some (e, r3) \<Rightarrow>
                     Some (signed_double neg (scale10 (digits_val (i @ f)) (e - int (length f))),
                           r3))))"

fun parse_value :: "nat \<Rightarrow> jsstring \<Rightarrow> (json \<times> jsstring) option"
  and parse_elements :: "nat \<Rightarrow> jsstring \<Rightarrow> json list \<Rightarrow> (json \<times> jsstring) option"
  and parse_members ::
    "nat \<Rightarrow> jsstring \<Rightarrow> (jsstring \<times> json) list \<Rightarrow> (json \<times> jsstring) option"
where
  "parse_value 0 s = None"
| "parse_value (Suc n) s =
     (case skip_ws s of
        [] \<Rightarrow> None
      | c # cs \<Rightarrow>
          if c = 123 then
            (case skip_ws cs of
               [] \<Rightarrow> None
             | c' # r \<Rightarrow> if c' = 125 then Some (JObj [], r) else parse_members n cs [])
          else if c = 91 then
            (case skip_ws cs of
               [] \<Rightarrow> None
             | c' # r \<Rightarrow> if c' = 93 then Some (JArr [], r) else parse_elements n cs [])
          else if c = 34 then
            (case parse_string_chars [] cs of
               None \<Rightarrow> None
             | Some (x, r) \<Rightarrow> Some (JStr x, r))
          else if take 4 (c # cs) = str ''true'' then Some (JBool True, drop 4 (c # cs))
          else if take 5 (c # cs) = str ''false'' then Some (JBool False, drop 5 (c # cs))
          else if take 4 (c # cs) = str ''null'' then Some (JNull, drop 4 (c # cs))
          else
            (case parse_number (c # cs) of
               None \<Rightarrow> None
             | Some (x, r) \<Rightarrow> Some (JNum x, r)))"
| "parse_elements 0 s acc = None"
| "parse_elements (Suc n) s acc =
     (case parse_value n s of
        None \<Rightarrow> None
      | Some (v, r) \<Rightarrow>
          (case skip_ws r of
             [] \<Rightarrow> None
           | c # r' \<Rightarrow>
               if c = 44 then parse_elements n r' (v # acc)
               else if c = 93 then Some (JArr (rev (v # acc)), r')
               else None))"
| "parse_members 0 s acc = None"
| "parse_members (Suc n) s acc =
     (case skip_ws s of
        [] \<Rightarrow> None
      | c # cs \<Rightarrow>
          if c = 34 then
            (case parse_string_chars [] cs of
               None \<Rightarrow> None
             | Some (k, r) \<Rightarrow>
                 (case skip_ws r of
                    [] \<Rightarrow> None
                  | c2 # r2 \<Rightarrow>
                      if c2 = 58 then
                        (case parse_value n r2 of
                           None \<Rightarrow> None
                         | Some (v, r3) \<Rightarrow>
                             (case skip_ws r3 of
                                [] \<Rightarrow> None
                              | c3 # r4 \<Rightarrow>
                                  if c3 = 44 then parse_members n r4 ((k, v) # acc)
                                  else if c3 = 125 then Some (JObj (rev ((k, v) # acc)), r4)
                                  else None))
                      else None))
          else None)"

definition JSON_parse :: "jsstring \<Rightarrow> exn + json" where
  "JSON_parse s =
     (case parse_value (2 * length s + 2) s of
        None \<Rightarrow> Inl SyntaxError
      | Some (v, r) \<Rightarrow> if skip_ws r = [] then Inr v else Inl SyntaxError)"

subsection \<open>Property access, truthiness, \<open>Number(...)\<close>\<close>

text \<open>
  \<open>field v k\<close> is \<open>v.k\<close> for a value other than \<open>null\<close> (on which the access throws):
  the member of an object, \<open>undefined\<close> (\<open>None\<close>) when it has none and on every value
  that is not an object (none of the names the script reads is a property of a string,
  a number, a boolean or an array).
\<close>

definition field :: "json \<Rightarrow> string \<Rightarrow> json option" where
  "field v k = (case v of JObj kvs \<Rightarrow> map_of (rev kvs) (str k) | _ \<Rightarrow> None)"

fun truthy :: "json option \<Rightarrow> bool" where
  "truthy None = False"
| "truthy (Some JNull) = False"
| "truthy (Some (JBool b)) = b"
| "truthy (Some (JNum x)) = (x \<noteq> NaN \<and> \<not> is_zero x)"
| "truthy (Some (JStr s)) = (s \<noteq> [])"
| "truthy (Some _) = True"

text \<open>
  \<open>StringToNumber\<close>: the value of a string as \<open>Number(...)\<close> reads it (white space
  trimmed; empty is \<open>+0\<close>; a signed decimal literal, \<open>Infinity\<close>, or an unsigned binary,
  octal or hexadecimal integer; anything else is \<open>NaN\<close>).
\<close>

definition radix_val :: "nat \<Rightarrow> jsstring \<Rightarrow> int option" where
  "radix_val b ds =
     (if ds \<noteq> [] \<and> list_all (\<lambda>c. case hex_val c of None \<Rightarrow> False | Some d \<Rightarrow> d < b) ds
      then Some (foldl (\<lambda>a c. int b * a + int (the (hex_val c))) 0 ds)
      else None)"

definition unsigned_decimal :: "bool \<Rightarrow> jsstring \<Rightarrow> jsnum" where
  "unsigned_decimal neg t =
     (if t = str ''Infinity'' then (if neg then NInf else PInf)
      else
        let i = takeWhile is_digit t;
            r1 = dropWhile is_digit t;
            (f, r2) = (case r1 of
                         [] \<Rightarrow> ([], [])
                       | c # r \<Rightarrow>
                           if c = 46 then (takeWhile is_digit r, dropWhile is_digit r)
                           else ([], r1))
        in if i = [] \<and> f = [] then NaN
           else
             (case scan_exp r2 of
                None \<Rightarrow> NaN
              | Some (e, r3) \<Rightarrow>
                  if r3 = [] then
                    signed_double neg (scale10 (digits_val (i @ f)) (e - int (length f)))
                  else NaN))"

definition StringToNumber :: "jsstring \<Rightarrow> jsnum" where
  "StringToNumber s =
     (let t = js_trim s
      in case t of
           [] \<Rightarrow> Fin 0
         | c # r \<Rightarrow>
             if c = 43 then unsigned_decimal False r
             else if c = 45 then unsigned_decimal True r
             else if c = 48 \<and> r \<noteq> [] \<and> hd r \<in> {120, 88, 111, 79, 98, 66} then
               (case radix_val (if hd r \<in> {120, 88} then 16 else if hd r \<in> {111, 79} then 8 else 2)
                       (tl r) of
                  None \<Rightarrow> NaN
                | Some n \<Rightarrow> to_double (of_int n))
             else unsigned_decimal False t)"

text \<open>
  \<open>Number(v)\<close> for \<open>undefined\<close> and the JSON values.  An array is converted through its
  string: the empty array is \<open>+0\<close>, an array of one element has the value of that
  element's string (\<open>null\<close> gives the empty string), a longer one has a comma in its
  string and is \<open>NaN\<close>; a plain object is \<open>NaN\<close>.
\<close>

fun ToNumber :: "json option \<Rightarrow> jsnum" where
  "ToNumber None = NaN"
| "ToNumber (Some JNull) = Fin 0"
| "ToNumber (Some (JBool b)) = (if b then Fin 1 else Fin 0)"
| "ToNumber (Some (JNum x)) = x"
| "ToNumber (Some (JStr s)) = StringToNumber s"
| "ToNumber (Some (JObj kvs)) = NaN"
| "ToNumber (Some (JArr [])) = Fin 0"
| "ToNumber (Some (JArr [JNull])) = Fin 0"
| "ToNumber (Some (JArr [JBool b])) = NaN"
| "ToNumber (Some (JArr [JNum x])) = (if x = NegZero then Fin 0 else x)"
| "ToNumber (Some (JArr [JStr s])) = StringToNumber s"
| "ToNumber (Some (JArr [JObj kvs])) = NaN"
| "ToNumber (Some (JArr [JArr xs])) = ToNumber (Some (JArr xs))"
| "ToNumber (Some (JArr (x # y # zs))) = NaN"

text \<open>\<open>Number.isFinite(v)\<close>: a number, and a finite one (no conversion).\<close>

fun Number_isFinite :: "json option \<Rightarrow> bool" where
  "Number_isFinite (Some (JNum x)) = isFinite x"
| "Number_isFinite _ = False"

text \<open>The text of a value placed in the page: a string as it is, any other value converted by the host.\<close>

fun to_piece :: "json \<Rightarrow> piece" where
  "to_piece (JStr s) = Txt s"
| "to_piece v = ValStr (Some v)"

section \<open>The page: globals of the script, the document, the host\<close>

text \<open>
  The state that the script reads and writes: its global variables, the parts of the
  document it touches, and the host's timers, pending requests and alerts.  Every
  element the script looks up by id is taken to exist.  The suggestion box has one row
  per item (the texts of the items are taken to hold no markup).  Console output and
  scrolling are not part of the state.
\<close>

record button =
  html :: jsstring
  disabled :: bool

text \<open>
  A label of the chart: the formatted date of a data point's date field (the host
  formats it, or gives the point's number when it is no date), or the day \<open>k\<close> days
  before today.
\<close>

datatype label = DateLabel json nat | TrailingDay nat

record chart =
  labels :: "label list"
  prices :: "jsnum list"
  destroyed :: bool

record info_panel =
  stockName :: piece
  currentPrice :: jstext
  priceChange :: jstext
  priceChange_class :: jsstring
  volume :: jstext
  marketCap :: jstext
  peRatio :: jstext
  weekRange :: jstext

text \<open>
  The children of the news and recommendation containers: a message paragraph, a news
  item (its markup is a function of the item), a recommendation card (its rating class
  and the record it shows).
\<close>

datatype card = Message jsstring | NewsCard json | RecCard jsstring json

text \<open>
  Closures are defunctionalised: a timer runs the debounced input handler or the refresh
  tick of a symbol; a pending request resumes the function that awaits it.
\<close>

datatype callback = DebouncedInput | RefreshTick jsstring

datatype timer = Timer (due: nat) (period: "nat option") (action: callback)

datatype cont = KSuggest | KSearch jsstring | KNews | KRecommend

datatype request =
    GetSuggest jsstring
  | GetSearch jsstring
  | GetNews jsstring
  | PostRecommendations json

text \<open>
  What a request comes back with: \<open>fetch\<close> rejects, or it resolves with a response
  whose \<open>ok\<close> flag is given and whose body \<open>response.json()\<close> parses to a value
  (\<open>None\<close> when the body is not JSON and \<open>response.json()\<close> rejects).  The objects of
  a body are taken to have no member named \<open>toString\<close>, so that the host's conversions
  of the values of a body to strings and numbers do not throw.
\<close>

datatype fetch_result = Rejected | Resolved bool "json option"

text \<open>
  The profile section of the document, as far as the script writes it.  The text of the
  element \<open>userBudget\<close> is \<open>Budget:\<close>, the rupee sign and the locale string (en-IN)
  of a value, which the host formats; the three controls of the profile form hold the
  string conversion of what was last assigned to their \<open>value\<close> (\<open>None\<close> is
  \<open>undefined\<close>).  \<open>Unset\<close>: the script has not written it yet.
\<close>

datatype 'a written = Unset | Written 'a

record profile_display =
  userBudget :: "json written"
  budget_value :: "json option written"
  riskTolerance_value :: "json option written"
  timeline_value :: "json option written"

record page =
  userProfile :: json
  currentChart :: "chart option"
  refreshInterval :: "nat option"
  suggestTimer :: "nat option"
  activeIndex :: int
  lastSuggestions :: "json list"
  stockSearch_value :: jsstring
  searchBtn :: button
  recommendBtn :: button
  suggestion_rows :: "json list"
  suggestions_hidden :: bool
  active_row :: "nat option"
  stockInfoPanel_shown :: bool
  infoPanel :: info_panel
  newsContainer :: "card list"
  recommendationsContainer :: "card list"
  chartLoaded :: bool
  clock :: nat
  timers :: "(nat \<times> timer) list"
  nextTimerId :: nat
  pending :: "(nat \<times> cont) list"
  nextRequestId :: nat
  requests :: "request list"
  alerts :: "piece list"
  profileDisplay :: profile_display

subsection \<open>Timers and requests of the host\<close>

text \<open>
  Timer ids are positive and never reused; \<open>setTimeout\<close> and \<open>setInterval\<close> share them,
  and \<open>clearTimeout\<close> and \<open>clearInterval\<close> are the same operation.  Clearing an id
  that names no live timer (or \<open>null\<close>) does nothing.
\<close>

definition clearTimer :: "nat \<Rightarrow> page \<Rightarrow> page" where
  "clearTimer i s = s\<lparr>timers := filter (\<lambda>e. fst e \<noteq> i) (timers s)\<rparr>"

fun clearTimeout :: "nat option \<Rightarrow> page \<Rightarrow> page" where
  "clearTimeout None s = s"
| "clearTimeout (Some i) s = clearTimer i s"

text \<open>\<open>setTimeout\<close> and \<open>setInterval\<close> return the id \<open>nextTimerId s\<close> of the state they start from.\<close>

definition setTimeout :: "callback \<Rightarrow> nat \<Rightarrow> page \<Rightarrow> page" where
  "setTimeout f delay s =
     s\<lparr>timers := timers s @ [(nextTimerId s, Timer (clock s + delay) None f)],
       nextTimerId := Suc (nextTimerId s)\<rparr>"

definition setInterval :: "callback \<Rightarrow> nat \<Rightarrow> page \<Rightarrow> page" where
  "setInterval f delay s =
     s\<lparr>timers := timers s @ [(nextTimerId s, Timer (clock s + delay) (Some delay) f)],
       nextTimerId := Suc (nextTimerId s)\<rparr>"

text \<open>\<open>fetch\<close> sends the request and suspends the caller until the result arrives.\<close>

definition fetch :: "request \<Rightarrow> cont \<Rightarrow> page \<Rightarrow> page" where
  "fetch rq k s =
     s\<lparr>requests := requests s @ [rq],
       pending := pending s @ [(nextRequestId s, k)],
       nextRequestId := Suc (nextRequestId s)\<rparr>"

definition alert :: "piece \<Rightarrow> page \<Rightarrow> page" where
  "alert m s = s\<lparr>alerts := alerts s @ [m]\<rparr>"

text \<open>\<open>a || b\<close> on values.\<close>

definition or_else :: "json option \<Rightarrow> json option \<Rightarrow> json option" where
  "or_else a b = (if truthy a then a else b)"

fun value_piece :: "json option \<Rightarrow> piece" where
  "value_piece None = ValStr None"
| "value_piece (Some v) = to_piece v"

section \<open>The script\<close>

subsection \<open>Utils: \<open>debounce\<close>\<close>

text \<open>
  \<^verbatim>\<open>function debounce(fn, delay = 250) {
    return (...args) => {
      clearTimeout(suggestTimer);
      suggestTimer = setTimeout(() => fn(...args), delay);
    };
  }\<close>
  \<open>debounce f delay\<close> is the returned function.
\<close>

definition debounce :: "callback \<Rightarrow> nat \<Rightarrow> page \<Rightarrow> page" where
  "debounce f delay s =
     (let s1 = clearTimeout (suggestTimer s) s
      in (setTimeout f delay s1)\<lparr>suggestTimer := Some (nextTimerId s1)\<rparr>)"

subsection \<open>Typeahead: render, fetch, navigate\<close>

text \<open>
  \<open>renderSuggestions(items)\<close>: the list and the index are set first; the rows are then
  built from the items, which throws on an item that is \<open>null\<close> (\<open>s.symbol\<close>).
\<close>

definition renderSuggestions :: "json list \<Rightarrow> page \<Rightarrow> exn option \<times> page" where
  "renderSuggestions items s =
     (let s1 = s\<lparr>lastSuggestions := items, activeIndex := - 1\<rparr>
      in if items = [] then
           (None, s1\<lparr>suggestion_rows := [], suggestions_hidden := True, active_row := None\<rparr>)
         else if JNull \<in> set items then (Some TypeError, s1)
         else
           (None,
            s1\<lparr>suggestion_rows := items, suggestions_hidden := False, active_row := None\<rparr>))"

text \<open>
  \<^verbatim>\<open>async function fetchSuggestions(q) {
    if (!q || q.length < 2) { renderSuggestions([]); return; }
    try {
      const res = await fetch(`/api/suggest?q=${encodeURIComponent(q)}`);
      const data = await res.json();
      renderSuggestions(Array.isArray(data) ? data : []);
    } catch (e) { console.warn('suggest error', e); renderSuggestions([]); }
  }\<close>
  \<open>fetchSuggestions\<close> is the part up to the first \<open>await\<close>, \<open>fetchSuggestions_resume\<close>
  the rest, run when the result of the request arrives.  Nothing in it looks at which
  request the result belongs to.
\<close>

definition fetchSuggestions :: "jsstring \<Rightarrow> page \<Rightarrow> page" where
  "fetchSuggestions q s =
     (if length q < 2 then snd (renderSuggestions [] s)
      else if uri_ok q then fetch (GetSuggest q) KSuggest s
      else snd (renderSuggestions [] s))"

definition fetchSuggestions_resume :: "fetch_result \<Rightarrow> page \<Rightarrow> page" where
  "fetchSuggestions_resume r s =
     (case r of
        Resolved ok (Some data) \<Rightarrow>
          (case renderSuggestions (case data of JArr xs \<Rightarrow> xs | _ \<Rightarrow> []) s of
             (None, s') \<Rightarrow> s'
           | (Some e, s') \<Rightarrow> snd (renderSuggestions [] s'))
      | _ \<Rightarrow> snd (renderSuggestions [] s))"

text \<open>The remainder \<open>a % b\<close> of integers: it has the sign of \<open>a\<close>.\<close>

definition js_rem :: "int \<Rightarrow> int \<Rightarrow> int" where
  "js_rem a b = sgn a * (\<bar>a\<bar> mod \<bar>b\<bar>)"

text \<open>
  \<^verbatim>\<open>function navigateSuggestions(direction) {
    const items = Array.from(box.querySelectorAll('.suggestion-item'));
    if (items.length === 0) return;
    items.forEach(el => el.classList.remove('active'));
    if (direction === 'down') activeIndex = (activeIndex + 1) % items.length;
    else if (direction === 'up') activeIndex = (activeIndex - 1 + items.length) % items.length;
    items[activeIndex].classList.add('active');
    items[activeIndex].scrollIntoView({ block: 'nearest' });
  }\<close>
  \<open>items[activeIndex]\<close> is \<open>undefined\<close> outside the rows, and the call on it throws.
\<close>

definition navigateSuggestions :: "jsstring \<Rightarrow> page \<Rightarrow> exn option \<times> page" where
  "navigateSuggestions direction s =
     (let n = int (length (suggestion_rows s))
      in if n = 0 then (None, s)
         else
           let i = (if direction = str ''down'' then js_rem (activeIndex s + 1) n
                    else if direction = str ''up'' then js_rem (activeIndex s - 1 + n) n
                    else activeIndex s);
               s1 = s\<lparr>active_row := None, activeIndex := i\<rparr>
           in if 0 \<le> i \<and> i < n then (None, s1\<lparr>active_row := Some (nat i)\<rparr>)
              else (Some TypeError, s1))"

subsection \<open>Profile\<close>

text \<open>
  The newest revision of the script (the one in \<^verbatim>\<open>README.md\<close>):
  \<^verbatim>\<open>function loadUserProfile() {
    const saved = localStorage.getItem('userProfile');
    if (saved) { userProfile = JSON.parse(saved); }
  }\<close>
  \<open>saved\<close> is \<open>null\<close> (\<open>None\<close>) when the key is absent.
\<close>

definition loadUserProfile :: "jsstring option \<Rightarrow> page \<Rightarrow> exn option \<times> page" where
  "loadUserProfile saved s =
     (case saved of
        None \<Rightarrow> (None, s)
      | Some t \<Rightarrow>
          if t = [] then (None, s)
          else
            (case JSON_parse t of
               Inl e \<Rightarrow> (Some e, s)
             | Inr v \<Rightarrow> (None, s\<lparr>userProfile := v\<rparr>)))"

text \<open>
  A value that \<open>JSON.parse\<close> has built has only data properties of its own: an object
  the members of the text, an array its elements.  A member of an object that is named
  like a method of the prototype hides the method and cannot be called.  So the string
  conversion of a value throws a \<open>TypeError\<close> exactly when it comes to an object with a
  member \<open>toString\<close> (\<open>valueOf\<close> of the prototype returns the object); an array converts
  its elements, \<open>null\<close> to the empty string.  The method call \<open>v.toLocaleString(...)\<close>,
  on a value other than \<open>undefined\<close> and \<open>null\<close>, throws exactly when it comes to an
  object with a member \<open>toLocaleString\<close> or \<open>toString\<close> (the method of the prototype
  calls \<open>toString\<close>); an array calls the method of its elements other than \<open>null\<close>.
\<close>

fun ToString_throws :: "json \<Rightarrow> bool" where
  "ToString_throws (JObj kvs) = (map_of kvs (str ''toString'') \<noteq> None)"
| "ToString_throws (JArr xs) = (\<exists>x\<in>set xs. ToString_throws x)"
| "ToString_throws v = False"

fun toLocaleString_throws :: "json \<Rightarrow> bool" where
  "toLocaleString_throws (JObj kvs) =
     (map_of kvs (str ''toLocaleString'') \<noteq> None \<or> map_of kvs (str ''toString'') \<noteq> None)"
| "toLocaleString_throws (JArr xs) = (\<exists>x\<in>set xs. x \<noteq> JNull \<and> toLocaleString_throws x)"
| "toLocaleString_throws v = False"

text \<open>Assigning \<open>v\<close> to the \<open>value\<close> of a control converts it to a string.\<close>

fun assign_throws :: "json option \<Rightarrow> bool" where
  "assign_throws None = False"
| "assign_throws (Some v) = ToString_throws v"

text \<open>
  \<^verbatim>\<open>function updateProfileDisplay() {
    document.getElementById('userBudget').textContent =
      `Budget: ...${userProfile.budget.toLocaleString('en-IN')}`;
    document.getElementById('budget').value = userProfile.budget;
    document.getElementById('riskTolerance').value = userProfile.risk_tolerance;
    document.getElementById('timeline').value = userProfile.timeline;
  }\<close>
  (the newest revision assigns to each control under a test that the control exists).
  \<open>userProfile.budget\<close> throws when the profile is \<open>null\<close>, and the method call on it
  throws when the budget is \<open>undefined\<close> or \<open>null\<close>.
\<close>

definition updateProfileDisplay :: "page \<Rightarrow> exn option \<times> page" where
  "updateProfileDisplay s =
     (let p = userProfile s
      in if p = JNull then (Some TypeError, s)
         else
           (case field p ''budget'' of
              None \<Rightarrow> (Some TypeError, s)
            | Some b \<Rightarrow>
                if b = JNull \<or> toLocaleString_throws b then (Some TypeError, s)
                else
                  let s1 = s\<lparr>profileDisplay := (profileDisplay s)\<lparr>userBudget := Written b\<rparr>\<rparr>
                  in if assign_throws (Some b) then (Some TypeError, s1)
                     else
                       let s2 = s1\<lparr>profileDisplay :=
                                     (profileDisplay s1)\<lparr>budget_value := Written (Some b)\<rparr>\<rparr>
                       in if assign_throws (field p ''risk_tolerance'') then (Some TypeError, s2)
                          else
                            let s3 = s2\<lparr>profileDisplay :=
                                          (profileDisplay s2)
                                            \<lparr>riskTolerance_value :=
                                               Written (field p ''risk_tolerance'')\<rparr>\<rparr>
                            in if assign_throws (field p ''timeline'') then (Some TypeError, s3)
                               else
                                 (None,
                                  s3\<lparr>profileDisplay :=
                                       (profileDisplay s3)
                                         \<lparr>timeline_value := Written (field p ''timeline'')\<rparr>\<rparr>)))"

text \<open>
  The older revisions of the script (\<^verbatim>\<open>js/script.js\<close> and \<^verbatim>\<open>unnamed/part_001\<close>) have the
  same test and the same unguarded \<open>JSON.parse\<close>, and update the display inside the
  function:
  \<^verbatim>\<open>function loadUserProfile() {
    const saved = localStorage.getItem('userProfile');
    if (saved) {
      userProfile = JSON.parse(saved);
      updateProfileDisplay();
    }
  }\<close>
\<close>

definition loadUserProfile_script :: "jsstring option \<Rightarrow> page \<Rightarrow> exn option \<times> page" where
  "loadUserProfile_script saved s =
     (case saved of
        None \<Rightarrow> (None, s)
      | Some t \<Rightarrow>
          if t = [] then (None, s)
          else
            (case JSON_parse t of
               Inl e \<Rightarrow> (Some e, s)
             | Inr v \<Rightarrow> updateProfileDisplay (s\<lparr>userProfile := v\<rparr>)))"

text \<open>
  The listener of \<open>DOMContentLoaded\<close> in the newest revision:
  \<^verbatim>\<open>loadUserProfile(); updateProfileDisplay(); setupEventListeners();\<close>
  (\<open>setupEventListeners\<close> registers the listeners of the event loop below and writes
  nothing).
\<close>

definition DOMContentLoaded :: "jsstring option \<Rightarrow> page \<Rightarrow> exn option \<times> page" where
  "DOMContentLoaded saved s =
     (case loadUserProfile saved s of
        (Some e, s') \<Rightarrow> (Some e, s')
      | (None, s') \<Rightarrow> updateProfileDisplay s')"

subsection \<open>Auto refresh\<close>

text \<open>
  \<^verbatim>\<open>function startAutoRefresh(symbol) {
    if (refreshInterval) clearInterval(refreshInterval);
    refreshInterval = setInterval(() => { ... searchStock(); }, 30000);
  }
  function stopAutoRefresh() {
    if (refreshInterval) clearInterval(refreshInterval);
  }\<close>
\<close>

definition stopAutoRefresh :: "page \<Rightarrow> page" where
  "stopAutoRefresh s =
     (case refreshInterval s of
        None \<Rightarrow> s
      | Some i \<Rightarrow> if i \<noteq> 0 then clearTimer i s else s)"

definition startAutoRefresh :: "jsstring \<Rightarrow> page \<Rightarrow> page" where
  "startAutoRefresh symbol s =
     (let s1 = (case refreshInterval s of
                  None \<Rightarrow> s
                | Some i \<Rightarrow> if i \<noteq> 0 then clearTimer i s else s)
      in (setInterval (RefreshTick symbol) 30000 s1)\<lparr>refreshInterval := Some (nextTimerId s1)\<rparr>)"

subsection \<open>Chart\<close>

text \<open>
  \<open>drawPriceChart(historicalData)\<close>: the previous chart is destroyed first; without the
  charting library nothing is drawn.  \<open>historicalData.map\<close> throws when the value is
  not an array, and the callbacks throw on a data point that is \<open>null\<close>.
\<close>

definition point_label :: "nat \<Rightarrow> nat \<Rightarrow> json \<Rightarrow> label" where
  "point_label n idx d =
     (let ds = or_else (field d ''Date'')
                 (or_else (field d ''date'') (or_else (field d ''datetime'') (field d ''Datetime'')))
      in case ds of
           Some v \<Rightarrow> if truthy ds then DateLabel v idx else TrailingDay (n - 1 - idx)
         | None \<Rightarrow> TrailingDay (n - 1 - idx))"

definition drawPriceChart :: "json \<Rightarrow> page \<Rightarrow> exn option \<times> page" where
  "drawPriceChart historicalData s =
     (let s1 = s\<lparr>currentChart := map_option (\<lambda>c. c\<lparr>destroyed := True\<rparr>) (currentChart s)\<rparr>
      in if \<not> chartLoaded s then (None, s1)
         else
           (case historicalData of
              JArr xs \<Rightarrow>
                if JNull \<in> set xs then (Some TypeError, s1)
                else
                  (None,
                   s1\<lparr>currentChart :=
                        Some \<lparr>labels = map (\<lambda>(idx, d). point_label (length xs) idx d)
                                         (zip [0..<length xs] xs),
                              prices = map (\<lambda>d. ToNumber (field d ''Close'')) xs,
                              destroyed = False\<rparr>\<rparr>)
            | _ \<Rightarrow> (Some TypeError, s1)))"

subsection \<open>Search flow\<close>

text \<open>
  \<open>displayStockInfo(data)\<close>.  The first property access throws when \<open>data\<close> is \<open>null\<close>.
  \<^verbatim>\<open>const changeVal = Number(data.change);
  const changePct = Number(data.change_percent);
  const changeText =
    `${Number.isFinite(changeVal) && changeVal >= 0 ? '+' : ''}${Number.isFinite(changeVal) ? changeVal.toFixed(2) : '-'}` +
    ` (${Number.isFinite(changePct) && changePct >= 0 ? '+' : ''}${Number.isFinite(changePct) ? changePct.toFixed(2) : '-'}%)`;
  changeElement.textContent = changeText;
  changeElement.className = Number.isFinite(changeVal) && changeVal >= 0
    ? 'price-change positive' : 'price-change negative';\<close>
  Each \<open>${...}\<close> of a template is one piece of the text.  \<open>stock_panel\<close> is what the
  function writes into the elements of the panel, which it does before it draws the
  chart.
\<close>

definition signed_fixed :: "jsnum \<Rightarrow> jstext" where
  "signed_fixed x =
     [Txt (if isFinite x \<and> js_ge x (Fin 0) then str ''+'' else []),
      if isFinite x then toFixed 2 x else Txt (str ''-'')]"

definition stock_panel :: "json \<Rightarrow> info_panel" where
  "stock_panel data =
     (let changeVal = ToNumber (field data ''change'');
          changePct = ToNumber (field data ''change_percent'');
          mcap = ToNumber (field data ''market_cap'');
          pe = ToNumber (field data ''pe_ratio'');
          low52 = ToNumber (field data ''week_52_low'');
          high52 = ToNumber (field data ''week_52_high'')
      in \<lparr>stockName =
            value_piece (or_else (field data ''name'')
              (or_else (field data ''symbol'') (Some (JStr (str ''-''))))),
          currentPrice =
            (if Number_isFinite (field data ''current_price'')
             then [Txt rupee, toFixed 2 (ToNumber (field data ''current_price''))]
             else [Txt (str ''-'')]),
          priceChange =
            signed_fixed changeVal @ [Txt (str '' ('')] @ signed_fixed changePct @
            [Txt (str ''%)'')],
          priceChange_class =
            (if isFinite changeVal \<and> js_ge changeVal (Fin 0)
             then str ''price-change positive'' else str ''price-change negative''),
          volume =
            (if Number_isFinite (field data ''volume'')
             then [LocaleStr (ToNumber (field data ''volume''))] else [Txt (str ''-'')]),
          marketCap =
            (if mcap \<noteq> NaN \<and> \<not> is_zero mcap then formatNumber mcap else [Txt (str ''-'')]),
          peRatio =
            (if isFinite pe \<and> js_lt (Fin 0) pe then [toFixed 2 pe] else [Txt (str ''-'')]),
          weekRange =
            (if isFinite low52 \<and> isFinite high52
             then [Txt rupee, toFixed 2 low52, Txt (str '' - '' @ rupee), toFixed 2 high52]
             else [Txt (str ''-'')])\<rparr>)"

definition displayStockInfo :: "json \<Rightarrow> page \<Rightarrow> exn option \<times> page" where
  "displayStockInfo data s =
     (if data = JNull then (Some TypeError, s)
      else
        (case or_else (field data ''historical_data'') (Some (JArr [])) of
           Some h \<Rightarrow> drawPriceChart h (s\<lparr>infoPanel := stock_panel data\<rparr>)
         | None \<Rightarrow> drawPriceChart (JArr []) (s\<lparr>infoPanel := stock_panel data\<rparr>)))"

text \<open>
  \<open>loadNews(symbol)\<close> catches everything it throws.  The items are appended one by one;
  an item that is \<open>null\<close> throws and ends the loop.
\<close>

definition loadNews :: "jsstring \<Rightarrow> page \<Rightarrow> page" where
  "loadNews symbol s = (if uri_ok symbol then fetch (GetNews symbol) KNews s else s)"

definition loadNews_resume :: "fetch_result \<Rightarrow> page \<Rightarrow> page" where
  "loadNews_resume r s =
     (case r of
        Resolved ok (Some news) \<Rightarrow>
          (case news of
             JArr (x # xs) \<Rightarrow>
               s\<lparr>newsContainer := map NewsCard (takeWhile (\<lambda>i. i \<noteq> JNull) (x # xs))\<rparr>
           | _ \<Rightarrow> s\<lparr>newsContainer := [Message (str ''<p>No recent news found.</p>'')]\<rparr>)
      | _ \<Rightarrow> s)"

definition busy_search :: button where
  "busy_search = \<lparr>html = str ''<span class=\"loading\"></span>'', disabled = True\<rparr>"

definition idle_search :: button where
  "idle_search = \<lparr>html = str ''Search'', disabled = False\<rparr>"

text \<open>
  \<^verbatim>\<open>async function searchStock() {
    const input = document.getElementById('stockSearch');
    const symbol = input.value.trim().toUpperCase();
    if (!symbol) return;
    const searchBtn = document.getElementById('searchBtn');
    searchBtn.innerHTML = '<span class="loading"></span>';
    searchBtn.disabled = true;
    try {
      const response = await fetch(`${API_BASE_URL}/search/${encodeURIComponent(symbol)}`);
      const data = await response.json();
      if (response.ok) {
        displayStockInfo(data);
        loadNews(symbol);
        document.getElementById('stockInfoPanel').style.display = 'block';
        startAutoRefresh(symbol);
      } else {
        alert(data?.error || 'Stock not found. Please check the symbol.');
      }
    } catch (error) {
      console.error('Error:', error);
      alert('Error fetching stock data. Please try again.');
    } finally {
      searchBtn.innerHTML = 'Search';
      searchBtn.disabled = false;
    }
  }\<close>
  \<open>searchStock\<close> is the part up to the first \<open>await\<close> (with the \<open>catch\<close> and \<open>finally\<close>
  of an \<open>encodeURIComponent\<close> that throws), \<open>searchStock_resume\<close> the rest, run when the
  result of the request arrives; \<open>search_try\<close> is the body of the \<open>try\<close> after the
  \<open>await\<close>s, with the exception it ends in, if any.
\<close>

definition searchStock :: "page \<Rightarrow> page" where
  "searchStock s =
     (let symbol = toUpperCase (js_trim (stockSearch_value s))
      in if symbol = [] then s
         else
           let s1 = s\<lparr>searchBtn := busy_search\<rparr>
           in if uri_ok symbol then fetch (GetSearch symbol) (KSearch symbol) s1
              else (alert (Txt (str ''Error fetching stock data. Please try again.'')) s1)
                     \<lparr>searchBtn := idle_search\<rparr>)"

definition search_try :: "jsstring \<Rightarrow> fetch_result \<Rightarrow> page \<Rightarrow> exn option \<times> page" where
  "search_try symbol r s =
     (case r of
        Rejected \<Rightarrow> (Some FetchFailed, s)
      | Resolved ok None \<Rightarrow> (Some SyntaxError, s)
      | Resolved ok (Some data) \<Rightarrow>
          if ok then
            (case displayStockInfo data s of
               (Some e, s1) \<Rightarrow> (Some e, s1)
             | (None, s1) \<Rightarrow>
                 (None, startAutoRefresh symbol ((loadNews symbol s1)\<lparr>stockInfoPanel_shown := True\<rparr>)))
          else
            (None,
             alert (value_piece
                      (or_else (if data = JNull then None else field data ''error'')
                         (Some (JStr (str ''Stock not found. Please check the symbol.''))))) s))"

definition searchStock_resume :: "jsstring \<Rightarrow> fetch_result \<Rightarrow> page \<Rightarrow> page" where
  "searchStock_resume symbol r s =
     (let s1 = (case search_try symbol r s of
                  (None, s') \<Rightarrow> s'
                | (Some e, s') \<Rightarrow>
                    alert (Txt (str ''Error fetching stock data. Please try again.'')) s')
      in s1\<lparr>searchBtn := idle_search\<rparr>)"

subsection \<open>Typeahead: pick\<close>

text \<open>
  \<^verbatim>\<open>function pickSuggestion(idx) {
    if (idx < 0 || idx >= lastSuggestions.length) return;
    const s = lastSuggestions[idx];
    const input = document.getElementById('stockSearch');
    input.value = s.symbol;
    renderSuggestions([]);
    searchStock();
  }\<close>
  \<open>s.symbol\<close> throws on an item that is \<open>null\<close>.  A symbol that is a string is stored
  in the input as it is; for any other value the input holds the host's string
  conversion of it, which is the text \<open>w\<close>.
\<close>

definition pickSuggestion :: "int \<Rightarrow> jsstring \<Rightarrow> page \<Rightarrow> exn option \<times> page" where
  "pickSuggestion idx w s =
     (if idx < 0 \<or> int (length (lastSuggestions s)) \<le> idx then (None, s)
      else
        let item = lastSuggestions s ! nat idx
        in if item = JNull then (Some TypeError, s)
           else
             let s1 = s\<lparr>stockSearch_value :=
                          (case field item ''symbol'' of Some (JStr v) \<Rightarrow> v | _ \<Rightarrow> w)\<rparr>
             in (None, searchStock (snd (renderSuggestions [] s1))))"

subsection \<open>Recommendations\<close>

text \<open>The first occurrence of a space replaced by a hyphen: \<open>.replace(' ', '-')\<close>.\<close>

fun replace_space :: "jsstring \<Rightarrow> jsstring" where
  "replace_space [] = []"
| "replace_space (c # cs) = (if c = 32 then 45 # cs else c # replace_space cs)"

text \<open>\<open>v?.k\<close>: \<open>undefined\<close> when \<open>v\<close> is \<open>undefined\<close> or \<open>null\<close>.\<close>

definition opt_field :: "json option \<Rightarrow> string \<Rightarrow> json option" where
  "opt_field v k = (case v of None \<Rightarrow> None | Some JNull \<Rightarrow> None | Some w \<Rightarrow> field w k)"

text \<open>
  One card of \<open>displayRecommendations\<close>.  It throws before the card is appended:
  \<open>rec.recommendation\<close> on a record that is \<open>null\<close>, \<open>.toLowerCase()\<close> on a rating that is
  not a string, \<open>.map\<close> on reasons that are not an array.
\<close>

definition recommendation_card :: "json \<Rightarrow> exn + card" where
  "recommendation_card rc =
     (if rc = JNull then Inl TypeError
      else
        let r = field rc ''recommendation''
        in case or_else (opt_field r ''rating'') (Some (JStr (str ''Hold''))) of
             Some (JStr t) \<Rightarrow>
               (case or_else (opt_field r ''reasons'') (Some (JArr [])) of
                  Some (JArr rs) \<Rightarrow> Inr (RecCard (replace_space (toLowerCase t)) rc)
                | _ \<Rightarrow> Inl TypeError)
           | _ \<Rightarrow> Inl TypeError)"

fun render_cards :: "json list \<Rightarrow> page \<Rightarrow> exn option \<times> page" where
  "render_cards [] s = (None, s)"
| "render_cards (rc # rest) s =
     (case recommendation_card rc of
        Inl e \<Rightarrow> (Some e, s)
      | Inr c \<Rightarrow>
          render_cards rest (s\<lparr>recommendationsContainer := recommendationsContainer s @ [c]\<rparr>))"

definition displayRecommendations :: "json \<Rightarrow> page \<Rightarrow> exn option \<times> page" where
  "displayRecommendations recommendations s =
     (let s1 = s\<lparr>recommendationsContainer := []\<rparr>
      in case recommendations of
           JArr (x # xs) \<Rightarrow> render_cards (x # xs) s1
         | _ \<Rightarrow>
             (None,
              s1\<lparr>recommendationsContainer :=
                   [Message (str ''<p>No recommendations found based on your profile.</p>'')]\<rparr>))"

definition busy_recommend :: button where
  "busy_recommend = \<lparr>html = str ''<span class=\"loading\"></span> Loading...'', disabled = True\<rparr>"

definition idle_recommend :: button where
  "idle_recommend = \<lparr>html = str ''Get Recommendations'', disabled = False\<rparr>"

text \<open>
  \<^verbatim>\<open>async function getRecommendations() {
    const btn = document.getElementById('getRecommendations');
    btn.innerHTML = '<span class="loading"></span> Loading...';
    btn.disabled = true;
    try {
      const response = await fetch(`${API_BASE_URL}/recommendations`, { method: 'POST', ...,
        body: JSON.stringify(userProfile) });
      const recommendations = await response.json();
      if (!response.ok) {
        throw new Error(recommendations?.error || 'Failed to load recommendations');
      }
      displayRecommendations(recommendations);
    } catch (error) {
      console.error('Error:', error);
      alert('Error getting recommendations. Please try again.');
    } finally {
      btn.innerHTML = 'Get Recommendations';
      btn.disabled = false;
    }
  }\<close>
\<close>

definition getRecommendations :: "page \<Rightarrow> page" where
  "getRecommendations s =
     fetch (PostRecommendations (userProfile s)) KRecommend (s\<lparr>recommendBtn := busy_recommend\<rparr>)"

definition recommend_try :: "fetch_result \<Rightarrow> page \<Rightarrow> exn option \<times> page" where
  "recommend_try r s =
     (case r of
        Rejected \<Rightarrow> (Some FetchFailed, s)
      | Resolved ok None \<Rightarrow> (Some SyntaxError, s)
      | Resolved ok (Some recommendations) \<Rightarrow>
          if \<not> ok then
            (Some (Error (value_piece
                     (or_else (if recommendations = JNull then None
                               else field recommendations ''error'')
                        (Some (JStr (str ''Failed to load recommendations'')))))), s)
          else displayRecommendations recommendations s)"

definition getRecommendations_resume :: "fetch_result \<Rightarrow> page \<Rightarrow> page" where
  "getRecommendations_resume r s =
     (let s1 = (case recommend_try r s of
                  (None, s') \<Rightarrow> s'
                | (Some e, s') \<Rightarrow>
                    alert (Txt (str ''Error getting recommendations. Please try again.'')) s')
      in s1\<lparr>recommendBtn := idle_recommend\<rparr>)"

section \<open>The event loop\<close>

text \<open>
  The listeners of \<open>setupEventListeners\<close> and of the rows of the suggestion box, the
  timers and the arrival of results, as events with the time (in milliseconds) at which
  the host runs them.  An exception that a listener does not catch ends the listener
  and leaves the state as it is then.  \<open>Fire i\<close> runs the callback of the live timer
  \<open>i\<close>, which the host does no sooner than the timer is due; \<open>Arrive i r\<close> resumes the
  function awaiting the pending request \<open>i\<close> with the result \<open>r\<close>.  A click on a disabled
  button dispatches nothing; any other click also reaches the listener of the document,
  which closes the suggestions unless the click is inside the suggestion box.
  \<open>ClickSuggestion idx w\<close> is a click on the row \<open>idx\<close> of the box, \<open>KeyEnter w\<close> the
  \<open>Enter\<close> key in the input; \<open>w\<close> is the host's string conversion of the symbol they pick,
  should it not be a string.  \<open>handle\<close> is \<open>None\<close> for an event that cannot happen in the
  state.  The listeners of the profile form are not among the events; they touch
  neither the input nor a timer and send no request.
\<close>

datatype event =
    Input jsstring
  | KeyArrowDown
  | KeyArrowUp
  | KeyEscape
  | KeyEnter jsstring
  | ClickSearch
  | ClickSuggestion nat jsstring
  | ClickOutside
  | ClickRecommend
  | StopRefresh
  | Fire nat
  | Arrive nat fetch_result

text \<open>
  The input listener is \<open>debounce((e) => { const q = e.target.value.trim();
  fetchSuggestions(q); }, 250)\<close>: the value is read when the timer fires.  The refresh
  tick is \<open>() => { if (symbol) input.value = symbol; searchStock(); }\<close>.

  The \<open>Enter\<close> key: \<^verbatim>\<open>if (activeIndex >= 0) { pickSuggestion(activeIndex); }
  else { renderSuggestions([]); searchStock(); }\<close>.  The listener of a row:
  \<^verbatim>\<open>pickSuggestion(Number(el.getAttribute('data-idx')))\<close>; when the pick has emptied the
  box, the row that was clicked is no longer inside it, and the listener of the document
  closes the suggestions once more.
\<close>

fun run_callback :: "callback \<Rightarrow> page \<Rightarrow> page" where
  "run_callback DebouncedInput s = fetchSuggestions (js_trim (stockSearch_value s)) s"
| "run_callback (RefreshTick symbol) s =
     searchStock (if symbol \<noteq> [] then s\<lparr>stockSearch_value := symbol\<rparr> else s)"

fun resume :: "cont \<Rightarrow> fetch_result \<Rightarrow> page \<Rightarrow> page" where
  "resume KSuggest r s = fetchSuggestions_resume r s"
| "resume (KSearch symbol) r s = searchStock_resume symbol r s"
| "resume KNews r s = loadNews_resume r s"
| "resume KRecommend r s = getRecommendations_resume r s"

definition fire :: "nat \<Rightarrow> page \<Rightarrow> page option" where
  "fire i s =
     (case map_of (timers s) i of
        None \<Rightarrow> None
      | Some (Timer d p f) \<Rightarrow>
          if clock s < d then None
          else
            Some (run_callback f
              (case p of
                 None \<Rightarrow> clearTimer i s
               | Some q \<Rightarrow>
                   s\<lparr>timers := map (\<lambda>e. if fst e = i then (i, Timer (clock s + q) p f) else e)
                                  (timers s)\<rparr>)))"

definition arrive :: "nat \<Rightarrow> fetch_result \<Rightarrow> page \<Rightarrow> page option" where
  "arrive i r s =
     (case map_of (pending s) i of
        None \<Rightarrow> None
      | Some k \<Rightarrow> Some (resume k r (s\<lparr>pending := filter (\<lambda>e. fst e \<noteq> i) (pending s)\<rparr>)))"

definition handle :: "nat \<Rightarrow> event \<Rightarrow> page \<Rightarrow> page option" where
  "handle t ev s =
     (if t < clock s then None
      else
        let s0 = s\<lparr>clock := t\<rparr>
        in case ev of
             Input v \<Rightarrow> Some (debounce DebouncedInput 250 (s0\<lparr>stockSearch_value := v\<rparr>))
           | KeyArrowDown \<Rightarrow> Some (snd (navigateSuggestions (str ''down'') s0))
           | KeyArrowUp \<Rightarrow> Some (snd (navigateSuggestions (str ''up'') s0))
           | KeyEscape \<Rightarrow> Some (snd (renderSuggestions [] s0))
           | KeyEnter w \<Rightarrow>
               if 0 \<le> activeIndex s0 then Some (snd (pickSuggestion (activeIndex s0) w s0))
               else Some (searchStock (snd (renderSuggestions [] s0)))
           | ClickSuggestion idx w \<Rightarrow>
               if length (suggestion_rows s0) \<le> idx then None
               else
                 let s1 = snd (pickSuggestion (int idx) w s0)
                 in if suggestion_rows s1 = [] then Some (snd (renderSuggestions [] s1))
                    else Some s1
           | ClickSearch \<Rightarrow>
               if disabled (searchBtn s0) then Some s0
               else Some (snd (renderSuggestions [] (searchStock (snd (renderSuggestions [] s0)))))
           | ClickOutside \<Rightarrow> Some (snd (renderSuggestions [] s0))
           | ClickRecommend \<Rightarrow>
               if disabled (recommendBtn s0) then Some s0
               else Some (snd (renderSuggestions [] (getRecommendations s0)))
           | StopRefresh \<Rightarrow> Some (stopAutoRefresh s0)
           | Fire i \<Rightarrow> fire i s0
           | Arrive i r \<Rightarrow> arrive i r s0)"

fun run :: "(nat \<times> event) list \<Rightarrow> page \<Rightarrow> page option" where
  "run [] s = Some s"
| "run ((t, ev) # es) s = (case handle t ev s of None \<Rightarrow> None | Some s' \<Rightarrow> run es s')"

text \<open>
  The page when the listener of \<open>DOMContentLoaded\<close> has run with nothing stored: the
  globals as the script initialises them, the display of the default profile, no timer,
  no request.  \<open>loaded_page\<close> is the page before that listener runs.
\<close>

definition default_profile :: json where
  "default_profile =
     JObj [(str ''budget'', JNum (Fin 100000)),
           (str ''risk_tolerance'', JStr (str ''medium'')),
           (str ''timeline'', JStr (str ''medium''))]"

definition initial_page :: page where
  "initial_page =
     \<lparr>userProfile = default_profile,
      currentChart = None,
      refreshInterval = None,
      suggestTimer = None,
      activeIndex = - 1,
      lastSuggestions = [],
      stockSearch_value = [],
      searchBtn = idle_search,
      recommendBtn = idle_recommend,
      suggestion_rows = [],
      suggestions_hidden = True,
      active_row = None,
      stockInfoPanel_shown = False,
      infoPanel =
        \<lparr>stockName = Txt [], currentPrice = [], priceChange = [], priceChange_class = [],
         volume = [], marketCap = [], peRatio = [], weekRange = []\<rparr>,
      newsContainer = [],
      recommendationsContainer = [],
      chartLoaded = True,
      clock = 0,
      timers = [],
      nextTimerId = 1,
      pending = [],
      nextRequestId = 1,
      requests = [],
      alerts = [],
      profileDisplay =
        \<lparr>userBudget = Written (JNum (Fin 100000)),
         budget_value = Written (Some (JNum (Fin 100000))),
         riskTolerance_value = Written (Some (JStr (str ''medium''))),
         timeline_value = Written (Some (JStr (str ''medium'')))\<rparr>\<rparr>"

definition loaded_page :: page where
  "loaded_page =
     initial_page
       \<lparr>profileDisplay :=
          \<lparr>userBudget = Unset, budget_value = Unset, riskTolerance_value = Unset,
           timeline_value = Unset\<rparr>\<rparr>"

section \<open>Notions of the specification\<close>

text \<open>
  The number of hundredths that a fixed-point text denotes, its sign left aside: the
  value of its digits.
\<close>

definition hundredths :: "piece \<Rightarrow> int option" where
  "hundredths p = (case p of Txt s \<Rightarrow> Some (digits_val (filter is_digit s)) | _ \<Rightarrow> None)"

text \<open>
  A valid user profile, as the data model of the specification has it: a positive
  integer budget, a risk tolerance among low, medium, high, a timeline among short,
  medium, long.
\<close>

definition valid_profile :: "json \<Rightarrow> bool" where
  "valid_profile v =
     ((case field v ''budget'' of
         Some (JNum (Fin q)) \<Rightarrow> 0 < q \<and> of_int \<lfloor>q\<rfloor> = q
       | _ \<Rightarrow> False) \<and>
      field v ''risk_tolerance'' \<in>
        {Some (JStr (str ''low'')), Some (JStr (str ''medium'')), Some (JStr (str ''high''))} \<and>
      field v ''timeline'' \<in>
        {Some (JStr (str ''short'')), Some (JStr (str ''medium'')), Some (JStr (str ''long''))})"

text \<open>\<open>k\<close> consecutive calls of \<open>navigateSuggestions\<close>, stopping at an exception.\<close>

fun navigate_times :: "nat \<Rightarrow> jsstring \<Rightarrow> page \<Rightarrow> exn option \<times> page" where
  "navigate_times 0 direction s = (None, s)"
| "navigate_times (Suc k) direction s =
     (case navigateSuggestions direction s of
        (None, s') \<Rightarrow> navigate_times k direction s'
      | (Some e, s') \<Rightarrow> (Some e, s'))"

text \<open>The live timers of the refresh poll, and the live timers of the debounce.\<close>

fun is_refresh :: "nat \<times> timer \<Rightarrow> bool" where
  "is_refresh (i, Timer d p (RefreshTick symbol)) = True"
| "is_refresh (i, Timer d p DebouncedInput) = False"

definition live_polls :: "page \<Rightarrow> (nat \<times> timer) list" where
  "live_polls s = filter is_refresh (timers s)"


text \<open>A page that shows three suggestions, with the given active index.\<close>

definition three_rows :: "int \<Rightarrow> page" where
  "three_rows i =
     initial_page
       \<lparr>activeIndex := i,
        lastSuggestions := [JObj [(str ''symbol'', JStr (str ''TCS''))],
                            JObj [(str ''symbol'', JStr (str ''TCP''))],
                            JObj [(str ''symbol'', JStr (str ''TCI''))]],
        suggestion_rows := [JObj [(str ''symbol'', JStr (str ''TCS''))],
                            JObj [(str ''symbol'', JStr (str ''TCP''))],
                            JObj [(str ''symbol'', JStr (str ''TCI''))]],
        suggestions_hidden := False\<rparr>"

text \<open>A quote whose price did not move.\<close>

definition flat_quote :: json where
  "flat_quote =
     JObj [(str ''symbol'', JStr (str ''TCS'')),
           (str ''current_price'', JNum (Fin 3500)),
           (str ''change'', JNum (Fin 0)),
           (str ''change_percent'', JNum (Fin 0))]"

text \<open>
  The part of the page that the timers are about, and the invariant that ties the live
  timers to the two variables that hold their ids: ids are positive, distinct and below
  the next id; a live timer is a refresh tick exactly when \<open>refreshInterval\<close> holds its
  id; a live debounce timer is the one \<open>suggestTimer\<close> holds.
\<close>

definition timer_view ::
  "page \<Rightarrow> (nat \<times> timer) list \<times> nat \<times> nat option \<times> nat option \<times> nat" where
  "timer_view s = (timers s, nextTimerId s, refreshInterval s, suggestTimer s, clock s)"

definition timers_inv :: "page \<Rightarrow> bool" where
  "timers_inv s =
     (distinct (map fst (timers s)) \<and> 0 < nextTimerId s \<and>
      (\<forall>e\<in>set (timers s).
         0 < fst e \<and> fst e < nextTimerId s \<and>
         (is_refresh e \<longleftrightarrow> refreshInterval s = Some (fst e)) \<and>
         (\<not> is_refresh e \<longrightarrow> suggestTimer s = Some (fst e))) \<and>
      (case refreshInterval s of None \<Rightarrow> True | Some j \<Rightarrow> 0 < j \<and> j < nextTimerId s) \<and>
      (case suggestTimer s of None \<Rightarrow> True | Some j \<Rightarrow> j < nextTimerId s))"

text \<open>
  A session in which a poll gets started: the user types a symbol, clicks the search
  button, and the quote arrives.
\<close>

definition poll_trace :: "(nat \<times> event) list" where
  "poll_trace =
     [(0, Input (str ''TCS'')),
      (10, ClickSearch),
      (50, Arrive 1 (Resolved True (Some flat_quote)))]"




text \<open>A burst of keystrokes: the texts of the input with the times of the input events.\<close>

definition burst :: "(nat \<times> jsstring) list \<Rightarrow> (nat \<times> event) list" where
  "burst b = map (\<lambda>(t, v). (t, Input v)) b"

definition live_debounces :: "page \<Rightarrow> (nat \<times> timer) list" where
  "live_debounces s = filter (\<lambda>e. \<not> is_refresh e) (timers s)"

text \<open>
  A burst of typing inside a trace of events: each input event of the trace comes less
  than 250 ms after the input event before it, the first after the time \<open>t0\<close>.  What
  the other events of the trace are, and when they come, is left open.
\<close>

fun is_input :: "event \<Rightarrow> bool" where
  "is_input (Input v) = True"
| "is_input ev = False"

fun writes_input :: "event \<Rightarrow> bool" where
  "writes_input (Fire i) = True"
| "writes_input (KeyEnter w) = True"
| "writes_input (ClickSuggestion idx w) = True"
| "writes_input ev = False"

fun rapid_inputs :: "nat \<Rightarrow> (nat \<times> event) list \<Rightarrow> bool" where
  "rapid_inputs t0 [] = True"
| "rapid_inputs t0 ((t, ev) # es) =
     (if is_input ev then t < t0 + 250 \<and> rapid_inputs t es else rapid_inputs t0 es)"

text \<open>
  The time and the text of the last input event of a trace, \<open>l\<close> when it has none; the
  events of a trace after its last input event in which the script may write the input:
  the firing of a timer (a tick of the refresh poll writes the polled symbol) and the
  picking of a suggestion.
\<close>

fun last_input :: "nat \<times> jsstring \<Rightarrow> (nat \<times> event) list \<Rightarrow> nat \<times> jsstring" where
  "last_input l [] = l"
| "last_input l ((t, ev) # es) = last_input (case ev of Input v \<Rightarrow> (t, v) | _ \<Rightarrow> l) es"

definition writes_since_input :: "(nat \<times> event) list \<Rightarrow> (nat \<times> event) list" where
  "writes_since_input es =
     filter (\<lambda>e. writes_input (snd e)) (takeWhile (\<lambda>e. \<not> is_input (snd e)) (rev es))"

text \<open>The suggestion requests among the requests that the page has sent.\<close>

fun is_suggest :: "request \<Rightarrow> bool" where
  "is_suggest (GetSuggest q) = True"
| "is_suggest rq = False"

definition suggest_requests :: "page \<Rightarrow> request list" where
  "suggest_requests s = filter is_suggest (requests s)"

text \<open>
  The part of the page that the typing is about, which no listener writes but those of
  the input and of the timers and those that pick a suggestion.
\<close>

definition typing_view :: "page \<Rightarrow> request list \<times> jsstring \<times> nat" where
  "typing_view s = (suggest_requests s, stockSearch_value s, clock s)"

text \<open>
  The debounced call is still to come: one debounce timer is live, with the id \<open>i\<close>
  and due at \<open>d\<close>, and no suggestion request has been sent since the state \<open>s\<close>.  The
  debounced call has been made, with the query \<open>q\<close>: no debounce timer is live, and
  the suggestion requests sent since \<open>s\<close> are the one for \<open>q\<close>, when \<open>q\<close> has two
  code units or more and can be encoded, and none otherwise.
\<close>

definition call_pending :: "page \<Rightarrow> nat \<Rightarrow> nat \<Rightarrow> page \<Rightarrow> bool" where
  "call_pending s i d s' =
     (live_debounces s' = [(i, Timer d None DebouncedInput)] \<and>
      suggest_requests s' = suggest_requests s)"

definition call_made :: "page \<Rightarrow> jsstring \<Rightarrow> page \<Rightarrow> bool" where
  "call_made s q s' =
     (live_debounces s' = [] \<and>
      suggest_requests s' =
        suggest_requests s @ (if 2 \<le> length q \<and> uri_ok q then [GetSuggest q] else []))"

text \<open>
  Two bursts of typing, 100 ms between the keystrokes: one ends with the text \<open>TCS\<close>
  followed by a space, the other ends with the single letter \<open>T\<close>.
\<close>

definition typing_tcs :: "(nat \<times> jsstring) list" where
  "typing_tcs = [(0, str ''T''), (100, str ''TC''), (200, str ''TCS '')]"

definition typing_t :: "(nat \<times> jsstring) list" where
  "typing_t = [(0, str ''T''), (100, str ''TC''), (200, str ''T'')]"

text \<open>
  Typing while a poll is live: the user searches \<open>TCS\<close>, which starts the poll; half a
  minute later the user types \<open>IN\<close> and \<open>INFY\<close>, 100 ms apart; 50 ms after the last
  keystroke the poll ticks, and 250 ms after it the debounce timer fires.
\<close>

definition typing_over_poll :: "(nat \<times> event) list" where
  "typing_over_poll =
     poll_trace @
     [(250, Fire 1),
      (29900, Input (str ''IN'')),
      (30000, Input (str ''INFY'')),
      (30050, Fire 2),
      (30250, Fire 4)]"

section \<open>Properties of the number formatting\<close>

lemma digits_of_digits: "0 \<le> n \<Longrightarrow> list_all is_digit (digits_of n)"
proof (induction n rule: digits_of.induct)
  case (1 n)
  show ?case
  proof (cases "n < 10")
    case True
    with "1.prems" show ?thesis
      by (subst digits_of.simps) (simp add: is_digit_def)
  next
    case False
    then have "list_all is_digit (digits_of (n div 10))"
      using "1.IH" "1.prems" by simp
    moreover have "is_digit (48 + nat (n mod 10))"
      by (simp add: is_digit_def nat_le_iff)
    ultimately show ?thesis
      using False by (subst digits_of.simps) simp
  qed
qed

lemma digits_of_nonempty: "digits_of n \<noteq> []"
  by (subst digits_of.simps) simp

lemma list_of_two: "length xs = 2 \<Longrightarrow> \<exists>x y. xs = [x, y]"
  by (auto simp: numeral_2_eq_2 length_Suc_conv)

lemma fixed_digits_shape:
  assumes "0 \<le> a"
  shows "\<exists>i d1 d2. fixed_digits 2 a = i @ [46, d1, d2] \<and> i \<noteq> [] \<and> list_all is_digit i \<and>
     is_digit d1 \<and> is_digit d2"
proof -
  define n where "n = \<lfloor>a * 10 ^ 2 + 1 / 2\<rfloor>"
  define m where "m = digits_of n"
  define m' where "m' = (if length m \<le> 2 then replicate (3 - length m) 48 @ m else m)"
  have n0: "0 \<le> n" using assms by (simp add: n_def)
  have dm: "list_all is_digit m" unfolding m_def by (rule digits_of_digits [OF n0])
  have dm': "list_all is_digit m'"
    using dm by (simp add: m'_def is_digit_def list_all_iff)
  have len: "3 \<le> length m'"
    by (simp add: m'_def)
  have fd: "fixed_digits 2 a = take (length m' - 2) m' @ [46] @ drop (length m' - 2) m'"
    by (simp add: fixed_digits_def Let_def n_def m_def m'_def)
  obtain d1 d2 where dd: "drop (length m' - 2) m' = [d1, d2]"
  proof -
    have "length (drop (length m' - 2) m') = 2" using len by simp
    then have "\<exists>x y. drop (length m' - 2) m' = [x, y]"
      by (rule list_of_two)
    then show ?thesis using that by blast
  qed
  have "list_all is_digit (drop (length m' - 2) m')"
    using dm' by (metis append_take_drop_id list_all_append)
  then have d12: "is_digit d1" "is_digit d2" using dd by simp_all
  have ti: "list_all is_digit (take (length m' - 2) m')"
    using dm' by (metis append_take_drop_id list_all_append)
  have tn: "take (length m' - 2) m' \<noteq> []" using len by auto
  show ?thesis using fd dd d12 ti tn by auto
qed

lemma two_decimals_toFixed: "fixed_range x \<Longrightarrow> two_decimals (toFixed 2 x)"
proof -
  assume fr: "fixed_range x"
  have key: "two_decimals (Txt (s @ fixed_digits 2 a))" if a0: "0 \<le> a" and ss: "s = [] \<or> s = [45]" for s a
  proof -
    obtain i d1 d2 where sh: "fixed_digits 2 a = i @ [46, d1, d2]" "i \<noteq> []" "list_all is_digit i"
      "is_digit d1" "is_digit d2"
      using fixed_digits_shape [OF a0] by blast
    have hd: "take 1 i \<noteq> [45]"
      using sh(2,3) by (cases i) (auto simp: is_digit_def)
    from ss show ?thesis
    proof
      assume "s = []"
      then show ?thesis using sh hd
        by (cases i) (auto simp: two_decimals_def Let_def nth_append)
    next
      assume "s = [45]"
      then show ?thesis using sh
        by (cases i) (auto simp: two_decimals_def Let_def nth_append)
    qed
  qed
  show ?thesis
  proof (cases x)
    case (Fin q)
    then have "\<bar>q\<bar> < 10 ^ 21" using fr by (simp add: fixed_range_def)
    then show ?thesis
      using Fin key [of "\<bar>q\<bar>" "if q < 0 then str ''-'' else []"]
      by (auto simp: toFixed_def str_def)
  next
    case NegZero
    then show ?thesis using key [of 0 "[]"] by (simp add: toFixed_def)
  qed (use fr in \<open>auto simp: fixed_range_def\<close>)
qed

lemma digits_val_snoc: "digits_val (xs @ [c]) = 10 * digits_val xs + (int c - 48)"
  by (simp add: digits_val_def)

lemma digits_val_digits_of: "0 \<le> n \<Longrightarrow> digits_val (digits_of n) = n"
proof (induction n rule: digits_of.induct)
  case (1 n)
  show ?case
  proof (cases "n < 10")
    case True
    with "1.prems" show ?thesis
      by (subst digits_of.simps) (simp add: digits_val_def)
  next
    case False
    then have ih: "digits_val (digits_of (n div 10)) = n div 10"
      using "1.IH" "1.prems" by simp
    have "digits_val (digits_of n) = 10 * digits_val (digits_of (n div 10)) + (int (48 + nat (n mod 10)) - 48)"
      using False by (subst digits_of.simps) (simp add: digits_val_snoc)
    also have "\<dots> = 10 * (n div 10) + n mod 10"
      using ih by simp
    finally show ?thesis by simp
  qed
qed

lemma digits_val_zeros: "digits_val (replicate k 48 @ m) = digits_val m"
proof -
  have "foldl (\<lambda>a c. 10 * a + (int c - 48)) 0 (replicate k 48) = 0"
    by (induction k) simp_all
  then show ?thesis by (simp add: digits_val_def)
qed

lemma filter_digits_id: "list_all is_digit xs \<Longrightarrow> filter is_digit xs = xs"
  by (induction xs) simp_all

lemma fixed_digits_value:
  assumes "0 \<le> a"
  shows "digits_val (filter is_digit (fixed_digits 2 a)) = \<lfloor>a * 100 + 1 / 2\<rfloor>"
proof -
  define n where "n = \<lfloor>a * 10 ^ 2 + 1 / 2\<rfloor>"
  define m where "m = digits_of n"
  define m' where "m' = (if length m \<le> 2 then replicate (3 - length m) 48 @ m else m)"
  have n0: "0 \<le> n" using assms by (simp add: n_def)
  have dm: "list_all is_digit m" unfolding m_def by (rule digits_of_digits [OF n0])
  have dm': "list_all is_digit m'"
    using dm by (simp add: m'_def is_digit_def list_all_iff)
  have fd: "fixed_digits 2 a = take (length m' - 2) m' @ [46] @ drop (length m' - 2) m'"
    by (simp add: fixed_digits_def Let_def n_def m_def m'_def)
  have t: "list_all is_digit (take (length m' - 2) m')" "list_all is_digit (drop (length m' - 2) m')"
    using dm' by (metis append_take_drop_id list_all_append)+
  have "filter is_digit (fixed_digits 2 a) =
      take (length m' - 2) m' @ drop (length m' - 2) m'"
    unfolding fd using t by (simp add: filter_digits_id is_digit_def)
  then have "filter is_digit (fixed_digits 2 a) = m'" by simp
  moreover have "digits_val m' = digits_val m"
    by (simp add: m'_def digits_val_zeros)
  moreover have "digits_val m = n"
    unfolding m_def by (rule digits_val_digits_of [OF n0])
  ultimately show ?thesis by (simp add: n_def)
qed

lemma hundredths_toFixed:
  assumes "fixed_range x"
  shows "hundredths (toFixed 2 x) = Some \<lfloor>\<bar>mag x\<bar> * 100 + 1 / 2\<rfloor>"
proof (cases x)
  case (Fin q)
  then have "\<bar>q\<bar> < 10 ^ 21" using assms by (simp add: fixed_range_def)
  moreover have "filter is_digit (if q < 0 then str ''-'' else []) = []"
    by (simp add: str_def is_digit_def)
  moreover have "digits_val (filter is_digit (fixed_digits 2 \<bar>q\<bar>)) = \<lfloor>\<bar>q\<bar> * 100 + 1 / 2\<rfloor>"
    by (rule fixed_digits_value) simp
  ultimately show ?thesis
    using Fin by (simp add: toFixed_def hundredths_def split del: if_split)
next
  case NegZero
  then show ?thesis using fixed_digits_value [of 0] by (simp add: toFixed_def hundredths_def)
qed (use assms in \<open>auto simp: fixed_range_def\<close>)

text \<open>
  C5 (amended).  \<open>formatNumber\<close> takes the crore form when \<open>num >= 10000000\<close>, else
  the lakh form when \<open>num >= 100000\<close>, else the plain locale-grouped form: these two
  thresholds and divisors, in that order.  The quotient is rendered by \<open>toFixed(2)\<close>,
  which writes exactly two decimal places, those of the quotient rounded to the nearest
  hundredth (half up), whenever the quotient is finite and below \<open>10^21\<close>; beyond that
  range it does not (see the counterexample below).
\<close>

theorem formatNumber_thresholds:
  "(js_ge num (Fin 10000000) \<longrightarrow>
      formatNumber num = [Txt rupee, toFixed 2 (js_div num (Fin 10000000)), Txt (str '' Cr'')] \<and>
      (fixed_range (js_div num (Fin 10000000)) \<longrightarrow>
         two_decimals (toFixed 2 (js_div num (Fin 10000000))) \<and>
         hundredths (toFixed 2 (js_div num (Fin 10000000))) =
           Some \<lfloor>\<bar>mag (js_div num (Fin 10000000))\<bar> * 100 + 1 / 2\<rfloor>)) \<and>
   (\<not> js_ge num (Fin 10000000) \<and> js_ge num (Fin 100000) \<longrightarrow>
      formatNumber num = [Txt rupee, toFixed 2 (js_div num (Fin 100000)), Txt (str '' L'')] \<and>
      (fixed_range (js_div num (Fin 100000)) \<longrightarrow>
         two_decimals (toFixed 2 (js_div num (Fin 100000))) \<and>
         hundredths (toFixed 2 (js_div num (Fin 100000))) =
           Some \<lfloor>\<bar>mag (js_div num (Fin 100000))\<bar> * 100 + 1 / 2\<rfloor>)) \<and>
   (\<not> js_ge num (Fin 10000000) \<and> \<not> js_ge num (Fin 100000) \<longrightarrow>
      formatNumber num = [Txt rupee, LocaleStr num])"
  by (simp add: formatNumber_def two_decimals_toFixed hundredths_toFixed)

text \<open>The three branches at the inputs 12500000, 250000 and 5000.\<close>

theorem formatNumber_thresholds_witness:
  "js_ge (Fin 12500000) (Fin 10000000) \<and>
   formatNumber (Fin 12500000) = [Txt rupee, Txt (str ''1.25''), Txt (str '' Cr'')] \<and>
   fixed_range (js_div (Fin 12500000) (Fin 10000000)) \<and>
   two_decimals (Txt (str ''1.25'')) \<and> hundredths (Txt (str ''1.25'')) = Some 125 \<and>
   \<not> js_ge (Fin 250000) (Fin 10000000) \<and> js_ge (Fin 250000) (Fin 100000) \<and>
   formatNumber (Fin 250000) = [Txt rupee, Txt (str ''2.50''), Txt (str '' L'')] \<and>
   fixed_range (js_div (Fin 250000) (Fin 100000)) \<and>
   two_decimals (Txt (str ''2.50'')) \<and> hundredths (Txt (str ''2.50'')) = Some 250 \<and>
   \<not> js_ge (Fin 5000) (Fin 10000000) \<and> \<not> js_ge (Fin 5000) (Fin 100000) \<and>
   formatNumber (Fin 5000) = [Txt rupee, LocaleStr (Fin 5000)]"
proof -
  have c1: "js_ge (Fin 12500000) (Fin 10000000)" by code_simp
  have c0: "js_div (Fin 12500000) (Fin 10000000) = Fin (5 / 4)" by code_simp
  have c2: "toFixed 2 (Fin (5 / 4)) = Txt (str ''1.25'')" by code_simp
  have c3: "fixed_range (Fin (5 / 4))" by code_simp
  have l1: "\<not> js_ge (Fin 250000) (Fin 10000000) \<and> js_ge (Fin 250000) (Fin 100000)" by code_simp
  have l0: "js_div (Fin 250000) (Fin 100000) = Fin (5 / 2)" by code_simp
  have l2: "toFixed 2 (Fin (5 / 2)) = Txt (str ''2.50'')" by code_simp
  have l3: "fixed_range (Fin (5 / 2))" by code_simp
  have p1: "\<not> js_ge (Fin 5000) (Fin 10000000) \<and> \<not> js_ge (Fin 5000) (Fin 100000)" by code_simp
  have f: "\<lfloor>\<bar>5 / 4 :: rat\<bar> * 100 + 1 / 2\<rfloor> = 125" "\<lfloor>\<bar>5 / 2 :: rat\<bar> * 100 + 1 / 2\<rfloor> = 250"
    by code_simp+
  show ?thesis
    using formatNumber_thresholds [of "Fin 12500000"] formatNumber_thresholds [of "Fin 250000"]
      formatNumber_thresholds [of "Fin 5000"] c1 c2 c3 l1 l2 l3 p1 f
    unfolding c0 l0
    by simp
qed

text \<open>
  C5 as stated ("for every number", "exactly two decimal places") fails at \<open>Infinity\<close>:
  \<open>Infinity >= 10000000\<close> holds, \<open>Infinity / 10000000\<close> is \<open>Infinity\<close>, and
  \<open>toFixed(2)\<close> of it is the text \<open>Infinity\<close>.
\<close>

theorem formatNumber_infinity_counterexample:
  "js_ge PInf (Fin 10000000) \<and>
   formatNumber PInf = [Txt rupee, Txt (str ''Infinity''), Txt (str '' Cr'')] \<and>
   \<not> two_decimals (Txt (str ''Infinity''))"
  by code_simp

text \<open>
  C10.  For every negative number, whatever its magnitude, both comparisons fail and
  \<open>formatNumber\<close> returns the plain locale-grouped form.
\<close>

theorem formatNumber_negative_plain:
  "js_lt num (Fin 0) \<Longrightarrow> formatNumber num = [Txt rupee, LocaleStr num]"
  by (cases num) (auto simp: formatNumber_def js_lt_def js_ge_def)

text \<open>At \<open>-20000000\<close> and at \<open>-Infinity\<close>.\<close>

theorem formatNumber_negative_plain_witness:
  "js_lt (Fin (- 20000000)) (Fin 0) \<and>
   formatNumber (Fin (- 20000000)) = [Txt rupee, LocaleStr (Fin (- 20000000))] \<and>
   js_lt NInf (Fin 0) \<and> formatNumber NInf = [Txt rupee, LocaleStr NInf]"
proof -
  have a: "js_lt (Fin (- 20000000)) (Fin 0)" by code_simp
  have b: "js_lt NInf (Fin 0)" by code_simp
  show ?thesis
    using formatNumber_negative_plain [OF a] formatNumber_negative_plain [OF b] a b by simp
qed

section \<open>Keyboard navigation of the suggestions\<close>

lemma js_rem_nonneg: "0 \<le> a \<Longrightarrow> 0 < n \<Longrightarrow> js_rem a n = a mod n"
  by (cases "a = 0") (simp_all add: js_rem_def)

lemma str_down_up: "str ''up'' \<noteq> str ''down''"
  by (simp add: str_def)

lemma navigate_down:
  assumes "suggestion_rows s \<noteq> []" and "- 1 \<le> activeIndex s"
  shows "navigateSuggestions (str ''down'') s =
    (None, s\<lparr>active_row := Some (nat ((activeIndex s + 1) mod int (length (suggestion_rows s)))),
              activeIndex := (activeIndex s + 1) mod int (length (suggestion_rows s))\<rparr>)"
proof -
  let ?n = "int (length (suggestion_rows s))"
  have n: "0 < ?n" using assms(1) by simp
  have r: "js_rem (activeIndex s + 1) ?n = (activeIndex s + 1) mod ?n"
  proof (rule js_rem_nonneg)
    show "0 \<le> activeIndex s + 1" using assms(2) by linarith
    show "0 < ?n" by (rule n)
  qed
  show ?thesis
    using n r by (simp add: navigateSuggestions_def Let_def)
qed

lemma js_rem_up:
  assumes "- 1 \<le> i" and "0 < n"
  shows "js_rem (i - 1 + n) n = (i - 1 + n) mod n"
proof (cases "0 \<le> i - 1 + n")
  case True
  then show ?thesis using assms(2) by (rule js_rem_nonneg)
next
  case False
  with assms have "i = - 1" and "n = 1" by linarith+
  then show ?thesis by (simp add: js_rem_def)
qed

lemma navigate_up:
  assumes "suggestion_rows s \<noteq> []" and "- 1 \<le> activeIndex s"
  shows "navigateSuggestions (str ''up'') s =
    (None, s\<lparr>active_row := Some (nat ((activeIndex s - 1 + int (length (suggestion_rows s)))
                                        mod int (length (suggestion_rows s)))),
              activeIndex := (activeIndex s - 1 + int (length (suggestion_rows s)))
                               mod int (length (suggestion_rows s))\<rparr>)"
proof -
  let ?n = "int (length (suggestion_rows s))"
  have n: "0 < ?n" using assms(1) by simp
  have r: "js_rem (activeIndex s - 1 + ?n) ?n = (activeIndex s - 1 + ?n) mod ?n"
    using assms(2) n by (rule js_rem_up)
  show ?thesis
    using n r by (simp add: navigateSuggestions_def Let_def str_down_up)
qed

lemma navigate_times_down:
  "suggestion_rows s \<noteq> [] \<Longrightarrow> - 1 \<le> activeIndex s \<Longrightarrow>
   fst (navigate_times k (str ''down'') s) = None \<and>
   suggestion_rows (snd (navigate_times k (str ''down'') s)) = suggestion_rows s \<and>
   (0 < k \<longrightarrow> activeIndex (snd (navigate_times k (str ''down'') s)) =
      (activeIndex s + int k) mod int (length (suggestion_rows s))) \<and>
   (k = 0 \<longrightarrow> activeIndex (snd (navigate_times k (str ''down'') s)) = activeIndex s)"
proof (induction k arbitrary: s)
  case 0
  then show ?case by simp
next
  case (Suc k)
  let ?n = "int (length (suggestion_rows s))"
  let ?s' = "s\<lparr>active_row := Some (nat ((activeIndex s + 1) mod ?n)),
                activeIndex := (activeIndex s + 1) mod ?n\<rparr>"
  have n: "0 < ?n" using Suc.prems(1) by simp
  have step: "navigateSuggestions (str ''down'') s = (None, ?s')"
    using navigate_down [OF Suc.prems] .
  have pos: "0 \<le> (activeIndex s + 1) mod ?n"
    using n by (rule pos_mod_sign)
  have rows1: "suggestion_rows ?s' \<noteq> []"
    using Suc.prems(1) by simp
  have "activeIndex ?s' = (activeIndex s + 1) mod ?n" by simp
  with pos have rows2: "- 1 \<le> activeIndex ?s'" by linarith
  note rows = rows1 rows2
  note ih = Suc.IH [OF rows]
  have unf: "navigate_times (Suc k) (str ''down'') s = navigate_times k (str ''down'') ?s'"
    by (simp add: step)
  show ?case
  proof (cases "k = 0")
    case True
    then show ?thesis using unf by simp
  next
    case False
    then have "activeIndex (snd (navigate_times k (str ''down'') ?s')) =
        ((activeIndex s + 1) mod ?n + int k) mod ?n"
      using ih by simp
    also have "\<dots> = ((activeIndex s + 1) + int k) mod ?n"
      by (rule mod_add_left_eq)
    also have "\<dots> = (activeIndex s + int (Suc k)) mod ?n"
      by (simp add: algebra_simps)
    finally show ?thesis using ih unf by simp
  qed
qed

lemma navigate_times_up:
  "suggestion_rows s \<noteq> [] \<Longrightarrow> - 1 \<le> activeIndex s \<Longrightarrow>
   fst (navigate_times k (str ''up'') s) = None \<and>
   suggestion_rows (snd (navigate_times k (str ''up'') s)) = suggestion_rows s \<and>
   (0 < k \<longrightarrow> activeIndex (snd (navigate_times k (str ''up'') s)) =
      (activeIndex s - int k) mod int (length (suggestion_rows s))) \<and>
   (k = 0 \<longrightarrow> activeIndex (snd (navigate_times k (str ''up'') s)) = activeIndex s)"
proof (induction k arbitrary: s)
  case 0
  then show ?case by simp
next
  case (Suc k)
  let ?n = "int (length (suggestion_rows s))"
  let ?s' = "s\<lparr>active_row := Some (nat ((activeIndex s - 1 + ?n) mod ?n)),
                activeIndex := (activeIndex s - 1 + ?n) mod ?n\<rparr>"
  have n: "0 < ?n" using Suc.prems(1) by simp
  have step: "navigateSuggestions (str ''up'') s = (None, ?s')"
    using navigate_up [OF Suc.prems] .
  have pos: "0 \<le> (activeIndex s - 1 + ?n) mod ?n"
    using n by (rule pos_mod_sign)
  have rows1: "suggestion_rows ?s' \<noteq> []"
    using Suc.prems(1) by simp
  have "activeIndex ?s' = (activeIndex s - 1 + ?n) mod ?n" by simp
  with pos have rows2: "- 1 \<le> activeIndex ?s'" by linarith
  note rows = rows1 rows2
  note ih = Suc.IH [OF rows]
  have unf: "navigate_times (Suc k) (str ''up'') s = navigate_times k (str ''up'') ?s'"
    by (simp add: step)
  have one: "(activeIndex s - 1 + ?n) mod ?n = (activeIndex s - 1) mod ?n"
    by simp
  show ?case
  proof (cases "k = 0")
    case True
    then show ?thesis using unf one by simp
  next
    case False
    then have "activeIndex (snd (navigate_times k (str ''up'') ?s')) =
        ((activeIndex s - 1) mod ?n - int k) mod ?n"
      using ih one by simp
    also have "\<dots> = ((activeIndex s - 1) - int k) mod ?n"
      by (rule mod_diff_left_eq)
    also have "\<dots> = (activeIndex s - int (Suc k)) mod ?n"
      by (simp add: algebra_simps)
    finally show ?thesis using ih unf by simp
  qed
qed

lemma navigate_ends:
  assumes "suggestion_rows s \<noteq> []"
  shows "(activeIndex s = - 1 \<longrightarrow>
           fst (navigateSuggestions (str ''down'') s) = None \<and>
           activeIndex (snd (navigateSuggestions (str ''down'') s)) = 0 \<and>
           active_row (snd (navigateSuggestions (str ''down'') s)) = Some 0) \<and>
         (activeIndex s = 0 \<longrightarrow>
           fst (navigate_times (length (suggestion_rows s)) (str ''down'') s) = None \<and>
           activeIndex (snd (navigate_times (length (suggestion_rows s)) (str ''down'') s)) = 0) \<and>
         (activeIndex s = 0 \<longrightarrow>
           fst (navigateSuggestions (str ''up'') s) = None \<and>
           activeIndex (snd (navigateSuggestions (str ''up'') s)) =
             int (length (suggestion_rows s)) - 1 \<and>
           active_row (snd (navigateSuggestions (str ''up'') s)) =
             Some (length (suggestion_rows s) - 1))"
proof (intro conjI impI)
  assume a: "activeIndex s = - 1"
  then have "- 1 \<le> activeIndex s" by simp
  from navigate_down [OF assms this] a
  show "fst (navigateSuggestions (str ''down'') s) = None"
    and "activeIndex (snd (navigateSuggestions (str ''down'') s)) = 0"
    and "active_row (snd (navigateSuggestions (str ''down'') s)) = Some 0"
    by simp_all
next
  assume a: "activeIndex s = 0"
  then have b: "- 1 \<le> activeIndex s" by simp
  have k: "0 < length (suggestion_rows s)" using assms by simp
  from navigate_times_down [OF assms b, of "length (suggestion_rows s)"] a k
  show "fst (navigate_times (length (suggestion_rows s)) (str ''down'') s) = None"
    and "activeIndex (snd (navigate_times (length (suggestion_rows s)) (str ''down'') s)) = 0"
    by simp_all
next
  assume a: "activeIndex s = 0"
  then have b: "- 1 \<le> activeIndex s" by simp
  have k: "0 < int (length (suggestion_rows s))" using assms by simp
  have "(int (length (suggestion_rows s)) - 1) mod int (length (suggestion_rows s)) =
      int (length (suggestion_rows s)) - 1"
    using k by (intro mod_pos_pos_trivial) linarith+
  then have m: "(0 - 1 + int (length (suggestion_rows s))) mod int (length (suggestion_rows s)) =
      int (length (suggestion_rows s)) - 1"
    by (simp add: algebra_simps)
  from navigate_up [OF assms b] a m
  have u: "navigateSuggestions (str ''up'') s =
    (None, s\<lparr>active_row := Some (nat (int (length (suggestion_rows s)) - 1)),
              activeIndex := int (length (suggestion_rows s)) - 1\<rparr>)"
    by simp
  then show "fst (navigateSuggestions (str ''up'') s) = None"
    and "activeIndex (snd (navigateSuggestions (str ''up'') s)) =
      int (length (suggestion_rows s)) - 1"
    and "active_row (snd (navigateSuggestions (str ''up'') s)) =
      Some (length (suggestion_rows s) - 1)"
    by (simp_all add: nat_diff_distrib')
qed

lemma navigate_empty:
  "suggestion_rows s = [] \<Longrightarrow> navigateSuggestions direction s = (None, s)"
  by (simp add: navigateSuggestions_def)

text \<open>
  C6.  On a non-empty list of \<open>N\<close> rows, with the active index \<open>i\<close> at \<open>-1\<close> (no
  selection) or above, the navigation steps through the residues modulo \<open>N\<close>: \<open>down\<close>
  moves the index to \<open>(i + 1) mod N\<close> and \<open>up\<close> to \<open>(i - 1 + N) mod N\<close>, marks that row
  active and changes nothing else; \<open>k\<close> consecutive steps arrive at \<open>(i + k) mod N\<close> and
  at \<open>(i - k) mod N\<close>.  In particular \<open>down\<close> from \<open>-1\<close> lands on 0, \<open>N\<close> times \<open>down\<close>
  from 0 returns to 0, and \<open>up\<close> from 0 lands on \<open>N - 1\<close>.  On the empty list the
  navigation changes nothing, whatever the direction.
\<close>

theorem navigate_circular:
  "(suggestion_rows s \<noteq> [] \<and> - 1 \<le> activeIndex s \<longrightarrow>
     navigateSuggestions (str ''down'') s =
       (None, s\<lparr>active_row := Some (nat ((activeIndex s + 1) mod int (length (suggestion_rows s)))),
                 activeIndex := (activeIndex s + 1) mod int (length (suggestion_rows s))\<rparr>) \<and>
     navigateSuggestions (str ''up'') s =
       (None, s\<lparr>active_row := Some (nat ((activeIndex s - 1 + int (length (suggestion_rows s)))
                                           mod int (length (suggestion_rows s)))),
                 activeIndex := (activeIndex s - 1 + int (length (suggestion_rows s)))
                                  mod int (length (suggestion_rows s))\<rparr>) \<and>
     (\<forall>k. fst (navigate_times k (str ''down'') s) = None \<and>
          fst (navigate_times k (str ''up'') s) = None \<and>
          (0 < k \<longrightarrow>
             activeIndex (snd (navigate_times k (str ''down'') s)) =
               (activeIndex s + int k) mod int (length (suggestion_rows s)) \<and>
             activeIndex (snd (navigate_times k (str ''up'') s)) =
               (activeIndex s - int k) mod int (length (suggestion_rows s)))) \<and>
     (activeIndex s = - 1 \<longrightarrow>
        activeIndex (snd (navigateSuggestions (str ''down'') s)) = 0 \<and>
        active_row (snd (navigateSuggestions (str ''down'') s)) = Some 0) \<and>
     (activeIndex s = 0 \<longrightarrow>
        activeIndex (snd (navigate_times (length (suggestion_rows s)) (str ''down'') s)) = 0 \<and>
        activeIndex (snd (navigate_times (length (suggestion_rows s)) (str ''up'') s)) = 0 \<and>
        activeIndex (snd (navigateSuggestions (str ''up'') s)) =
          int (length (suggestion_rows s)) - 1 \<and>
        active_row (snd (navigateSuggestions (str ''up'') s)) =
          Some (length (suggestion_rows s) - 1))) \<and>
   (suggestion_rows s = [] \<longrightarrow> navigateSuggestions direction s = (None, s))"
proof (intro conjI impI allI)
  assume "suggestion_rows s = []"
  then show "navigateSuggestions direction s = (None, s)" by (rule navigate_empty)
next
  assume h: "suggestion_rows s \<noteq> [] \<and> - 1 \<le> activeIndex s"
  then have r: "suggestion_rows s \<noteq> []" and i: "- 1 \<le> activeIndex s" by simp_all
  show "navigateSuggestions (str ''down'') s =
       (None, s\<lparr>active_row := Some (nat ((activeIndex s + 1) mod int (length (suggestion_rows s)))),
                 activeIndex := (activeIndex s + 1) mod int (length (suggestion_rows s))\<rparr>)"
    using r i by (rule navigate_down)
  show "navigateSuggestions (str ''up'') s =
       (None, s\<lparr>active_row := Some (nat ((activeIndex s - 1 + int (length (suggestion_rows s)))
                                           mod int (length (suggestion_rows s)))),
                 activeIndex := (activeIndex s - 1 + int (length (suggestion_rows s)))
                                  mod int (length (suggestion_rows s))\<rparr>)"
    using r i by (rule navigate_up)
  {
    fix k
    show "fst (navigate_times k (str ''down'') s) = None"
      using navigate_times_down [OF r i, of k] by simp
    show "fst (navigate_times k (str ''up'') s) = None"
      using navigate_times_up [OF r i, of k] by simp
    assume "0 < k"
    then show "activeIndex (snd (navigate_times k (str ''down'') s)) =
               (activeIndex s + int k) mod int (length (suggestion_rows s))"
      using navigate_times_down [OF r i, of k] by simp
    from \<open>0 < k\<close> show "activeIndex (snd (navigate_times k (str ''up'') s)) =
               (activeIndex s - int k) mod int (length (suggestion_rows s))"
      using navigate_times_up [OF r i, of k] by simp
  }
  {
    assume "activeIndex s = - 1"
    then show "activeIndex (snd (navigateSuggestions (str ''down'') s)) = 0"
      and "active_row (snd (navigateSuggestions (str ''down'') s)) = Some 0"
      using navigate_ends [OF r] by simp_all
  }
  {
    assume z: "activeIndex s = 0"
    then show "activeIndex (snd (navigate_times (length (suggestion_rows s)) (str ''down'') s)) = 0"
      and "activeIndex (snd (navigateSuggestions (str ''up'') s)) =
          int (length (suggestion_rows s)) - 1"
      and "active_row (snd (navigateSuggestions (str ''up'') s)) =
          Some (length (suggestion_rows s) - 1)"
      using navigate_ends [OF r] by simp_all
    have k: "0 < length (suggestion_rows s)" using r by simp
    show "activeIndex (snd (navigate_times (length (suggestion_rows s)) (str ''up'') s)) = 0"
      using navigate_times_up [OF r i, of "length (suggestion_rows s)"] z k by simp
  }
qed

text \<open>
  With three rows: one step from each position in either direction, and three steps
  round; with no rows.
\<close>

theorem navigate_circular_witness:
  "suggestion_rows (three_rows 1) \<noteq> [] \<and> - 1 \<le> activeIndex (three_rows 1) \<and>
   activeIndex (snd (navigateSuggestions (str ''down'') (three_rows (- 1)))) = 0 \<and>
   activeIndex (snd (navigateSuggestions (str ''down'') (three_rows 0))) = 1 \<and>
   activeIndex (snd (navigateSuggestions (str ''down'') (three_rows 1))) = 2 \<and>
   activeIndex (snd (navigateSuggestions (str ''down'') (three_rows 2))) = 0 \<and>
   activeIndex (snd (navigateSuggestions (str ''up'') (three_rows 2))) = 1 \<and>
   activeIndex (snd (navigateSuggestions (str ''up'') (three_rows 1))) = 0 \<and>
   activeIndex (snd (navigateSuggestions (str ''up'') (three_rows 0))) = 2 \<and>
   active_row (snd (navigateSuggestions (str ''down'') (three_rows 0))) = Some 1 \<and>
   activeIndex (snd (navigate_times 3 (str ''down'') (three_rows 0))) = 0 \<and>
   activeIndex (snd (navigate_times 3 (str ''up'') (three_rows 0))) = 0 \<and>
   activeIndex (snd (navigate_times 2 (str ''down'') (three_rows 2))) = 1 \<and>
   suggestion_rows initial_page = [] \<and>
   navigateSuggestions (str ''down'') initial_page = (None, initial_page) \<and>
   navigateSuggestions (str ''up'') initial_page = (None, initial_page)"
proof -
  have a: "suggestion_rows (three_rows i) \<noteq> []" "activeIndex (three_rows i) = i"
    "length (suggestion_rows (three_rows i)) = 3" for i
    by (simp_all add: three_rows_def)
  have b: "suggestion_rows initial_page = []"
    by (simp add: initial_page_def)
  have m: "(2::int) mod 3 = 2" "(3::int) mod 3 = 0" "(1::int) mod 3 = 1" "(0::int) mod 3 = 0"
    "(- 3::int) mod 3 = 0" "(4::int) mod 3 = 1" "(5::int) mod 3 = 2"
    by simp_all
  show ?thesis
    using navigate_circular [of "three_rows (- 1)" "str ''down''"]
      navigate_circular [of "three_rows 0" "str ''down''"]
      navigate_circular [of "three_rows 1" "str ''down''"]
      navigate_circular [of "three_rows 2" "str ''down''"]
      navigate_circular [of initial_page "str ''down''"]
      navigate_circular [of initial_page "str ''up''"] a b
    by (simp add: m)
qed

section \<open>Loading the profile\<close>

lemma parse_bad: "JSON_parse (str ''{budget'') = Inl SyntaxError"
  by code_simp

lemma parse_null: "JSON_parse (str ''null'') = Inr JNull"
  by code_simp

lemma parse_profile:
  "JSON_parse (str ''{\"budget\":250000,\"risk_tolerance\":\"high\",\"timeline\":\"long\"}'') =
   Inr (JObj [(str ''budget'', JNum (Fin 250000)), (str ''risk_tolerance'', JStr (str ''high'')),
              (str ''timeline'', JStr (str ''long''))])"
  by code_simp

lemma parse_empty_object: "JSON_parse (str ''{}'') = Inr (JObj [])"
  by code_simp

lemma updateProfileDisplay_profile:
  "userProfile (snd (updateProfileDisplay s)) = userProfile s"
  by (simp add: updateProfileDisplay_def Let_def split: option.splits)

lemma updateProfileDisplay_no_budget:
  "userProfile s = JNull \<or> field (userProfile s) ''budget'' = None \<or>
   field (userProfile s) ''budget'' = Some JNull \<Longrightarrow>
   updateProfileDisplay s = (Some TypeError, s)"
  by (auto simp: updateProfileDisplay_def Let_def)

lemma updateProfileDisplay_valid:
  assumes "valid_profile (userProfile s)"
  shows "fst (updateProfileDisplay s) = None"
proof -
  from assms obtain q where b: "field (userProfile s) ''budget'' = Some (JNum (Fin q))"
    by (auto simp: valid_profile_def split: option.splits json.splits jsnum.splits)
  from assms obtain r where r: "field (userProfile s) ''risk_tolerance'' = Some (JStr r)"
    by (auto simp: valid_profile_def)
  from assms obtain l where l: "field (userProfile s) ''timeline'' = Some (JStr l)"
    by (auto simp: valid_profile_def)
  from b have n: "userProfile s \<noteq> JNull"
    by (auto simp: field_def)
  show ?thesis
    using b r l n by (simp add: updateProfileDisplay_def Let_def)
qed

lemma startup_default: "DOMContentLoaded None loaded_page = (None, initial_page)"
  by (simp add: DOMContentLoaded_def loadUserProfile_def updateProfileDisplay_def Let_def
      loaded_page_def initial_page_def default_profile_def field_def str_def)

text \<open>
  C2 (amended).  In every revision of the script: when the key is absent or holds the
  empty string, \<open>loadUserProfile\<close> returns normally and leaves the page as it is (with
  the default profile, at start-up); when the stored text is not parseable, the
  \<open>SyntaxError\<close> of \<open>JSON.parse\<close> leaves the function and nothing is changed: there is no
  fallback.  A parseable text replaces the profile by its value, whatever it is.  The
  newest revision then returns; the older revisions go on to update the display, which
  throws a \<open>TypeError\<close> when the value is \<open>null\<close> or has no budget (or a budget that is
  \<open>null\<close>), and does not throw on a valid profile.
\<close>

theorem loadUserProfile_cases:
  "((saved = None \<or> saved = Some []) \<longrightarrow>
      loadUserProfile saved s = (None, s) \<and> loadUserProfile_script saved s = (None, s)) \<and>
   (t \<noteq> [] \<and> JSON_parse t = Inl e \<longrightarrow>
      loadUserProfile (Some t) s = (Some e, s) \<and>
      loadUserProfile_script (Some t) s = (Some e, s)) \<and>
   (t \<noteq> [] \<and> JSON_parse t = Inr v \<longrightarrow>
      loadUserProfile (Some t) s = (None, s\<lparr>userProfile := v\<rparr>) \<and>
      loadUserProfile_script (Some t) s = updateProfileDisplay (s\<lparr>userProfile := v\<rparr>) \<and>
      userProfile (snd (loadUserProfile_script (Some t) s)) = v \<and>
      (v = JNull \<or> field v ''budget'' = None \<or> field v ''budget'' = Some JNull \<longrightarrow>
         loadUserProfile_script (Some t) s = (Some TypeError, s\<lparr>userProfile := v\<rparr>)) \<and>
      (valid_profile v \<longrightarrow> fst (loadUserProfile_script (Some t) s) = None))"
proof (intro conjI impI)
  assume "saved = None \<or> saved = Some []"
  then show "loadUserProfile saved s = (None, s)"
    and "loadUserProfile_script saved s = (None, s)"
    by (auto simp: loadUserProfile_def loadUserProfile_script_def)
next
  assume "t \<noteq> [] \<and> JSON_parse t = Inl e"
  then show "loadUserProfile (Some t) s = (Some e, s)"
    and "loadUserProfile_script (Some t) s = (Some e, s)"
    by (simp_all add: loadUserProfile_def loadUserProfile_script_def)
next
  assume h: "t \<noteq> [] \<and> JSON_parse t = Inr v"
  then show "loadUserProfile (Some t) s = (None, s\<lparr>userProfile := v\<rparr>)"
    by (simp add: loadUserProfile_def)
  from h show u: "loadUserProfile_script (Some t) s = updateProfileDisplay (s\<lparr>userProfile := v\<rparr>)"
    by (simp add: loadUserProfile_script_def)
  show "userProfile (snd (loadUserProfile_script (Some t) s)) = v"
    using u updateProfileDisplay_profile [of "s\<lparr>userProfile := v\<rparr>"] by simp
  {
    assume "v = JNull \<or> field v ''budget'' = None \<or> field v ''budget'' = Some JNull"
    then show "loadUserProfile_script (Some t) s = (Some TypeError, s\<lparr>userProfile := v\<rparr>)"
      using u updateProfileDisplay_no_budget [of "s\<lparr>userProfile := v\<rparr>"] by simp
  }
  {
    assume "valid_profile v"
    then show "fst (loadUserProfile_script (Some t) s) = None"
      using u updateProfileDisplay_valid [of "s\<lparr>userProfile := v\<rparr>"] by simp
  }
qed

text \<open>
  C2 as stated fails in every revision.  On the stored text \<open>{budget\<close> the load throws
  a \<open>SyntaxError\<close>.  On the stored text \<open>null\<close> the newest revision returns with a profile
  that is not a valid one, and the older revisions throw a \<open>TypeError\<close>, the profile
  already replaced; on the stored text \<open>{}\<close> likewise.
\<close>

theorem loadUserProfile_malformed_counterexample:
  "fst (loadUserProfile (Some (str ''{budget'')) loaded_page) = Some SyntaxError \<and>
   fst (loadUserProfile_script (Some (str ''{budget'')) loaded_page) = Some SyntaxError \<and>
   fst (loadUserProfile (Some (str ''null'')) loaded_page) = None \<and>
   \<not> valid_profile (userProfile (snd (loadUserProfile (Some (str ''null'')) loaded_page))) \<and>
   fst (loadUserProfile_script (Some (str ''null'')) loaded_page) = Some TypeError \<and>
   \<not> valid_profile (userProfile (snd (loadUserProfile_script (Some (str ''null'')) loaded_page))) \<and>
   fst (loadUserProfile (Some (str ''{}'')) loaded_page) = None \<and>
   \<not> valid_profile (userProfile (snd (loadUserProfile (Some (str ''{}'')) loaded_page))) \<and>
   fst (loadUserProfile_script (Some (str ''{}'')) loaded_page) = Some TypeError \<and>
   \<not> valid_profile (userProfile (snd (loadUserProfile_script (Some (str ''{}'')) loaded_page)))"
proof -
  have a: "loadUserProfile (Some (str ''{budget'')) loaded_page = (Some SyntaxError, loaded_page)"
    "loadUserProfile_script (Some (str ''{budget'')) loaded_page = (Some SyntaxError, loaded_page)"
    using parse_bad by (simp_all add: loadUserProfile_def loadUserProfile_script_def str_def)
  have b: "loadUserProfile (Some (str ''null'')) loaded_page =
      (None, loaded_page\<lparr>userProfile := JNull\<rparr>)"
    "loadUserProfile_script (Some (str ''null'')) loaded_page =
      (Some TypeError, loaded_page\<lparr>userProfile := JNull\<rparr>)"
    using parse_null
    by (simp_all add: loadUserProfile_def loadUserProfile_script_def updateProfileDisplay_def
        str_def)
  have c: "loadUserProfile (Some (str ''{}'')) loaded_page =
      (None, loaded_page\<lparr>userProfile := JObj []\<rparr>)"
    "loadUserProfile_script (Some (str ''{}'')) loaded_page =
      (Some TypeError, loaded_page\<lparr>userProfile := JObj []\<rparr>)"
    using parse_empty_object
    by (simp_all add: loadUserProfile_def loadUserProfile_script_def updateProfileDisplay_def
        field_def str_def)
  have d: "\<not> valid_profile JNull" "\<not> valid_profile (JObj [])"
    by (simp_all add: valid_profile_def field_def)
  show ?thesis using a b c d by simp
qed

text \<open>
  At start-up: no stored value, the empty string, a malformed text, a stored profile,
  the stored text \<open>null\<close>.
\<close>

theorem loadUserProfile_cases_witness:
  "loadUserProfile None loaded_page = (None, loaded_page) \<and>
   loadUserProfile_script None loaded_page = (None, loaded_page) \<and>
   loadUserProfile (Some []) loaded_page = (None, loaded_page) \<and>
   loadUserProfile_script (Some []) loaded_page = (None, loaded_page) \<and>
   valid_profile (userProfile loaded_page) \<and>
   userProfile loaded_page = default_profile \<and>
   str ''{budget'' \<noteq> [] \<and> JSON_parse (str ''{budget'') = Inl SyntaxError \<and>
   loadUserProfile (Some (str ''{budget'')) loaded_page = (Some SyntaxError, loaded_page) \<and>
   loadUserProfile_script (Some (str ''{budget'')) loaded_page = (Some SyntaxError, loaded_page) \<and>
   loadUserProfile
     (Some (str ''{\"budget\":250000,\"risk_tolerance\":\"high\",\"timeline\":\"long\"}''))
     loaded_page =
   (None, loaded_page\<lparr>userProfile :=
      JObj [(str ''budget'', JNum (Fin 250000)), (str ''risk_tolerance'', JStr (str ''high'')),
            (str ''timeline'', JStr (str ''long''))]\<rparr>) \<and>
   valid_profile
     (JObj [(str ''budget'', JNum (Fin 250000)), (str ''risk_tolerance'', JStr (str ''high'')),
            (str ''timeline'', JStr (str ''long''))]) \<and>
   fst (loadUserProfile_script
     (Some (str ''{\"budget\":250000,\"risk_tolerance\":\"high\",\"timeline\":\"long\"}''))
     loaded_page) = None \<and>
   userProfile (snd (loadUserProfile_script
     (Some (str ''{\"budget\":250000,\"risk_tolerance\":\"high\",\"timeline\":\"long\"}''))
     loaded_page)) =
   JObj [(str ''budget'', JNum (Fin 250000)), (str ''risk_tolerance'', JStr (str ''high'')),
         (str ''timeline'', JStr (str ''long''))] \<and>
   str ''null'' \<noteq> [] \<and> JSON_parse (str ''null'') = Inr JNull \<and>
   loadUserProfile_script (Some (str ''null'')) loaded_page =
     (Some TypeError, loaded_page\<lparr>userProfile := JNull\<rparr>)"
proof -
  have v: "valid_profile (userProfile loaded_page)" "userProfile loaded_page = default_profile"
    by (simp_all add: loaded_page_def initial_page_def default_profile_def valid_profile_def
        field_def str_def)
  have w: "valid_profile
     (JObj [(str ''budget'', JNum (Fin 250000)), (str ''risk_tolerance'', JStr (str ''high'')),
            (str ''timeline'', JStr (str ''long''))])"
    by (simp add: valid_profile_def field_def str_def)
  have n: "str ''{budget'' \<noteq> []" "str ''null'' \<noteq> []"
    "str ''{\"budget\":250000,\"risk_tolerance\":\"high\",\"timeline\":\"long\"}'' \<noteq> []"
    by (simp_all add: str_def)
  show ?thesis
    using loadUserProfile_cases [where saved = None and s = loaded_page]
      loadUserProfile_cases [where saved = "Some []" and s = loaded_page]
      loadUserProfile_cases [where t = "str ''{budget''" and e = SyntaxError and s = loaded_page]
      loadUserProfile_cases [where
        t = "str ''{\"budget\":250000,\"risk_tolerance\":\"high\",\"timeline\":\"long\"}''"
        and s = loaded_page
        and v = "JObj [(str ''budget'', JNum (Fin 250000)),
                       (str ''risk_tolerance'', JStr (str ''high'')),
                       (str ''timeline'', JStr (str ''long''))]"]
      loadUserProfile_cases [where t = "str ''null''" and v = JNull and s = loaded_page]
      parse_bad parse_profile parse_null v w n
    by simp
qed

section \<open>The change of a quote\<close>






section \<open>The search pipeline\<close>

lemma js_trim_blank: "list_all is_ws v \<Longrightarrow> js_trim v = []"
proof -
  assume "list_all is_ws v"
  then have h: "dropWhile is_ws v = []"
    by (induction v) simp_all
  show ?thesis unfolding js_trim_def h by simp
qed

text \<open>
  C7.  When the input is empty or holds only white space, \<open>searchStock\<close> returns at
  \<open>if (!symbol) return;\<close>: the page is unchanged (no request, no busy indicator, no
  change to the panel, the chart, the news or the poll).
\<close>

theorem searchStock_blank_noop:
  "list_all is_ws (stockSearch_value s) \<Longrightarrow> searchStock s = s"
  by (simp add: searchStock_def js_trim_blank toUpperCase_def)

text \<open>With the empty input, and with three spaces.\<close>

theorem searchStock_blank_noop_witness:
  "list_all is_ws (stockSearch_value initial_page) \<and> searchStock initial_page = initial_page \<and>
   list_all is_ws (stockSearch_value (initial_page\<lparr>stockSearch_value := str ''   ''\<rparr>)) \<and>
   searchStock (initial_page\<lparr>stockSearch_value := str ''   ''\<rparr>) =
     initial_page\<lparr>stockSearch_value := str ''   ''\<rparr> \<and>
   requests (searchStock (initial_page\<lparr>stockSearch_value := str ''   ''\<rparr>)) = []"
proof -
  have a: "list_all is_ws (stockSearch_value initial_page)"
    by (simp add: initial_page_def)
  have b: "list_all is_ws (stockSearch_value (initial_page\<lparr>stockSearch_value := str ''   ''\<rparr>))"
    by (simp add: str_def is_ws_def)
  have c: "requests initial_page = []"
    by (simp add: initial_page_def)
  show ?thesis
    using searchStock_blank_noop [OF a] searchStock_blank_noop [OF b] a b c by simp
qed

text \<open>
  C4.  When the request of a search or of a recommendation request comes back, the
  function that awaited it ends with its trigger showing its label again and enabled,
  whatever came back and whatever the \<open>try\<close> block did with it: success, a response
  that is not ok, a rejected \<open>fetch\<close>, a body that is not JSON, an exception while
  rendering.  The same holds when \<open>encodeURIComponent\<close> throws before the request is sent.
\<close>

theorem busy_indicator_released:
  "searchBtn (searchStock_resume symbol r s) = \<lparr>html = str ''Search'', disabled = False\<rparr> \<and>
   recommendBtn (getRecommendations_resume r s) =
     \<lparr>html = str ''Get Recommendations'', disabled = False\<rparr> \<and>
   (toUpperCase (js_trim (stockSearch_value s)) \<noteq> [] \<and>
    \<not> uri_ok (toUpperCase (js_trim (stockSearch_value s))) \<longrightarrow>
      searchBtn (searchStock s) = \<lparr>html = str ''Search'', disabled = False\<rparr>)"
  by (simp add: searchStock_resume_def getRecommendations_resume_def searchStock_def Let_def
      idle_search_def idle_recommend_def)

text \<open>
  The exits of the two \<open>try\<close> blocks on the initial page: a quote, an error body, a
  \<open>null\<close> body, a rejected request; an empty list, a response that is not ok, a list
  with a \<open>null\<close> record.
\<close>

lemma search_try_exits:
  "fst (search_try (str ''TCS'') (Resolved True (Some flat_quote)) initial_page) = None"
  "alerts (snd (search_try (str ''TCS'')
     (Resolved False (Some (JObj [(str ''error'', JStr (str ''No data''))]))) initial_page)) =
   [Txt (str ''No data'')]"
  "fst (search_try (str ''TCS'') (Resolved True (Some JNull)) initial_page) = Some TypeError"
  "fst (search_try (str ''TCS'') Rejected initial_page) = Some FetchFailed"
  by (simp_all add: search_try_def displayStockInfo_def drawPriceChart_def or_else_def field_def
      flat_quote_def alert_def initial_page_def str_def)

lemma recommend_try_exits:
  "fst (recommend_try (Resolved True (Some (JArr []))) initial_page) = None"
  "fst (recommend_try (Resolved False (Some JNull)) initial_page) =
   Some (Error (Txt (str ''Failed to load recommendations'')))"
  "fst (recommend_try (Resolved True (Some (JArr [JNull]))) initial_page) = Some TypeError"
  by (simp_all add: recommend_try_def displayRecommendations_def recommendation_card_def or_else_def)

text \<open>A symbol that \<open>encodeURIComponent\<close> rejects: a lone surrogate.\<close>

theorem busy_indicator_released_witness:
  "toUpperCase (js_trim (stockSearch_value (initial_page\<lparr>stockSearch_value := [0xD800]\<rparr>))) \<noteq> [] \<and>
   \<not> uri_ok (toUpperCase (js_trim (stockSearch_value (initial_page\<lparr>stockSearch_value := [0xD800]\<rparr>)))) \<and>
   searchBtn (searchStock (initial_page\<lparr>stockSearch_value := [0xD800]\<rparr>)) =
     \<lparr>html = str ''Search'', disabled = False\<rparr> \<and>
   searchBtn (searchStock_resume (str ''TCS'') Rejected (initial_page\<lparr>searchBtn := busy_search\<rparr>)) =
     \<lparr>html = str ''Search'', disabled = False\<rparr>"
proof -
  have a: "toUpperCase (js_trim (stockSearch_value (initial_page\<lparr>stockSearch_value := [0xD800]\<rparr>))) \<noteq> []"
    "\<not> uri_ok (toUpperCase (js_trim (stockSearch_value (initial_page\<lparr>stockSearch_value := [0xD800]\<rparr>))))"
    by (simp_all add: toUpperCase_def js_trim_def is_ws_def)
  show ?thesis
    using busy_indicator_released [of "str ''TCS''" Rejected "initial_page\<lparr>searchBtn := busy_search\<rparr>"]
      busy_indicator_released [of "str ''TCS''" Rejected "initial_page\<lparr>stockSearch_value := [0xD800]\<rparr>"]
      a
    by simp
qed

section \<open>Timers: the single poll, the debounce\<close>

subsection \<open>What leaves the timers alone\<close>

lemma timers_inv_view: "timer_view s' = timer_view s \<Longrightarrow> timers_inv s' = timers_inv s"
proof -
  assume "timer_view s' = timer_view s"
  then have "timers s' = timers s" "nextTimerId s' = nextTimerId s"
    "refreshInterval s' = refreshInterval s" "suggestTimer s' = suggestTimer s"
    by (simp_all add: timer_view_def)
  then show ?thesis by (simp add: timers_inv_def split: option.splits)
qed

lemma view_renderSuggestions [simp]: "timer_view (snd (renderSuggestions items s)) = timer_view s"
  by (simp add: renderSuggestions_def timer_view_def Let_def)

lemma view_navigateSuggestions [simp]:
  "timer_view (snd (navigateSuggestions d s)) = timer_view s"
  by (simp add: navigateSuggestions_def timer_view_def Let_def)

lemma view_fetch [simp]: "timer_view (fetch rq k s) = timer_view s"
  by (simp add: fetch_def timer_view_def)

lemma view_alert [simp]: "timer_view (alert m s) = timer_view s"
  by (simp add: alert_def timer_view_def)

lemma view_fetchSuggestions [simp]: "timer_view (fetchSuggestions q s) = timer_view s"
  by (simp add: fetchSuggestions_def)

lemma view_fetchSuggestions_resume [simp]:
  "timer_view (fetchSuggestions_resume r s) = timer_view s"
proof (cases r)
  case Rejected
  then show ?thesis by (simp add: fetchSuggestions_resume_def)
next
  case (Resolved ok body)
  show ?thesis
  proof (cases body)
    case None
    with Resolved show ?thesis by (simp add: fetchSuggestions_resume_def)
  next
    case (Some data)
    obtain e s' where rs: "renderSuggestions (case data of JArr xs \<Rightarrow> xs | _ \<Rightarrow> []) s = (e, s')"
      by (cases "renderSuggestions (case data of JArr xs \<Rightarrow> xs | _ \<Rightarrow> []) s")
    then have "timer_view s' = timer_view s"
      using view_renderSuggestions [of "case data of JArr xs \<Rightarrow> xs | _ \<Rightarrow> []" s] by simp
    then show ?thesis
      using Resolved Some rs by (cases e) (simp_all add: fetchSuggestions_resume_def)
  qed
qed

lemma view_drawPriceChart [simp]: "timer_view (snd (drawPriceChart h s)) = timer_view s"
  by (cases h) (simp_all add: drawPriceChart_def timer_view_def Let_def)

lemma view_displayStockInfo [simp]: "timer_view (snd (displayStockInfo data s)) = timer_view s"
proof -
  have "timer_view (s\<lparr>infoPanel := p\<rparr>) = timer_view s" for p
    by (simp add: timer_view_def)
  then show ?thesis
    by (cases "or_else (field data ''historical_data'') (Some (JArr []))")
       (simp_all add: displayStockInfo_def)
qed

lemma view_loadNews [simp]: "timer_view (loadNews symbol s) = timer_view s"
  by (simp add: loadNews_def)

lemma view_loadNews_resume [simp]: "timer_view (loadNews_resume r s) = timer_view s"
  by (simp add: loadNews_resume_def timer_view_def
      split: fetch_result.splits option.splits json.splits list.splits)

lemma view_render_cards [simp]: "timer_view (snd (render_cards rs s)) = timer_view s"
proof (induction rs arbitrary: s)
  case Nil
  then show ?case by simp
next
  case (Cons rc rest)
  show ?case
  proof (cases "recommendation_card rc")
    case (Inl e)
    then show ?thesis by simp
  next
    case (Inr c)
    have "timer_view (s\<lparr>recommendationsContainer := recommendationsContainer s @ [c]\<rparr>) =
        timer_view s"
      by (simp add: timer_view_def)
    with Inr Cons.IH show ?thesis by simp
  qed
qed

lemma view_displayRecommendations [simp]:
  "timer_view (snd (displayRecommendations recs s)) = timer_view s"
proof -
  have a: "timer_view (s\<lparr>recommendationsContainer := c\<rparr>) = timer_view s" for c
    by (simp add: timer_view_def)
  have b: "timer_view (s\<lparr>recommendationsContainer := c, recommendationsContainer := c'\<rparr>) =
      timer_view s" for c c'
    by (simp add: timer_view_def)
  have c: "timer_view (snd (render_cards xs (s\<lparr>recommendationsContainer := []\<rparr>))) = timer_view s"
    for xs
    using view_render_cards [of xs "s\<lparr>recommendationsContainer := []\<rparr>"] a by simp
  show ?thesis
  proof (cases recs)
    case (JArr xs)
    then show ?thesis using a b c
      by (cases xs) (simp_all add: displayRecommendations_def Let_def del: render_cards.simps)
  qed (use a b in \<open>simp_all add: displayRecommendations_def Let_def\<close>)
qed

lemma view_recommend_try [simp]: "timer_view (snd (recommend_try r s)) = timer_view s"
  by (simp add: recommend_try_def split: fetch_result.splits option.splits)

lemma view_getRecommendations [simp]: "timer_view (getRecommendations s) = timer_view s"
proof -
  have "timer_view (s\<lparr>recommendBtn := b\<rparr>) = timer_view s" for b
    by (simp add: timer_view_def)
  then show ?thesis by (simp add: getRecommendations_def)
qed

lemma view_button [simp]:
  "timer_view (s\<lparr>recommendBtn := b\<rparr>) = timer_view s"
  "timer_view (s\<lparr>searchBtn := b\<rparr>) = timer_view s"
  "timer_view (s\<lparr>stockSearch_value := v\<rparr>) = timer_view s"
  "timer_view (s\<lparr>stockInfoPanel_shown := x\<rparr>) = timer_view s"
  "timer_view (s\<lparr>pending := p\<rparr>) = timer_view s"
  by (simp_all add: timer_view_def)

lemma view_getRecommendations_resume [simp]:
  "timer_view (getRecommendations_resume r s) = timer_view s"
proof -
  obtain e s' where rt: "recommend_try r s = (e, s')"
    by (cases "recommend_try r s")
  then have "timer_view s' = timer_view s"
    using view_recommend_try [of r s] by simp
  then show ?thesis
    using rt by (cases e) (simp_all add: getRecommendations_resume_def)
qed

lemma view_searchStock [simp]: "timer_view (searchStock s) = timer_view s"
  by (simp add: searchStock_def Let_def)

lemma view_pickSuggestion [simp]: "timer_view (snd (pickSuggestion idx w s)) = timer_view s"
  by (simp add: pickSuggestion_def Let_def)

subsection \<open>What the timer operations keep\<close>

lemma is_refresh_iff: "is_refresh e = (\<exists>d p symbol. snd e = Timer d p (RefreshTick symbol))"
proof (cases e)
  case (Pair i tm)
  then show ?thesis
  proof (cases tm)
    case (Timer d p f)
    with Pair show ?thesis by (cases f) simp_all
  qed
qed

lemma inv_clearTimer: "timers_inv s \<Longrightarrow> timers_inv (clearTimer i s)"
  by (auto simp: timers_inv_def clearTimer_def distinct_map_filter split: option.splits)

lemma inv_stopAutoRefresh: "timers_inv s \<Longrightarrow> timers_inv (stopAutoRefresh s)"
  by (simp add: stopAutoRefresh_def inv_clearTimer split: option.splits)

lemma inv_debounce:
  assumes "timers_inv s"
  shows "timers_inv (debounce DebouncedInput delay s)"
proof -
  let ?s1 = "clearTimeout (suggestTimer s) s"
  have all_refresh: "\<forall>e\<in>set (timers ?s1). is_refresh e"
    using assms by (cases "suggestTimer s") (auto simp: timers_inv_def clearTimer_def)
  have inv1: "timers_inv ?s1"
    using assms by (cases "suggestTimer s") (simp_all add: inv_clearTimer)
  have same: "nextTimerId ?s1 = nextTimerId s" "refreshInterval ?s1 = refreshInterval s"
    by (cases "suggestTimer s"; simp add: clearTimer_def)+
  show ?thesis
    using inv1 all_refresh same
    by (auto simp: debounce_def Let_def setTimeout_def timers_inv_def split: option.splits)
qed

lemma live_polls_start:
  assumes "timers_inv s"
  shows "live_polls (startAutoRefresh symbol s) =
           [(nextTimerId s, Timer (clock s + 30000) (Some 30000) (RefreshTick symbol))]"
    and "timers_inv (startAutoRefresh symbol s)"
proof -
  let ?s1 = "case refreshInterval s of None \<Rightarrow> s | Some i \<Rightarrow> if i \<noteq> 0 then clearTimer i s else s"
  have none_refresh: "\<forall>e\<in>set (timers ?s1). \<not> is_refresh e"
    using assms by (cases "refreshInterval s") (auto simp: timers_inv_def clearTimer_def)
  have inv1: "timers_inv ?s1"
    using assms by (cases "refreshInterval s") (simp_all add: inv_clearTimer)
  have same: "nextTimerId ?s1 = nextTimerId s" "suggestTimer ?s1 = suggestTimer s"
    "clock ?s1 = clock s"
    by (cases "refreshInterval s"; simp add: clearTimer_def)+
  have f: "filter is_refresh (timers ?s1) = []"
    using none_refresh by (simp add: filter_empty_conv)
  show "live_polls (startAutoRefresh symbol s) =
           [(nextTimerId s, Timer (clock s + 30000) (Some 30000) (RefreshTick symbol))]"
    using f same by (simp add: live_polls_def startAutoRefresh_def Let_def setInterval_def)
  show "timers_inv (startAutoRefresh symbol s)"
    using inv1 none_refresh same
    by (auto simp: startAutoRefresh_def Let_def setInterval_def timers_inv_def
        split: option.splits)
qed

lemma polls_at_most_one:
  assumes "timers_inv s"
  shows "length (live_polls s) \<le> 1"
proof -
  have d: "distinct (map fst (live_polls s))"
    using assms by (simp add: timers_inv_def live_polls_def distinct_map_filter)
  have same: "\<forall>e\<in>set (live_polls s). refreshInterval s = Some (fst e)"
    using assms by (auto simp: timers_inv_def live_polls_def)
  show ?thesis
  proof (cases "live_polls s")
    case Nil
    then show ?thesis by simp
  next
    case (Cons a rest)
    show ?thesis
    proof (cases rest)
      case Nil
      with Cons show ?thesis by simp
    next
      case (Cons b rest')
      with \<open>live_polls s = a # rest\<close> have "fst a = fst b" using same by auto
      moreover have "fst a \<noteq> fst b" using d Cons \<open>live_polls s = a # rest\<close> by auto
      ultimately show ?thesis by simp
    qed
  qed
qed

lemma stop_idle:
  assumes "timers_inv s" and "live_polls s = []"
  shows "stopAutoRefresh s = s"
proof (cases "refreshInterval s")
  case None
  then show ?thesis by (simp add: stopAutoRefresh_def)
next
  case (Some i)
  have "\<forall>e\<in>set (timers s). fst e \<noteq> i"
  proof
    fix e assume e: "e \<in> set (timers s)"
    then have "\<not> is_refresh e"
      using assms(2) by (auto simp: live_polls_def filter_empty_conv)
    then show "fst e \<noteq> i" using assms(1) e Some by (auto simp: timers_inv_def)
  qed
  then have "filter (\<lambda>e. fst e \<noteq> i) (timers s) = timers s"
    by (simp add: filter_id_conv)
  then show ?thesis using Some by (simp add: stopAutoRefresh_def clearTimer_def)
qed

subsection \<open>The invariant holds in every state the events reach\<close>

lemma inv_view: "timers_inv s \<Longrightarrow> timer_view s' = timer_view s \<Longrightarrow> timers_inv s'"
  using timers_inv_view by blast

lemma inv_clock [simp]: "timers_inv (s\<lparr>clock := t\<rparr>) = timers_inv s"
  by (simp add: timers_inv_def split: option.splits)

lemma inv_search_try:
  assumes "timers_inv s"
  shows "timers_inv (snd (search_try symbol r s))"
proof (cases r)
  case Rejected
  then show ?thesis using assms by (simp add: search_try_def)
next
  case (Resolved ok body)
  show ?thesis
  proof (cases body)
    case None
    with Resolved show ?thesis using assms by (simp add: search_try_def)
  next
    case (Some data)
    show ?thesis
    proof (cases ok)
      case False
      then show ?thesis
        using Resolved Some assms by (simp add: search_try_def inv_view)
    next
      case True
      obtain e s1 where d: "displayStockInfo data s = (e, s1)"
        by (cases "displayStockInfo data s")
      then have v1: "timer_view s1 = timer_view s"
        using view_displayStockInfo [of data s] by simp
      then have i1: "timers_inv s1" using assms inv_view by blast
      show ?thesis
      proof (cases e)
        case (Some x)
        then show ?thesis
          using Resolved \<open>body = Some data\<close> True d i1 by (simp add: search_try_def)
      next
        case None
        have "timers_inv ((loadNews symbol s1)\<lparr>stockInfoPanel_shown := True\<rparr>)"
          using i1 by (rule inv_view) simp
        then have "timers_inv (startAutoRefresh symbol ((loadNews symbol s1)\<lparr>stockInfoPanel_shown := True\<rparr>))"
          by (rule live_polls_start(2))
        then show ?thesis
          using Resolved \<open>body = Some data\<close> True d None by (simp add: search_try_def)
      qed
    qed
  qed
qed

lemma inv_searchStock_resume:
  assumes "timers_inv s"
  shows "timers_inv (searchStock_resume symbol r s)"
proof -
  obtain e s1 where t: "search_try symbol r s = (e, s1)"
    by (cases "search_try symbol r s")
  then have "timers_inv s1"
    using inv_search_try [OF assms, of symbol r] by simp
  then have "timers_inv (alert m s1)" for m
    by (rule inv_view) simp
  then show ?thesis
    using t \<open>timers_inv s1\<close>
    by (cases e) (simp_all add: searchStock_resume_def inv_view)
qed

lemma inv_resume: "timers_inv s \<Longrightarrow> timers_inv (resume k r s)"
  by (cases k) (simp_all add: inv_searchStock_resume inv_view)

lemma inv_arrive: "timers_inv s \<Longrightarrow> arrive i r s = Some s' \<Longrightarrow> timers_inv s'"
proof -
  assume a: "timers_inv s" and b: "arrive i r s = Some s'"
  from b obtain k where "s' = resume k r (s\<lparr>pending := filter (\<lambda>e. fst e \<noteq> i) (pending s)\<rparr>)"
    by (auto simp: arrive_def split: option.splits)
  moreover have "timers_inv (s\<lparr>pending := filter (\<lambda>e. fst e \<noteq> i) (pending s)\<rparr>)"
    using a by (rule inv_view) simp
  ultimately show ?thesis by (simp add: inv_resume)
qed

lemma inv_run_callback: "timers_inv s \<Longrightarrow> timers_inv (run_callback f s)"
proof (cases f)
  case DebouncedInput
  assume "timers_inv s"
  then show ?thesis using DebouncedInput by (simp add: inv_view)
next
  case (RefreshTick symbol)
  assume a: "timers_inv s"
  then have "timers_inv (if symbol \<noteq> [] then s\<lparr>stockSearch_value := symbol\<rparr> else s)"
    by (simp add: inv_view)
  then have "timers_inv (searchStock (if symbol \<noteq> [] then s\<lparr>stockSearch_value := symbol\<rparr> else s))"
    by (rule inv_view) simp
  then show ?thesis using RefreshTick by simp
qed

lemma inv_rearm:
  assumes "timers_inv s" and "map_of (timers s) i = Some (Timer d p f)"
  shows "timers_inv (s\<lparr>timers := map (\<lambda>e. if fst e = i then (i, Timer d' p f) else e) (timers s)\<rparr>)"
proof -
  define g where "g = (\<lambda>e :: nat \<times> timer. if fst e = i then (i, Timer d' p f) else e)"
  have fst_g: "fst (g e) = fst e" for e by (simp add: g_def)
  have ids: "map fst (map g (timers s)) = map fst (timers s)"
    by (simp add: comp_def fst_g)
  have kind: "is_refresh (g e) = is_refresh e" if "e \<in> set (timers s)" for e
  proof (cases "fst e = i")
    case False
    then show ?thesis by (simp add: g_def)
  next
    case True
    have "distinct (map fst (timers s))" using assms(1) by (simp add: timers_inv_def)
    then have "map_of (timers s) (fst e) = Some (snd e)"
      using that by (simp add: map_of_eq_Some_iff)
    then have "snd e = Timer d p f" using True assms(2) by simp
    then have "e = (i, Timer d p f)" using True by (cases e) simp
    then show ?thesis by (cases f) (simp_all add: g_def)
  qed
  let ?s' = "s\<lparr>timers := map g (timers s)\<rparr>"
  have sel: "timers ?s' = map g (timers s)" "nextTimerId ?s' = nextTimerId s"
    "refreshInterval ?s' = refreshInterval s" "suggestTimer ?s' = suggestTimer s"
    by simp_all
  have "distinct (map fst (timers s))"
    using assms(1) by (simp add: timers_inv_def)
  then have d: "distinct (map fst (map g (timers s)))"
    unfolding ids .
  have each: "0 < fst e' \<and> fst e' < nextTimerId s \<and>
      (is_refresh e' \<longleftrightarrow> refreshInterval s = Some (fst e')) \<and>
      (\<not> is_refresh e' \<longrightarrow> suggestTimer s = Some (fst e'))" if "e' \<in> set (map g (timers s))" for e'
  proof -
    from that obtain e where e: "e \<in> set (timers s)" and e': "e' = g e" by auto
    have "0 < fst e \<and> fst e < nextTimerId s \<and>
      (is_refresh e \<longleftrightarrow> refreshInterval s = Some (fst e)) \<and>
      (\<not> is_refresh e \<longrightarrow> suggestTimer s = Some (fst e))"
      using assms(1) e unfolding timers_inv_def by blast
    then show ?thesis unfolding e' fst_g kind [OF e] .
  qed
  have rest: "0 < nextTimerId s"
    "case refreshInterval s of None \<Rightarrow> True | Some j \<Rightarrow> 0 < j \<and> j < nextTimerId s"
    "case suggestTimer s of None \<Rightarrow> True | Some j \<Rightarrow> j < nextTimerId s"
    using assms(1) unfolding timers_inv_def by blast+
  have "timers_inv ?s'"
    unfolding timers_inv_def sel using d each rest by blast
  then show ?thesis by (simp add: g_def)
qed

lemma inv_fire: "timers_inv s \<Longrightarrow> fire i s = Some s' \<Longrightarrow> timers_inv s'"
proof -
  assume a: "timers_inv s" and b: "fire i s = Some s'"
  from b obtain d p f where m: "map_of (timers s) i = Some (Timer d p f)"
    by (auto simp: fire_def split: option.splits timer.splits)
  show ?thesis
  proof (cases p)
    case None
    then have "s' = run_callback f (clearTimer i s)"
      using b m by (auto simp: fire_def split: if_splits)
    then show ?thesis using a by (simp add: inv_run_callback inv_clearTimer)
  next
    case (Some q)
    then have "s' = run_callback f
        (s\<lparr>timers := map (\<lambda>e. if fst e = i then (i, Timer (clock s + q) p f) else e) (timers s)\<rparr>)"
      using b m by (auto simp: fire_def split: if_splits)
    then show ?thesis using inv_rearm [OF a m] by (simp add: inv_run_callback)
  qed
qed

lemma inv_handle: "timers_inv s \<Longrightarrow> handle t ev s = Some s' \<Longrightarrow> timers_inv s'"
proof -
  assume a: "timers_inv s" and b: "handle t ev s = Some s'"
  have t: "\<not> t < clock s" using b by (auto simp: handle_def split: if_splits)
  let ?s0 = "s\<lparr>clock := t\<rparr>"
  have a0: "timers_inv ?s0" using a by simp
  show ?thesis
  proof (cases ev)
    case (Input v)
    have "timers_inv (?s0\<lparr>stockSearch_value := v\<rparr>)"
      using a0 by (rule inv_view) simp
    then have "timers_inv (debounce DebouncedInput 250 (?s0\<lparr>stockSearch_value := v\<rparr>))"
      by (rule inv_debounce)
    then show ?thesis using b t Input by (simp add: handle_def)
  next
    case KeyArrowDown
    have "timers_inv (snd (navigateSuggestions (str ''down'') ?s0))"
      using a0 by (rule inv_view) simp
    then show ?thesis using b t KeyArrowDown by (simp add: handle_def)
  next
    case KeyArrowUp
    have "timers_inv (snd (navigateSuggestions (str ''up'') ?s0))"
      using a0 by (rule inv_view) simp
    then show ?thesis using b t KeyArrowUp by (simp add: handle_def)
  next
    case KeyEscape
    have "timers_inv (snd (renderSuggestions [] ?s0))"
      using a0 by (rule inv_view) simp
    then show ?thesis using b t KeyEscape by (simp add: handle_def)
  next
    case (KeyEnter w)
    have "timers_inv (snd (pickSuggestion (activeIndex ?s0) w ?s0))"
      using a0 by (rule inv_view) simp
    moreover have "timers_inv (searchStock (snd (renderSuggestions [] ?s0)))"
      using a0 by (rule inv_view) simp
    ultimately show ?thesis
      using b t KeyEnter by (auto simp: handle_def Let_def split: if_splits)
  next
    case (ClickSuggestion idx w)
    have "timers_inv (snd (pickSuggestion (int idx) w ?s0))"
      using a0 by (rule inv_view) simp
    moreover have "timers_inv (snd (renderSuggestions [] (snd (pickSuggestion (int idx) w ?s0))))"
      using a0 by (rule inv_view) simp
    ultimately show ?thesis
      using b t ClickSuggestion by (auto simp: handle_def Let_def split: if_splits)
  next
    case ClickSearch
    have "timers_inv (snd (renderSuggestions [] (searchStock (snd (renderSuggestions [] ?s0)))))"
      using a0 by (rule inv_view) simp
    then show ?thesis using b t a0 ClickSearch by (auto simp: handle_def Let_def split: if_splits)
  next
    case ClickOutside
    have "timers_inv (snd (renderSuggestions [] ?s0))"
      using a0 by (rule inv_view) simp
    then show ?thesis using b t ClickOutside by (simp add: handle_def)
  next
    case ClickRecommend
    have "timers_inv (snd (renderSuggestions [] (getRecommendations ?s0)))"
      using a0 by (rule inv_view) simp
    then show ?thesis using b t a0 ClickRecommend by (auto simp: handle_def Let_def split: if_splits)
  next
    case StopRefresh
    then show ?thesis using b t a0 by (auto simp: handle_def inv_stopAutoRefresh)
  next
    case (Fire i)
    then show ?thesis using b t a0 inv_fire [of ?s0 i s'] by (simp add: handle_def)
  next
    case (Arrive i r)
    then show ?thesis using b t a0 inv_arrive [of ?s0 i r s'] by (simp add: handle_def)
  qed
qed

lemma inv_run: "timers_inv s \<Longrightarrow> run es s = Some s' \<Longrightarrow> timers_inv s'"
proof (induction es arbitrary: s)
  case Nil
  then show ?case by simp
next
  case (Cons a es)
  obtain t ev where a: "a = (t, ev)" by (cases a)
  with Cons.prems(2) obtain s1 where h: "handle t ev s = Some s1" and r: "run es s1 = Some s'"
    by (auto split: option.splits)
  from inv_handle [OF Cons.prems(1) h] have "timers_inv s1" .
  from Cons.IH [OF this r] show ?case .
qed

lemma inv_initial: "timers_inv initial_page"
  by (simp add: timers_inv_def initial_page_def)

subsection \<open>The refresh poll\<close>

text \<open>The definitions that evaluate a trace of events.\<close>

lemmas eval_defs = handle_def debounce_def setTimeout_def setInterval_def clearTimer_def
  renderSuggestions_def searchStock_def fetch_def alert_def arrive_def fire_def
  searchStock_resume_def search_try_def displayStockInfo_def drawPriceChart_def
  loadNews_def startAutoRefresh_def stopAutoRefresh_def fetchSuggestions_def
  fetchSuggestions_resume_def or_else_def field_def toUpperCase_def js_trim_def is_ws_def
  initial_page_def idle_search_def busy_search_def idle_recommend_def flat_quote_def
  live_polls_def Let_def str_def

lemma poll_trace_state:
  "map_option live_polls (run poll_trace initial_page) =
     Some [(2, Timer 30050 (Some 30000) (RefreshTick (str ''TCS'')))]"
  "map_option nextTimerId (run poll_trace initial_page) = Some 3"
  "map_option clock (run poll_trace initial_page) = Some 50"
  by (simp_all add: poll_trace_def eval_defs)

lemma old_poll_cancelled:
  assumes "timers_inv s" and "e \<in> set (live_polls s)"
  shows "e \<notin> set (timers (startAutoRefresh symbol s))"
proof -
  from assms have r: "refreshInterval s = Some (fst e)" and pos: "0 < fst e"
    and lt: "fst e < nextTimerId s"
    by (auto simp: timers_inv_def live_polls_def)
  then show ?thesis
    by (cases e) (auto simp: startAutoRefresh_def Let_def setInterval_def clearTimer_def)
qed

text \<open>
  C8.  In every state that the events reach from the initial page, at most one timer of
  the refresh poll is live.  Starting a poll there leaves exactly one, the new one, and
  the one that was live is no longer among the timers; stopping the poll when none is
  live changes nothing.
\<close>

theorem single_poll:
  assumes "run es initial_page = Some s"
  shows "length (live_polls s) \<le> 1 \<and>
         live_polls (startAutoRefresh symbol s) =
           [(nextTimerId s, Timer (clock s + 30000) (Some 30000) (RefreshTick symbol))] \<and>
         (\<forall>e\<in>set (live_polls s). e \<notin> set (timers (startAutoRefresh symbol s))) \<and>
         (live_polls s = [] \<longrightarrow> stopAutoRefresh s = s)"
proof -
  have inv: "timers_inv s"
    using inv_run [OF inv_initial assms] .
  show ?thesis
    using polls_at_most_one [OF inv] live_polls_start(1) [OF inv] old_poll_cancelled [OF inv]
      stop_idle [OF inv]
    by blast
qed

text \<open>On the initial page, and after a search has started a poll.\<close>

theorem single_poll_witness:
  "run [] initial_page = Some initial_page \<and> live_polls initial_page = [] \<and>
   stopAutoRefresh initial_page = initial_page \<and>
   map_option live_polls (run poll_trace initial_page) =
     Some [(2, Timer 30050 (Some 30000) (RefreshTick (str ''TCS'')))] \<and>
   map_option (live_polls \<circ> startAutoRefresh (str ''INFY'')) (run poll_trace initial_page) =
     Some [(3, Timer 30050 (Some 30000) (RefreshTick (str ''INFY'')))]"
proof -
  have a: "run [] initial_page = Some initial_page" by simp
  have b: "live_polls initial_page = []" by (simp add: live_polls_def initial_page_def)
  obtain s where s: "run poll_trace initial_page = Some s"
    using poll_trace_state(2) by (cases "run poll_trace initial_page") auto
  have c: "nextTimerId s = 3" "clock s = 50"
    using poll_trace_state(2,3) s by simp_all
  show ?thesis
    using single_poll [OF a, of "str ''INFY''"] single_poll [OF s, of "str ''INFY''"]
      a b c s poll_trace_state(1)
    by simp
qed

subsection \<open>The debounce of the input\<close>

lemma ld_view: "timer_view s' = timer_view s \<Longrightarrow> live_debounces s' = live_debounces s"
  by (simp add: timer_view_def live_debounces_def)

lemma tv_renderSuggestions [simp]: "typing_view (snd (renderSuggestions items s)) = typing_view s"
  by (simp add: renderSuggestions_def typing_view_def suggest_requests_def Let_def)

lemma tv_navigateSuggestions [simp]:
  "typing_view (snd (navigateSuggestions d s)) = typing_view s"
  by (simp add: navigateSuggestions_def typing_view_def suggest_requests_def Let_def)

lemma tv_fetch [simp]: "\<not> is_suggest rq \<Longrightarrow> typing_view (fetch rq k s) = typing_view s"
  by (simp add: fetch_def typing_view_def suggest_requests_def)

lemma tv_alert [simp]: "typing_view (alert m s) = typing_view s"
  by (simp add: alert_def typing_view_def suggest_requests_def)

lemma tv_fetchSuggestions_resume [simp]:
  "typing_view (fetchSuggestions_resume r s) = typing_view s"
proof (cases r)
  case Rejected
  then show ?thesis by (simp add: fetchSuggestions_resume_def)
next
  case (Resolved ok body)
  show ?thesis
  proof (cases body)
    case None
    with Resolved show ?thesis by (simp add: fetchSuggestions_resume_def)
  next
    case (Some data)
    obtain e s' where rs: "renderSuggestions (case data of JArr xs \<Rightarrow> xs | _ \<Rightarrow> []) s = (e, s')"
      by (cases "renderSuggestions (case data of JArr xs \<Rightarrow> xs | _ \<Rightarrow> []) s")
    then have "typing_view s' = typing_view s"
      using tv_renderSuggestions [of "case data of JArr xs \<Rightarrow> xs | _ \<Rightarrow> []" s] by simp
    then show ?thesis
      using Resolved Some rs by (cases e) (simp_all add: fetchSuggestions_resume_def)
  qed
qed

lemma tv_drawPriceChart [simp]: "typing_view (snd (drawPriceChart h s)) = typing_view s"
  by (cases h) (simp_all add: drawPriceChart_def typing_view_def suggest_requests_def Let_def)

lemma tv_displayStockInfo [simp]: "typing_view (snd (displayStockInfo data s)) = typing_view s"
proof -
  have "typing_view (s\<lparr>infoPanel := p\<rparr>) = typing_view s" for p
    by (simp add: typing_view_def suggest_requests_def)
  then show ?thesis
    by (cases "or_else (field data ''historical_data'') (Some (JArr []))")
       (simp_all add: displayStockInfo_def)
qed

lemma tv_loadNews [simp]: "typing_view (loadNews symbol s) = typing_view s"
  by (simp add: loadNews_def)

lemma tv_loadNews_resume [simp]: "typing_view (loadNews_resume r s) = typing_view s"
  by (simp add: loadNews_resume_def typing_view_def suggest_requests_def
      split: fetch_result.splits option.splits json.splits list.splits)

lemma tv_render_cards [simp]: "typing_view (snd (render_cards rs s)) = typing_view s"
proof (induction rs arbitrary: s)
  case Nil
  then show ?case by simp
next
  case (Cons rc rest)
  show ?case
  proof (cases "recommendation_card rc")
    case (Inl e)
    then show ?thesis by simp
  next
    case (Inr c)
    have "typing_view (s\<lparr>recommendationsContainer := recommendationsContainer s @ [c]\<rparr>) =
        typing_view s"
      by (simp add: typing_view_def suggest_requests_def)
    with Inr Cons.IH show ?thesis by simp
  qed
qed

lemma tv_displayRecommendations [simp]:
  "typing_view (snd (displayRecommendations recs s)) = typing_view s"
proof -
  have a: "typing_view (s\<lparr>recommendationsContainer := c\<rparr>) = typing_view s" for c
    by (simp add: typing_view_def suggest_requests_def)
  have b: "typing_view (s\<lparr>recommendationsContainer := c, recommendationsContainer := c'\<rparr>) =
      typing_view s" for c c'
    by (simp add: typing_view_def suggest_requests_def)
  have c: "typing_view (snd (render_cards xs (s\<lparr>recommendationsContainer := []\<rparr>))) = typing_view s"
    for xs
    using tv_render_cards [of xs "s\<lparr>recommendationsContainer := []\<rparr>"] a by simp
  show ?thesis
  proof (cases recs)
    case (JArr xs)
    then show ?thesis using a b c
      by (cases xs) (simp_all add: displayRecommendations_def Let_def del: render_cards.simps)
  qed (use a b in \<open>simp_all add: displayRecommendations_def Let_def\<close>)
qed

lemma tv_recommend_try [simp]: "typing_view (snd (recommend_try r s)) = typing_view s"
  by (simp add: recommend_try_def split: fetch_result.splits option.splits)

lemma tv_getRecommendations [simp]: "typing_view (getRecommendations s) = typing_view s"
proof -
  have "typing_view (s\<lparr>recommendBtn := b\<rparr>) = typing_view s" for b
    by (simp add: typing_view_def suggest_requests_def)
  then show ?thesis by (simp add: getRecommendations_def)
qed

lemma tv_field [simp]:
  "typing_view (s\<lparr>recommendBtn := b\<rparr>) = typing_view s"
  "typing_view (s\<lparr>searchBtn := b\<rparr>) = typing_view s"
  "typing_view (s\<lparr>stockInfoPanel_shown := x\<rparr>) = typing_view s"
  "typing_view (s\<lparr>pending := p\<rparr>) = typing_view s"
  "typing_view (s\<lparr>timers := ts\<rparr>) = typing_view s"
  by (simp_all add: typing_view_def suggest_requests_def)

lemma tv_getRecommendations_resume [simp]:
  "typing_view (getRecommendations_resume r s) = typing_view s"
proof -
  obtain e s' where rt: "recommend_try r s = (e, s')"
    by (cases "recommend_try r s")
  then have "typing_view s' = typing_view s"
    using tv_recommend_try [of r s] by simp
  then show ?thesis
    using rt by (cases e) (simp_all add: getRecommendations_resume_def)
qed

lemma tv_searchStock [simp]: "typing_view (searchStock s) = typing_view s"
  by (simp add: searchStock_def Let_def)

lemma tv_clearTimer [simp]: "typing_view (clearTimer i s) = typing_view s"
  by (simp add: clearTimer_def)

lemma tv_stopAutoRefresh [simp]: "typing_view (stopAutoRefresh s) = typing_view s"
  by (simp add: stopAutoRefresh_def split: option.splits)

lemma tv_startAutoRefresh [simp]: "typing_view (startAutoRefresh symbol s) = typing_view s"
proof -
  have "typing_view (setInterval f d s1) = typing_view s1" for f d s1
    by (simp add: setInterval_def typing_view_def suggest_requests_def)
  moreover have "typing_view (s1\<lparr>refreshInterval := x\<rparr>) = typing_view s1" for x s1
    by (simp add: typing_view_def suggest_requests_def)
  ultimately show ?thesis
    by (simp add: startAutoRefresh_def Let_def split: option.splits)
qed

lemma tv_search_try [simp]: "typing_view (snd (search_try symbol r s)) = typing_view s"
proof (cases r)
  case Rejected
  then show ?thesis by (simp add: search_try_def)
next
  case (Resolved ok body)
  show ?thesis
  proof (cases body)
    case None
    with Resolved show ?thesis by (simp add: search_try_def)
  next
    case (Some data)
    show ?thesis
    proof (cases ok)
      case False
      then show ?thesis using Resolved Some by (simp add: search_try_def)
    next
      case True
      obtain e s1 where d: "displayStockInfo data s = (e, s1)"
        by (cases "displayStockInfo data s")
      then have v1: "typing_view s1 = typing_view s"
        using tv_displayStockInfo [of data s] by simp
      show ?thesis
        using Resolved Some True d v1 by (cases e) (simp_all add: search_try_def)
    qed
  qed
qed

lemma tv_searchStock_resume [simp]:
  "typing_view (searchStock_resume symbol r s) = typing_view s"
proof -
  obtain e s1 where t: "search_try symbol r s = (e, s1)"
    by (cases "search_try symbol r s")
  then have "typing_view s1 = typing_view s"
    using tv_search_try [of symbol r s] by simp
  then show ?thesis
    using t by (cases e) (simp_all add: searchStock_resume_def)
qed

lemma tv_resume [simp]: "typing_view (resume k r s) = typing_view s"
  by (cases k) simp_all

lemma tv_arrive: "arrive i r s = Some s' \<Longrightarrow> typing_view s' = typing_view s"
  by (auto simp: arrive_def split: option.splits)

lemma ld_clear_refresh:
  assumes "timers_inv s" and "refreshInterval s = Some i"
  shows "live_debounces (clearTimer i s) = live_debounces s"
proof -
  have "\<forall>e\<in>set (timers s). (fst e \<noteq> i \<and> \<not> is_refresh e) = (\<not> is_refresh e)"
    using assms by (auto simp: timers_inv_def)
  then have "filter (\<lambda>e. fst e \<noteq> i \<and> \<not> is_refresh e) (timers s) =
      filter (\<lambda>e. \<not> is_refresh e) (timers s)"
    by (intro filter_cong) simp_all
  then show ?thesis
    by (simp add: live_debounces_def clearTimer_def)
qed

lemma ld_stopAutoRefresh:
  "timers_inv s \<Longrightarrow> live_debounces (stopAutoRefresh s) = live_debounces s"
  by (simp add: stopAutoRefresh_def ld_clear_refresh split: option.splits)

lemma ld_startAutoRefresh:
  assumes "timers_inv s"
  shows "live_debounces (startAutoRefresh symbol s) = live_debounces s"
proof -
  let ?s1 = "case refreshInterval s of None \<Rightarrow> s | Some i \<Rightarrow> if i \<noteq> 0 then clearTimer i s else s"
  have a: "live_debounces ?s1 = live_debounces s"
    using assms by (simp add: ld_clear_refresh split: option.splits)
  have "live_debounces (startAutoRefresh symbol s) = live_debounces ?s1"
    by (simp add: live_debounces_def startAutoRefresh_def Let_def setInterval_def)
  then show ?thesis using a by simp
qed

lemma ld_search_try:
  assumes "timers_inv s"
  shows "live_debounces (snd (search_try symbol r s)) = live_debounces s"
proof (cases r)
  case Rejected
  then show ?thesis by (simp add: search_try_def)
next
  case (Resolved ok body)
  show ?thesis
  proof (cases body)
    case None
    with Resolved show ?thesis by (simp add: search_try_def)
  next
    case (Some data)
    show ?thesis
    proof (cases ok)
      case False
      then show ?thesis
        using Resolved Some by (simp add: search_try_def live_debounces_def alert_def)
    next
      case True
      obtain e s1 where d: "displayStockInfo data s = (e, s1)"
        by (cases "displayStockInfo data s")
      then have v1: "timer_view s1 = timer_view s"
        using view_displayStockInfo [of data s] by simp
      then have i1: "timers_inv s1" using assms inv_view by blast
      have l1: "live_debounces s1 = live_debounces s" using v1 by (rule ld_view)
      show ?thesis
      proof (cases e)
        case (Some x)
        then show ?thesis
          using Resolved \<open>body = Some data\<close> True d l1 by (simp add: search_try_def)
      next
        case None
        let ?s2 = "(loadNews symbol s1)\<lparr>stockInfoPanel_shown := True\<rparr>"
        have v2: "timer_view ?s2 = timer_view s1" by simp
        have "timers_inv ?s2" using i1 v2 by (rule inv_view)
        then have "live_debounces (startAutoRefresh symbol ?s2) = live_debounces ?s2"
          by (rule ld_startAutoRefresh)
        also have "\<dots> = live_debounces s1" using v2 by (rule ld_view)
        finally show ?thesis
          using Resolved \<open>body = Some data\<close> True d None l1 by (simp add: search_try_def)
      qed
    qed
  qed
qed

lemma ld_searchStock_resume:
  assumes "timers_inv s"
  shows "live_debounces (searchStock_resume symbol r s) = live_debounces s"
proof -
  obtain e s1 where t: "search_try symbol r s = (e, s1)"
    by (cases "search_try symbol r s")
  then have l: "live_debounces s1 = live_debounces s"
    using ld_search_try [OF assms, of symbol r] by simp
  have "live_debounces (s2\<lparr>searchBtn := b\<rparr>) = live_debounces s2" for s2 b
    by (simp add: live_debounces_def)
  moreover have "live_debounces (alert m s2) = live_debounces s2" for s2 m
    by (simp add: live_debounces_def alert_def)
  ultimately show ?thesis
    using t l by (cases e) (simp_all add: searchStock_resume_def)
qed

lemma ld_resume: "timers_inv s \<Longrightarrow> live_debounces (resume k r s) = live_debounces s"
  by (cases k)
     (simp_all add: ld_searchStock_resume ld_view [OF view_fetchSuggestions_resume]
        ld_view [OF view_loadNews_resume] ld_view [OF view_getRecommendations_resume])

lemma ld_arrive:
  assumes "timers_inv s" and "arrive i r s = Some s'"
  shows "live_debounces s' = live_debounces s"
proof -
  let ?s1 = "s\<lparr>pending := filter (\<lambda>e. fst e \<noteq> i) (pending s)\<rparr>"
  from assms(2) obtain k where s': "s' = resume k r ?s1"
    by (auto simp: arrive_def split: option.splits)
  have v: "timer_view ?s1 = timer_view s" by simp
  have "timers_inv ?s1" using assms(1) v by (rule inv_view)
  then have "live_debounces (resume k r ?s1) = live_debounces ?s1" by (rule ld_resume)
  also have "\<dots> = live_debounces s" using v by (rule ld_view)
  finally show ?thesis using s' by simp
qed

lemma debounces_after_input:
  assumes "timers_inv s"
  shows "live_debounces (debounce DebouncedInput delay s) =
           [(nextTimerId s, Timer (clock s + delay) None DebouncedInput)]"
proof -
  let ?s1 = "clearTimeout (suggestTimer s) s"
  have all_refresh: "\<forall>e\<in>set (timers ?s1). is_refresh e"
    using assms by (cases "suggestTimer s") (auto simp: timers_inv_def clearTimer_def)
  then have f: "filter (\<lambda>e. \<not> is_refresh e) (timers ?s1) = []"
    by (simp add: filter_empty_conv)
  have same: "nextTimerId ?s1 = nextTimerId s" "clock ?s1 = clock s"
    by (cases "suggestTimer s"; simp add: clearTimer_def)+
  show ?thesis
    using f same by (simp add: live_debounces_def debounce_def Let_def setTimeout_def)
qed

lemma debounce_frame:
  "requests (debounce f delay s) = requests s"
  "pending (debounce f delay s) = pending s"
  "stockSearch_value (debounce f delay s) = stockSearch_value s"
  "clock (debounce f delay s) = clock s"
  by (cases "suggestTimer s"; simp add: debounce_def Let_def setTimeout_def clearTimer_def)+

lemma input_step:
  assumes "timers_inv s" and "clock s \<le> t"
  shows "\<exists>s'. handle t (Input v) s = Some s' \<and> timers_inv s' \<and>
           live_debounces s' = [(nextTimerId s, Timer (t + 250) None DebouncedInput)] \<and>
           requests s' = requests s \<and> pending s' = pending s \<and>
           stockSearch_value s' = v \<and> clock s' = t"
proof -
  let ?s0 = "s\<lparr>clock := t, stockSearch_value := v\<rparr>"
  have h: "handle t (Input v) s = Some (debounce DebouncedInput 250 ?s0)"
    using assms(2) by (simp add: handle_def)
  have i0: "timers_inv ?s0"
    using assms(1) by (simp add: timers_inv_def split: option.splits)
  show ?thesis
    using h inv_debounce [OF i0] debounces_after_input [OF i0, of 250] debounce_frame [of DebouncedInput 250 ?s0]
    by simp
qed

lemma tv_parts:
  assumes "typing_view s' = typing_view s"
  shows "suggest_requests s' = suggest_requests s" and "stockSearch_value s' = stockSearch_value s"
    and "clock s' = clock s"
  using assms by (simp_all add: typing_view_def)

lemma fire_refresh:
  assumes "timers_inv s" and "fire i s = Some s'" and "i \<notin> fst ` set (live_debounces s)"
  shows "live_debounces s' = live_debounces s" and "suggest_requests s' = suggest_requests s"
    and "clock s' = clock s"
proof -
  from assms(2) obtain d p f where m: "map_of (timers s) i = Some (Timer d p f)"
    by (auto simp: fire_def split: option.splits timer.splits)
  then have mem: "(i, Timer d p f) \<in> set (timers s)"
    by (rule map_of_SomeD)
  have "is_refresh (i, Timer d p f)"
  proof (rule ccontr)
    assume "\<not> is_refresh (i, Timer d p f)"
    then have "(i, Timer d p f) \<in> set (live_debounces s)"
      using mem by (simp add: live_debounces_def)
    then have "i \<in> fst ` set (live_debounces s)" by force
    then show False using assms(3) by simp
  qed
  then obtain symbol where f: "f = RefreshTick symbol"
    by (cases f) simp_all
  have ri: "refreshInterval s = Some i"
    using assms(1) mem \<open>is_refresh (i, Timer d p f)\<close> by (auto simp: timers_inv_def)
  define s1 where "s1 = (case p of
      None \<Rightarrow> clearTimer i s
    | Some q \<Rightarrow> s\<lparr>timers := map (\<lambda>e. if fst e = i then (i, Timer (clock s + q) p f) else e)
                               (timers s)\<rparr>)"
  have s': "s' = run_callback f s1"
    using assms(2) m by (auto simp: fire_def s1_def split: if_splits)
  have l1: "live_debounces s1 = live_debounces s"
  proof (cases p)
    case None
    then show ?thesis using ld_clear_refresh [OF assms(1) ri] by (simp add: s1_def)
  next
    case (Some q)
    define g where "g = (\<lambda>e :: nat \<times> timer. if fst e = i then (i, Timer (clock s + q) p f) else e)"
    have k: "is_refresh (g e) = is_refresh e" if "e \<in> set (timers s)" for e
    proof (cases "fst e = i")
      case True
      then have "is_refresh e" using assms(1) that ri by (auto simp: timers_inv_def)
      then show ?thesis using True f by (simp add: g_def)
    next
      case False
      then show ?thesis by (simp add: g_def)
    qed
    have keep: "g e = e" if "e \<in> set (timers s)" and "\<not> is_refresh e" for e
    proof -
      have "fst e \<noteq> i" using assms(1) that ri by (auto simp: timers_inv_def)
      then show ?thesis by (simp add: g_def)
    qed
    have "filter (\<lambda>e. \<not> is_refresh e) (map g (timers s)) =
        map g (filter (\<lambda>e. \<not> is_refresh (g e)) (timers s))"
      by (simp add: filter_map comp_def)
    also have "filter (\<lambda>e. \<not> is_refresh (g e)) (timers s) = filter (\<lambda>e. \<not> is_refresh e) (timers s)"
      using k by (intro filter_cong) simp_all
    also have "map g (filter (\<lambda>e. \<not> is_refresh e) (timers s)) =
        filter (\<lambda>e. \<not> is_refresh e) (timers s)"
      using keep by (intro map_idI) simp
    finally show ?thesis
      using Some by (simp add: s1_def live_debounces_def g_def)
  qed
  have t1: "typing_view s1 = typing_view s"
    by (cases p) (simp_all add: s1_def)
  let ?s2 = "if symbol \<noteq> [] then s1\<lparr>stockSearch_value := symbol\<rparr> else s1"
  have s'2: "s' = searchStock ?s2" using s' f by simp
  have "timer_view s' = timer_view s1" using s'2 by simp
  then have "live_debounces s' = live_debounces s1" by (rule ld_view)
  then show "live_debounces s' = live_debounces s" using l1 by simp
  have "typing_view s' = typing_view ?s2" using s'2 by simp
  then have "suggest_requests s' = suggest_requests ?s2" and "clock s' = clock ?s2"
    by (rule tv_parts)+
  moreover have "suggest_requests ?s2 = suggest_requests s1" and "clock ?s2 = clock s1"
    by (simp_all add: suggest_requests_def)
  ultimately show "suggest_requests s' = suggest_requests s" and "clock s' = clock s"
    using tv_parts [OF t1] by simp_all
qed

lemma pick_parts:
  "suggest_requests (snd (pickSuggestion idx w s)) = suggest_requests s"
  "clock (snd (pickSuggestion idx w s)) = clock s"
proof -
  have a: "typing_view (searchStock (snd (renderSuggestions [] s1))) = typing_view s1" for s1
    by simp
  have b: "suggest_requests (s\<lparr>stockSearch_value := v\<rparr>) = suggest_requests s"
    "clock (s\<lparr>stockSearch_value := v\<rparr>) = clock s" for v
    by (simp_all add: suggest_requests_def)
  have c: "suggest_requests (searchStock (snd (renderSuggestions [] (s\<lparr>stockSearch_value := v\<rparr>)))) =
      suggest_requests s"
    "clock (searchStock (snd (renderSuggestions [] (s\<lparr>stockSearch_value := v\<rparr>)))) = clock s" for v
    using tv_parts(1,3) [OF a [of "s\<lparr>stockSearch_value := v\<rparr>"]] b [of v] by simp_all
  show "suggest_requests (snd (pickSuggestion idx w s)) = suggest_requests s"
    by (simp add: pickSuggestion_def Let_def c)
  show "clock (snd (pickSuggestion idx w s)) = clock s"
    by (simp add: pickSuggestion_def Let_def c)
qed

lemma handle_frame:
  assumes "timers_inv s" and "handle t ev s = Some s'" and "\<not> is_input ev"
    and "\<And>j. ev = Fire j \<Longrightarrow> j \<notin> fst ` set (live_debounces s)"
  shows "live_debounces s' = live_debounces s" and "suggest_requests s' = suggest_requests s"
    and "clock s' = t" and "\<not> writes_input ev \<Longrightarrow> stockSearch_value s' = stockSearch_value s"
proof -
  have t: "\<not> t < clock s" using assms(2) by (auto simp: handle_def split: if_splits)
  let ?s0 = "s\<lparr>clock := t\<rparr>"
  have a0: "timers_inv ?s0" using assms(1) by simp
  have l0: "live_debounces ?s0 = live_debounces s" by (simp add: live_debounces_def)
  have r0: "suggest_requests ?s0 = suggest_requests s" "stockSearch_value ?s0 = stockSearch_value s"
    "clock ?s0 = t"
    by (simp_all add: suggest_requests_def)
  have "live_debounces s' = live_debounces ?s0 \<and> suggest_requests s' = suggest_requests ?s0 \<and>
      clock s' = clock ?s0 \<and> (\<not> writes_input ev \<longrightarrow> stockSearch_value s' = stockSearch_value ?s0)"
  proof (cases ev)
    case (Input v)
    then show ?thesis using assms(3) by simp
  next
    case KeyArrowDown
    then have s': "s' = snd (navigateSuggestions (str ''down'') ?s0)"
      using assms(2) t by (simp add: handle_def)
    have "timer_view s' = timer_view ?s0" "typing_view s' = typing_view ?s0"
      unfolding s' by simp_all
    then show ?thesis using ld_view tv_parts by blast
  next
    case KeyArrowUp
    then have s': "s' = snd (navigateSuggestions (str ''up'') ?s0)"
      using assms(2) t by (simp add: handle_def)
    have "timer_view s' = timer_view ?s0" "typing_view s' = typing_view ?s0"
      unfolding s' by simp_all
    then show ?thesis using ld_view tv_parts by blast
  next
    case KeyEscape
    then have s': "s' = snd (renderSuggestions [] ?s0)"
      using assms(2) t by (simp add: handle_def)
    have "timer_view s' = timer_view ?s0" "typing_view s' = typing_view ?s0"
      unfolding s' by simp_all
    then show ?thesis using ld_view tv_parts by blast
  next
    case (KeyEnter w)
    then have s': "s' = snd (pickSuggestion (activeIndex ?s0) w ?s0) \<or>
        s' = searchStock (snd (renderSuggestions [] ?s0))"
      using assms(2) t by (auto simp: handle_def Let_def split: if_splits)
    have "timer_view s' = timer_view ?s0" using s' by auto
    then have "live_debounces s' = live_debounces ?s0" by (rule ld_view)
    moreover have "suggest_requests s' = suggest_requests ?s0 \<and> clock s' = clock ?s0"
    proof -
      have "typing_view (searchStock (snd (renderSuggestions [] ?s0))) = typing_view ?s0"
        by simp
      from tv_parts(1,3) [OF this] s' pick_parts [of "activeIndex ?s0" w ?s0]
      show ?thesis by auto
    qed
    ultimately show ?thesis using KeyEnter by simp
  next
    case (ClickSuggestion idx w)
    let ?s1 = "snd (pickSuggestion (int idx) w ?s0)"
    from ClickSuggestion have s': "s' = ?s1 \<or> s' = snd (renderSuggestions [] ?s1)"
      using assms(2) t by (auto simp: handle_def Let_def split: if_splits)
    have "timer_view s' = timer_view ?s0" using s' by auto
    then have "live_debounces s' = live_debounces ?s0" by (rule ld_view)
    moreover have "suggest_requests s' = suggest_requests ?s0 \<and> clock s' = clock ?s0"
    proof -
      have "typing_view (snd (renderSuggestions [] ?s1)) = typing_view ?s1"
        by simp
      from tv_parts(1,3) [OF this] s' pick_parts [of "int idx" w ?s0]
      show ?thesis by auto
    qed
    ultimately show ?thesis using ClickSuggestion by simp
  next
    case ClickSearch
    then have s': "s' = ?s0 \<or> s' = snd (renderSuggestions [] (searchStock (snd (renderSuggestions [] ?s0))))"
      using assms(2) t by (auto simp: handle_def Let_def split: if_splits)
    have "timer_view s' = timer_view ?s0" "typing_view s' = typing_view ?s0"
      using s' by auto
    then show ?thesis using ld_view tv_parts by blast
  next
    case ClickOutside
    then have s': "s' = snd (renderSuggestions [] ?s0)"
      using assms(2) t by (simp add: handle_def)
    have "timer_view s' = timer_view ?s0" "typing_view s' = typing_view ?s0"
      unfolding s' by simp_all
    then show ?thesis using ld_view tv_parts by blast
  next
    case ClickRecommend
    then have s': "s' = ?s0 \<or> s' = snd (renderSuggestions [] (getRecommendations ?s0))"
      using assms(2) t by (auto simp: handle_def Let_def split: if_splits)
    have "timer_view s' = timer_view ?s0" "typing_view s' = typing_view ?s0"
      using s' by auto
    then show ?thesis using ld_view tv_parts by blast
  next
    case StopRefresh
    then have s': "s' = stopAutoRefresh ?s0"
      using assms(2) t by (simp add: handle_def)
    have "typing_view s' = typing_view ?s0" unfolding s' by simp
    moreover have "live_debounces s' = live_debounces ?s0"
      unfolding s' using a0 by (rule ld_stopAutoRefresh)
    ultimately show ?thesis using tv_parts by blast
  next
    case (Fire j)
    then have f: "fire j ?s0 = Some s'"
      using assms(2) t by (simp add: handle_def)
    have "j \<notin> fst ` set (live_debounces ?s0)"
      using assms(4) [OF Fire] l0 by simp
    from fire_refresh [OF a0 f this] show ?thesis using Fire by simp
  next
    case (Arrive j r)
    then have f: "arrive j r ?s0 = Some s'"
      using assms(2) t by (simp add: handle_def)
    have "typing_view s' = typing_view ?s0" using f by (rule tv_arrive)
    moreover have "live_debounces s' = live_debounces ?s0"
      using a0 f by (rule ld_arrive)
    ultimately show ?thesis using tv_parts by blast
  qed
  then show "live_debounces s' = live_debounces s" and "suggest_requests s' = suggest_requests s"
    and "clock s' = t" and "\<not> writes_input ev \<Longrightarrow> stockSearch_value s' = stockSearch_value s"
    using l0 r0 by simp_all
qed

lemma fire_debounce:
  assumes "timers_inv s" and "live_debounces s = [(i, Timer d None DebouncedInput)]"
  shows "handle t (Fire i) s =
           (if t < clock s \<or> t < d then None
            else Some (fetchSuggestions (js_trim (stockSearch_value s)) (clearTimer i (s\<lparr>clock := t\<rparr>))))"
    and "live_debounces (fetchSuggestions q (clearTimer i (s\<lparr>clock := t\<rparr>))) = []"
    and "requests (fetchSuggestions q (clearTimer i (s\<lparr>clock := t\<rparr>))) =
           requests s @ (if 2 \<le> length q \<and> uri_ok q then [GetSuggest q] else [])"
    and "clock (fetchSuggestions q (clearTimer i (s\<lparr>clock := t\<rparr>))) = t"
proof -
  have mem: "(i, Timer d None DebouncedInput) \<in> set (timers s)"
  proof -
    have "(i, Timer d None DebouncedInput) \<in> set (live_debounces s)"
      using assms(2) by simp
    then show ?thesis by (simp add: live_debounces_def)
  qed
  have "distinct (map fst (timers s))"
    using assms(1) by (simp add: timers_inv_def)
  then have m: "map_of (timers s) i = Some (Timer d None DebouncedInput)"
    using mem by (simp add: map_of_eq_Some_iff)
  show "handle t (Fire i) s =
           (if t < clock s \<or> t < d then None
            else Some (fetchSuggestions (js_trim (stockSearch_value s)) (clearTimer i (s\<lparr>clock := t\<rparr>))))"
    using m by (simp add: handle_def fire_def clearTimer_def)
  have v: "timer_view (fetchSuggestions q (clearTimer i (s\<lparr>clock := t\<rparr>))) =
      timer_view (clearTimer i (s\<lparr>clock := t\<rparr>))"
    by simp
  then show "clock (fetchSuggestions q (clearTimer i (s\<lparr>clock := t\<rparr>))) = t"
    by (simp add: timer_view_def clearTimer_def)
  have "filter (\<lambda>e. \<not> is_refresh e) (filter (\<lambda>e. fst e \<noteq> i) (timers s)) =
      filter (\<lambda>e. fst e \<noteq> i) (filter (\<lambda>e. \<not> is_refresh e) (timers s))"
    by (simp add: conj_commute)
  also have "\<dots> = filter (\<lambda>e. fst e \<noteq> i) [(i, Timer d None DebouncedInput)]"
    using assms(2) unfolding live_debounces_def by (rule arg_cong)
  finally have "live_debounces (clearTimer i (s\<lparr>clock := t\<rparr>)) = []"
    by (simp add: live_debounces_def clearTimer_def)
  then show "live_debounces (fetchSuggestions q (clearTimer i (s\<lparr>clock := t\<rparr>))) = []"
    using v by (simp add: live_debounces_def timer_view_def)
  show "requests (fetchSuggestions q (clearTimer i (s\<lparr>clock := t\<rparr>))) =
           requests s @ (if 2 \<le> length q \<and> uri_ok q then [GetSuggest q] else [])"
    by (auto simp: fetchSuggestions_def renderSuggestions_def fetch_def clearTimer_def Let_def)
qed

subsection \<open>A burst inside a trace\<close>

lemma run_snoc:
  "run (es @ [(t, ev)]) s = (case run es s of None \<Rightarrow> None | Some x \<Rightarrow> handle t ev x)"
proof (induction es arbitrary: s)
  case Nil
  then show ?case by (simp split: option.splits)
next
  case (Cons a es)
  obtain t' ev' where a: "a = (t', ev')" by (cases a)
  show ?case using Cons.IH by (simp add: a split: option.splits)
qed

lemma last_input_snoc:
  "last_input l (es @ [(t, ev)]) = (case ev of Input v \<Rightarrow> (t, v) | _ \<Rightarrow> last_input l es)"
proof (induction es arbitrary: l)
  case Nil
  then show ?case by (simp split: event.splits)
next
  case (Cons a es)
  obtain t' ev' where a: "a = (t', ev')" by (cases a)
  show ?case using Cons.IH by (simp add: a split: event.splits)
qed

lemma last_input_time: "fst (last_input (t0, v) es) = fst (last_input (t0, w) es)"
proof (induction es arbitrary: t0 v w)
  case Nil
  then show ?case by simp
next
  case (Cons a es)
  obtain t' ev' where a: "a = (t', ev')" by (cases a)
  show ?case using Cons.IH by (cases ev') (simp_all add: a)
qed

lemma rapid_snoc:
  "rapid_inputs t0 (es @ [(t, ev)]) =
     (rapid_inputs t0 es \<and> (is_input ev \<longrightarrow> t < fst (last_input (t0, v0) es) + 250))"
proof (induction es arbitrary: t0 v0)
  case Nil
  then show ?case by simp
next
  case (Cons a es)
  obtain t' ev' where a: "a = (t', ev')" by (cases a)
  show ?case
  proof (cases ev')
    case (Input v')
    have "fst (last_input (t', v') es) = fst (last_input (t', v0) es)"
      by (rule last_input_time)
    then show ?thesis using Cons.IH [of t' v0] a Input by auto
  qed (use Cons.IH [of t0 v0] a in simp_all)
qed

lemma writes_snoc:
  "writes_since_input (e0 # es @ [(t, ev)]) =
     (if is_input ev then []
      else (if writes_input ev then [(t, ev)] else []) @ writes_since_input (e0 # es))"
  by (simp add: writes_since_input_def)

lemma input_state:
  assumes "timers_inv s" and "handle t (Input v) s = Some s'"
  shows "call_pending s (nextTimerId s) (t + 250) s'" and "stockSearch_value s' = v"
    and "clock s' = t"
proof -
  have c: "clock s \<le> t" using assms(2) by (auto simp: handle_def split: if_splits)
  from input_step [OF assms(1) c, of v] assms(2)
  have "live_debounces s' = [(nextTimerId s, Timer (t + 250) None DebouncedInput)]"
    and "requests s' = requests s" and v: "stockSearch_value s' = v" and k: "clock s' = t"
    by simp_all
  then show "call_pending s (nextTimerId s) (t + 250) s'"
    by (simp add: call_pending_def suggest_requests_def)
  show "stockSearch_value s' = v" by (rule v)
  show "clock s' = t" by (rule k)
qed

lemma call_step:
  assumes "timers_inv s2" and "call_pending s i d s2" and "handle t (Fire i) s2 = Some s'"
  shows "d \<le> t" and "clock s' = t" and "call_made s (js_trim (stockSearch_value s2)) s'"
    and "handle t (Fire i) s2 =
      Some (fetchSuggestions (js_trim (stockSearch_value s2)) (clearTimer i (s2\<lparr>clock := t\<rparr>)))"
proof -
  have l: "live_debounces s2 = [(i, Timer d None DebouncedInput)]"
    and r: "suggest_requests s2 = suggest_requests s"
    using assms(2) by (simp_all add: call_pending_def)
  note f = fire_debounce [OF assms(1) l]
  from f(1) [of t] assms(3) show "d \<le> t"
    by (auto split: if_splits)
  from f(1) [of t] assms(3)
  have s': "s' = fetchSuggestions (js_trim (stockSearch_value s2)) (clearTimer i (s2\<lparr>clock := t\<rparr>))"
    by (auto split: if_splits)
  show "clock s' = t" unfolding s' by (rule f(4))
  have "suggest_requests s' =
      suggest_requests s2 @
      (if 2 \<le> length (js_trim (stockSearch_value s2)) \<and> uri_ok (js_trim (stockSearch_value s2))
       then [GetSuggest (js_trim (stockSearch_value s2))] else [])"
    unfolding s' suggest_requests_def f(3) by simp
  then show "call_made s (js_trim (stockSearch_value s2)) s'"
    using f(2) [of "js_trim (stockSearch_value s2)" t] r
    unfolding s' call_made_def by simp
  show "handle t (Fire i) s2 =
      Some (fetchSuggestions (js_trim (stockSearch_value s2)) (clearTimer i (s2\<lparr>clock := t\<rparr>)))"
    using assms(3) s' by simp
qed

lemma burst_inv:
  assumes inv: "timers_inv s" and rapid: "rapid_inputs t1 es"
    and run: "run ((t1, Input v1) # es) s = Some s'"
  shows "timers_inv s' \<and>
     (writes_since_input ((t1, Input v1) # es) = [] \<longrightarrow>
        stockSearch_value s' = snd (last_input (t1, v1) es)) \<and>
     ((\<exists>i. call_pending s i (fst (last_input (t1, v1) es) + 250) s') \<or>
      (fst (last_input (t1, v1) es) + 250 \<le> clock s' \<and>
       (\<exists>pre t i post s2.
          es = pre @ (t, Fire i) # post \<and> (\<forall>e\<in>set post. \<not> is_input (snd e)) \<and>
          run ((t1, Input v1) # pre) s = Some s2 \<and>
          call_pending s i (fst (last_input (t1, v1) es) + 250) s2 \<and>
          (writes_since_input ((t1, Input v1) # pre) = [] \<longrightarrow>
             stockSearch_value s2 = snd (last_input (t1, v1) es)) \<and>
          fst (last_input (t1, v1) es) + 250 \<le> t \<and>
          handle t (Fire i) s2 =
            Some (fetchSuggestions (js_trim (stockSearch_value s2))
                    (clearTimer i (s2\<lparr>clock := t\<rparr>))) \<and>
          call_made s (js_trim (stockSearch_value s2)) s')))"
proof -
  define tn where "tn = (\<lambda>es. fst (last_input (t1, v1) es))"
  define vn where "vn = (\<lambda>es. snd (last_input (t1, v1) es))"
  define B where "B = (\<lambda>es s'. \<exists>pre t i post s2.
          es = pre @ (t, Fire i) # post \<and> (\<forall>e\<in>set post. \<not> is_input (snd e)) \<and>
          run ((t1, Input v1) # pre) s = Some s2 \<and>
          call_pending s i (tn es + 250) s2 \<and>
          (writes_since_input ((t1, Input v1) # pre) = [] \<longrightarrow> stockSearch_value s2 = vn es) \<and>
          tn es + 250 \<le> t \<and>
          handle t (Fire i) s2 =
            Some (fetchSuggestions (js_trim (stockSearch_value s2))
                    (clearTimer i (s2\<lparr>clock := t\<rparr>))) \<and>
          call_made s (js_trim (stockSearch_value s2)) s')"
  have main: "timers_inv s' \<and>
      (writes_since_input ((t1, Input v1) # es) = [] \<longrightarrow> stockSearch_value s' = vn es) \<and>
      ((\<exists>i. call_pending s i (tn es + 250) s') \<or> (tn es + 250 \<le> clock s' \<and> B es s'))"
    if "rapid_inputs t1 es" and "run ((t1, Input v1) # es) s = Some s'" for es s'
    using that
  proof (induction es arbitrary: s' rule: rev_induct)
    case Nil
    from Nil(2) have h: "handle t1 (Input v1) s = Some s'"
      by (simp split: option.splits)
    note st = input_state [OF inv h]
    have "timers_inv s'" using inv h by (rule inv_handle)
    moreover have "stockSearch_value s' = vn []" using st(2) by (simp add: vn_def)
    moreover have "call_pending s (nextTimerId s) (tn [] + 250) s'"
      using st(1) by (simp add: tn_def)
    ultimately show ?case by blast
  next
    case (snoc e es)
    obtain t ev where e: "e = (t, ev)" by (cases e)
    note rs = run_snoc [of "(t1, Input v1) # es" t ev s, unfolded append_Cons]
    from snoc.prems(2) [unfolded e] rs
    obtain s'' where r: "run ((t1, Input v1) # es) s = Some s''"
      and h: "handle t ev s'' = Some s'"
      by (cases "run ((t1, Input v1) # es) s") (simp_all del: run.simps)
    from snoc.prems(1) [unfolded e] rapid_snoc [of t1 es t ev v1]
    have rp: "rapid_inputs t1 es" and lt: "is_input ev \<longrightarrow> t < tn es + 250"
      by (simp_all add: tn_def)
    note ih = snoc.IH [OF rp r]
    have inv'': "timers_inv s''" using ih by blast
    have inv': "timers_inv s'" using inv'' h by (rule inv_handle)
    have ck: "clock s'' \<le> t" using h by (auto simp: handle_def split: if_splits)
    have val'': "writes_since_input ((t1, Input v1) # es) = [] \<longrightarrow> stockSearch_value s'' = vn es"
      using ih by blast
    show ?case
    proof (cases "is_input ev")
      case True
      then obtain v where ev: "ev = Input v" by (cases ev) simp_all
      have new: "tn (es @ [e]) = t" "vn (es @ [e]) = v"
        by (simp_all add: tn_def vn_def e ev last_input_snoc)
      have "\<not> tn es + 250 \<le> clock s''" using lt True ck by simp
      with ih obtain i where p: "call_pending s i (tn es + 250) s''" by blast
      note st = input_state [OF inv'' h [unfolded ev]]
      have "call_pending s (nextTimerId s'') (tn (es @ [e]) + 250) s'"
        using st(1) p unfolding new by (simp add: call_pending_def)
      moreover have "stockSearch_value s' = vn (es @ [e])"
        using st(2) new by simp
      ultimately show ?thesis using inv' by blast
    next
      case False
      have same: "tn (es @ [e]) = tn es" "vn (es @ [e]) = vn es"
        using False by (cases ev; simp add: tn_def vn_def e last_input_snoc)+
      have fs: "writes_since_input ((t1, Input v1) # es @ [e]) =
          (if writes_input ev then [(t, ev)] else []) @ writes_since_input ((t1, Input v1) # es)"
        using False by (simp add: e writes_snoc)
      from ih consider (A) i where "call_pending s i (tn es + 250) s''"
        | (B) "tn es + 250 \<le> clock s''" "B es s''"
        by blast
      then show ?thesis
      proof cases
        case A
        have l'': "live_debounces s'' = [(i, Timer (tn es + 250) None DebouncedInput)]"
          and q'': "suggest_requests s'' = suggest_requests s"
          using A by (simp_all add: call_pending_def)
        show ?thesis
        proof (cases "ev = Fire i")
          case True
          note cs = call_step [OF inv'' A h [unfolded True]]
          have "B (es @ [e]) s'"
            unfolding B_def same
          proof (intro exI conjI)
            show "es @ [e] = es @ (t, Fire i) # []" using e True by simp
            show "\<forall>e\<in>set []. \<not> is_input (snd e)" by simp
            show "run ((t1, Input v1) # es) s = Some s''" by (rule r)
            show "call_pending s i (tn es + 250) s''" by (rule A)
            show "writes_since_input ((t1, Input v1) # es) = [] \<longrightarrow> stockSearch_value s'' = vn es"
              by (rule val'')
            show "tn es + 250 \<le> t" by (rule cs(1))
            show "handle t (Fire i) s'' =
                Some (fetchSuggestions (js_trim (stockSearch_value s''))
                        (clearTimer i (s''\<lparr>clock := t\<rparr>)))"
              by (rule cs(4))
            show "call_made s (js_trim (stockSearch_value s'')) s'" by (rule cs(3))
          qed
          moreover have "tn (es @ [e]) + 250 \<le> clock s'"
            using cs(1,2) same by simp
          moreover have "writes_since_input ((t1, Input v1) # es @ [e]) \<noteq> []"
            using fs True by simp
          ultimately show ?thesis using inv' by blast
        next
          case False
          have nf: "j \<notin> fst ` set (live_debounces s'')" if "ev = Fire j" for j
            using that False l'' by auto
          note fr = handle_frame [OF inv'' h \<open>\<not> is_input ev\<close> nf]
          have "call_pending s i (tn (es @ [e]) + 250) s'"
            using fr(1,2) l'' q'' same by (simp add: call_pending_def)
          moreover have "writes_since_input ((t1, Input v1) # es @ [e]) = [] \<longrightarrow>
              stockSearch_value s' = vn (es @ [e])"
          proof
            assume "writes_since_input ((t1, Input v1) # es @ [e]) = []"
            then have "\<not> writes_input ev" and "writes_since_input ((t1, Input v1) # es) = []"
              using fs by (auto split: if_splits)
            then show "stockSearch_value s' = vn (es @ [e])"
              using fr(4) val'' same by simp
          qed
          ultimately show ?thesis using inv' by blast
        qed
      next
        case B
        from B(2) obtain pre t0 i post s2 where
          b: "es = pre @ (t0, Fire i) # post" "\<forall>e\<in>set post. \<not> is_input (snd e)"
            "run ((t1, Input v1) # pre) s = Some s2"
            "call_pending s i (tn es + 250) s2"
            "writes_since_input ((t1, Input v1) # pre) = [] \<longrightarrow> stockSearch_value s2 = vn es"
            "tn es + 250 \<le> t0"
            "handle t0 (Fire i) s2 =
               Some (fetchSuggestions (js_trim (stockSearch_value s2))
                       (clearTimer i (s2\<lparr>clock := t0\<rparr>)))"
            "call_made s (js_trim (stockSearch_value s2)) s''"
          unfolding B_def by blast
        have l'': "live_debounces s'' = []"
          using b(8) by (simp add: call_made_def)
        have nf: "j \<notin> fst ` set (live_debounces s'')" if "ev = Fire j" for j
          using l'' by simp
        note fr = handle_frame [OF inv'' h \<open>\<not> is_input ev\<close> nf]
        have made: "call_made s (js_trim (stockSearch_value s2)) s'"
          using b(8) fr(1,2) by (simp add: call_made_def)
        have "B (es @ [e]) s'"
          unfolding B_def same
        proof (intro exI conjI)
          show "es @ [e] = pre @ (t0, Fire i) # (post @ [e])" using b(1) by simp
          show "\<forall>x\<in>set (post @ [e]). \<not> is_input (snd x)"
            using b(2) \<open>\<not> is_input ev\<close> e by simp
          show "run ((t1, Input v1) # pre) s = Some s2" by (rule b(3))
          show "call_pending s i (tn es + 250) s2" by (rule b(4))
          show "writes_since_input ((t1, Input v1) # pre) = [] \<longrightarrow> stockSearch_value s2 = vn es"
            by (rule b(5))
          show "tn es + 250 \<le> t0" by (rule b(6))
          show "handle t0 (Fire i) s2 =
               Some (fetchSuggestions (js_trim (stockSearch_value s2))
                       (clearTimer i (s2\<lparr>clock := t0\<rparr>)))"
            by (rule b(7))
          show "call_made s (js_trim (stockSearch_value s2)) s'" by (rule made)
        qed
        moreover have "tn (es @ [e]) + 250 \<le> clock s'"
          using B(1) ck fr(3) same by simp
        moreover have "writes_since_input ((t1, Input v1) # es @ [e]) = [] \<longrightarrow>
            stockSearch_value s' = vn (es @ [e])"
        proof
          assume "writes_since_input ((t1, Input v1) # es @ [e]) = []"
          then have "\<not> writes_input ev" and "writes_since_input ((t1, Input v1) # es) = []"
            using fs by (auto split: if_splits)
          then show "stockSearch_value s' = vn (es @ [e])"
            using fr(4) val'' same by simp
        qed
        ultimately show ?thesis using inv' by blast
      qed
    qed
  qed
  show ?thesis
    using main [OF rapid run] unfolding B_def tn_def vn_def .
qed

text \<open>
  C3 (amended).  Take a state that the events reach from the initial page, and any
  trace of events from there that begins with an input event and in which each input
  event comes less than 250 ms after the one before; the other events of the trace
  (keys, clicks, responses, timers) are arbitrary.  Let \<open>tn\<close> and \<open>vn\<close> be the time and
  the text of the last input event.  Then one of two things holds at the end.

  Either the debounced call is still to come: exactly one debounce timer is live (the
  timers of the earlier input events have been cancelled), it is due at \<open>tn + 250\<close> and
  cannot fire sooner, no suggestion request has been sent since the burst began, and
  firing the timer calls \<open>fetchSuggestions\<close> with the text that the input holds then,
  trimmed.  That text is \<open>vn\<close> when the script has not written the input since the last
  input event: no timer has fired (a tick of the refresh poll writes the polled symbol
  into the input) and no suggestion has been picked.

  Or the timer has fired, once, at a time \<open>t\<close> no sooner than \<open>tn + 250\<close> and after every
  input event of the trace: the trace up to there ended in a state \<open>s2\<close> of the first
  kind, the firing was the call of \<open>fetchSuggestions\<close> with the trimmed text of the input
  in \<open>s2\<close>, no debounce timer is live any more, and the suggestion requests sent since
  the burst began are that one call's: one request, for the trimmed text, when it has
  two code units or more and \<open>encodeURIComponent\<close> accepts it, and none otherwise.
\<close>

theorem debounce_burst:
  assumes "run es0 initial_page = Some s"
    and "run ((t1, Input v1) # es) s = Some s'"
    and "rapid_inputs t1 es"
  shows "(\<exists>i. call_pending s i (fst (last_input (t1, v1) es) + 250) s' \<and>
            (\<forall>t. handle t (Fire i) s' =
               (if t < clock s' \<or> t < fst (last_input (t1, v1) es) + 250 then None
                else Some (fetchSuggestions (js_trim (stockSearch_value s'))
                             (clearTimer i (s'\<lparr>clock := t\<rparr>))))) \<and>
            (writes_since_input ((t1, Input v1) # es) = [] \<longrightarrow>
               stockSearch_value s' = snd (last_input (t1, v1) es))) \<or>
         (\<exists>pre t i post s2.
            es = pre @ (t, Fire i) # post \<and> (\<forall>e\<in>set post. \<not> is_input (snd e)) \<and>
            run ((t1, Input v1) # pre) s = Some s2 \<and>
            call_pending s i (fst (last_input (t1, v1) es) + 250) s2 \<and>
            (writes_since_input ((t1, Input v1) # pre) = [] \<longrightarrow>
               stockSearch_value s2 = snd (last_input (t1, v1) es)) \<and>
            fst (last_input (t1, v1) es) + 250 \<le> t \<and>
            handle t (Fire i) s2 =
              Some (fetchSuggestions (js_trim (stockSearch_value s2))
                      (clearTimer i (s2\<lparr>clock := t\<rparr>))) \<and>
            call_made s (js_trim (stockSearch_value s2)) s')"
proof -
  have inv: "timers_inv s"
    using inv_run [OF inv_initial assms(1)] .
  note b = burst_inv [OF inv assms(3) assms(2)]
  have inv': "timers_inv s'" using b by blast
  have val: "writes_since_input ((t1, Input v1) # es) = [] \<longrightarrow>
      stockSearch_value s' = snd (last_input (t1, v1) es)"
    using b by blast
  have fire: "\<forall>t. handle t (Fire i) s' =
      (if t < clock s' \<or> t < fst (last_input (t1, v1) es) + 250 then None
       else Some (fetchSuggestions (js_trim (stockSearch_value s'))
                    (clearTimer i (s'\<lparr>clock := t\<rparr>))))"
    if "call_pending s i (fst (last_input (t1, v1) es) + 250) s'" for i
  proof -
    from that have "live_debounces s' =
        [(i, Timer (fst (last_input (t1, v1) es) + 250) None DebouncedInput)]"
      by (simp add: call_pending_def)
    from fire_debounce(1) [OF inv' this] show ?thesis by blast
  qed
  from b fire val show ?thesis by blast
qed

text \<open>
  C3 as stated fails.  After the burst \<open>typing_tcs\<close>, whose final text is \<open>TCS\<close> and a
  space, the one request that is sent asks for \<open>TCS\<close>, not for the final text; after the
  burst \<open>typing_t\<close>, whose final text is \<open>T\<close>, the timer fires and no request is sent
  at all, and none is pending or scheduled.  In \<open>typing_over_poll\<close> the burst ends with
  the text \<open>INFY\<close>, the tick of the poll writes \<open>TCS\<close> into the input before the
  debounce timer fires, and the suggestion request that the burst sends asks for \<open>TCS\<close>.
\<close>

theorem debounce_burst_counterexample:
  "snd (last typing_tcs) = str ''TCS '' \<and>
   map_option requests (run (burst typing_tcs @ [(450, Fire 3)]) initial_page) =
     Some [GetSuggest (str ''TCS'')] \<and>
   str ''TCS'' \<noteq> str ''TCS '' \<and>
   snd (last typing_t) = str ''T'' \<and>
   map_option requests (run (burst typing_t @ [(450, Fire 3)]) initial_page) = Some [] \<and>
   map_option timers (run (burst typing_t @ [(450, Fire 3)]) initial_page) = Some [] \<and>
   map_option pending (run (burst typing_t @ [(450, Fire 3)]) initial_page) = Some [] \<and>
   last_input (0, []) typing_over_poll = (30000, str ''INFY'') \<and>
   map_option requests (run typing_over_poll initial_page) =
     Some [GetSearch (str ''TCS''), GetNews (str ''TCS''), GetSuggest (str ''TCS''),
           GetSearch (str ''TCS''), GetSuggest (str ''TCS'')] \<and>
   map_option live_debounces (run typing_over_poll initial_page) = Some []"
proof -
  have a: "snd (last typing_tcs) = str ''TCS ''"
    "map_option requests (run (burst typing_tcs @ [(450, Fire 3)]) initial_page) =
       Some [GetSuggest (str ''TCS'')]"
    "str ''TCS'' \<noteq> str ''TCS ''"
    by (simp_all add: typing_tcs_def burst_def eval_defs)
  have b: "snd (last typing_t) = str ''T''"
    "map_option requests (run (burst typing_t @ [(450, Fire 3)]) initial_page) = Some []"
    "map_option timers (run (burst typing_t @ [(450, Fire 3)]) initial_page) = Some []"
    "map_option pending (run (burst typing_t @ [(450, Fire 3)]) initial_page) = Some []"
    by (simp_all add: typing_t_def burst_def eval_defs)
  have c: "last_input (0, []) typing_over_poll = (30000, str ''INFY'')"
    by (simp add: typing_over_poll_def poll_trace_def)
  have d: "map_option requests (run typing_over_poll initial_page) =
     Some [GetSearch (str ''TCS''), GetNews (str ''TCS''), GetSuggest (str ''TCS''),
           GetSearch (str ''TCS''), GetSuggest (str ''TCS'')]"
    "map_option live_debounces (run typing_over_poll initial_page) = Some []"
    by (simp_all add: typing_over_poll_def poll_trace_def eval_defs live_debounces_def)
  show ?thesis using a b c d by simp
qed

text \<open>
  The burst \<open>typing_tcs\<close> on the initial page: at its end the call is still to come, and
  the timer cannot fire at 449 ms and fires at 450 ms; with the firing appended to the
  trace, the call has been made, for \<open>TCS\<close>.
\<close>

theorem debounce_burst_witness:
  "run [] initial_page = Some initial_page \<and>
   rapid_inputs 0 [(100, Input (str ''TC'')), (200, Input (str ''TCS ''))] \<and>
   (\<exists>s' i. run [(0, Input (str ''T'')), (100, Input (str ''TC'')), (200, Input (str ''TCS ''))]
              initial_page = Some s' \<and>
      call_pending initial_page i 450 s' \<and>
      handle 449 (Fire i) s' = None \<and>
      handle 450 (Fire i) s' =
        Some (fetchSuggestions (str ''TCS'') (clearTimer i (s'\<lparr>clock := 450\<rparr>))) \<and>
      stockSearch_value s' = str ''TCS '') \<and>
   rapid_inputs 0 [(100, Input (str ''TC'')), (200, Input (str ''TCS '')), (450, Fire 3)] \<and>
   (\<exists>s'. run [(0, Input (str ''T'')), (100, Input (str ''TC'')), (200, Input (str ''TCS '')),
               (450, Fire 3)] initial_page = Some s' \<and>
      call_made initial_page (str ''TCS'') s' \<and>
      suggest_requests s' = [GetSuggest (str ''TCS'')])"
proof -
  let ?es = "[(100, Input (str ''TC'')), (200, Input (str ''TCS ''))]"
  let ?es2 = "[(100, Input (str ''TC'')), (200, Input (str ''TCS '')), (450, Fire 3)]"
  have h1: "run [] initial_page = Some initial_page" by simp
  have h3: "rapid_inputs 0 ?es" "rapid_inputs 0 ?es2" by simp_all
  have li: "last_input (0, str ''T'') ?es = (200, str ''TCS '')"
    "last_input (0, str ''T'') ?es2 = (200, str ''TCS '')"
    by simp_all
  have fs: "writes_since_input ((0, Input (str ''T'')) # ?es) = []"
    by (simp add: writes_since_input_def)
  have jt: "js_trim (str ''TCS '') = str ''TCS''"
    by (simp add: js_trim_def is_ws_def str_def)
  have ok: "2 \<le> length (str ''TCS'') \<and> uri_ok (str ''TCS'')"
    by (simp add: str_def)
  have e1: "map_option clock (run ((0, Input (str ''T'')) # ?es) initial_page) = Some 200"
    by (simp add: eval_defs)
  then obtain s' where r: "run ((0, Input (str ''T'')) # ?es) initial_page = Some s'"
    and ck: "clock s' = 200"
    by (cases "run ((0, Input (str ''T'')) # ?es) initial_page") (simp_all del: run.simps)
  have no_fire: "?es \<noteq> pre @ (t, Fire i) # post" for pre t i post
  proof
    assume "?es = pre @ (t, Fire i) # post"
    then have "(t, Fire i) \<in> set ?es" by (metis in_set_conv_decomp)
    then show False by simp
  qed
  from debounce_burst [OF h1 r h3(1), unfolded li fst_conv snd_conv] no_fire fs
  obtain i where p: "call_pending initial_page i (200 + 250) s'"
    and f: "\<And>t. handle t (Fire i) s' =
      (if t < clock s' \<or> t < 200 + 250 then None
       else Some (fetchSuggestions (js_trim (stockSearch_value s')) (clearTimer i (s'\<lparr>clock := t\<rparr>))))"
    and v: "stockSearch_value s' = str ''TCS ''"
    by blast
  have first: "\<exists>s' i. run [(0, Input (str ''T'')), (100, Input (str ''TC'')), (200, Input (str ''TCS ''))]
              initial_page = Some s' \<and>
      call_pending initial_page i 450 s' \<and>
      handle 449 (Fire i) s' = None \<and>
      handle 450 (Fire i) s' =
        Some (fetchSuggestions (str ''TCS'') (clearTimer i (s'\<lparr>clock := 450\<rparr>))) \<and>
      stockSearch_value s' = str ''TCS ''"
  proof (intro exI conjI)
    show "run [(0, Input (str ''T'')), (100, Input (str ''TC'')), (200, Input (str ''TCS ''))]
        initial_page = Some s'"
      by (rule r)
    show "call_pending initial_page i 450 s'" using p by simp
    show "handle 449 (Fire i) s' = None" using f [of 449] by simp
    show "handle 450 (Fire i) s' =
        Some (fetchSuggestions (str ''TCS'') (clearTimer i (s'\<lparr>clock := 450\<rparr>)))"
      using f [of 450] ck v jt by simp
    show "stockSearch_value s' = str ''TCS ''" by (rule v)
  qed
  have e2: "map_option live_debounces (run ((0, Input (str ''T'')) # ?es2) initial_page) = Some []"
    by (simp add: eval_defs live_debounces_def)
  then obtain s3 where r2: "run ((0, Input (str ''T'')) # ?es2) initial_page = Some s3"
    and l3: "live_debounces s3 = []"
    by (cases "run ((0, Input (str ''T'')) # ?es2) initial_page") (simp_all del: run.simps)
  have not_pending: "\<not> call_pending initial_page i d s3" for i d
    using l3 by (simp add: call_pending_def)
  from debounce_burst [OF h1 r2 h3(2), unfolded li fst_conv snd_conv] not_pending
  obtain pre t i post s2 where
    d: "?es2 = pre @ (t, Fire i) # post"
    and r3: "run ((0, Input (str ''T'')) # pre) initial_page = Some s2"
    and v2: "writes_since_input ((0, Input (str ''T'')) # pre) = [] \<longrightarrow>
      stockSearch_value s2 = str ''TCS ''"
    and m: "call_made initial_page (js_trim (stockSearch_value s2)) s3"
    by blast
  from d have "pre = ?es"
    by (auto simp: Cons_eq_append_conv)
  then have "stockSearch_value s2 = str ''TCS ''"
    using v2 fs by simp
  then have made: "call_made initial_page (str ''TCS'') s3"
    using m jt by simp
  then have "suggest_requests s3 = [GetSuggest (str ''TCS'')]"
    using ok by (simp add: call_made_def suggest_requests_def initial_page_def)
  with r2 made have second: "\<exists>s'. run [(0, Input (str ''T'')), (100, Input (str ''TC'')),
      (200, Input (str ''TCS '')), (450, Fire 3)] initial_page = Some s' \<and>
      call_made initial_page (str ''TCS'') s' \<and>
      suggest_requests s' = [GetSuggest (str ''TCS'')]"
    by blast
  show ?thesis using h1 h3 first second by blast
qed

section \<open>Suggestion responses\<close>






end
